(* ===== verification/Prelude.thy ===== *)
theory Prelude
  imports Main "HOL-Library.AList"
begin

text \<open>
  What every component of the model shares: the exceptions of the program as values, stateful
  code as functions of a state that return a result or an exception together with the new state
  (a Python exception keeps the mutations made before it), dictionaries with insertion order,
  the dictionary contract as a locale, and the rules for invariants of stateful code.
\<close>

section \<open>Exceptions and results\<close>

datatype py_error =
    KeyError | ValueError | TypeError | AttributeError | AssertionError | IndexError
  | ZeroDivisionError | OverflowError | InvalidOperation | RecursionError | NotImplementedError
  | MachineError | SignatureMissingError | BadSignature | StopIteration
  | OfferTimedOutException | AlreadyTimedOutException | UntradableAssetPair
  | PlainException | HttpAbort nat

type_synonym 'a res = "py_error + 'a"

fun bind_res :: "'a res \<Rightarrow> ('a \<Rightarrow> 'b res) \<Rightarrow> 'b res" where
  "bind_res (Inl e) f = Inl e"
| "bind_res (Inr x) f = f x"

lemma bind_res_Inr_iff: "bind_res r f = Inr y \<longleftrightarrow> (\<exists>x. r = Inr x \<and> f x = Inr y)"
  by (cases r) auto

lemma bind_res_Inl_iff:
  "bind_res r f = Inl e \<longleftrightarrow> r = Inl e \<or> (\<exists>x. r = Inr x \<and> f x = Inl e)"
  by (cases r) auto

section \<open>Stateful code\<close>

text \<open>
  A piece of code over a state \<open>'s\<close> with result \<open>'a\<close>. On an exception the state is the one
  reached when the exception was raised.
\<close>

type_synonym ('s, 'a) prog = "'s \<Rightarrow> 'a res \<times> 's"

definition return :: "'a \<Rightarrow> ('s, 'a) prog" where
  "return x s = (Inr x, s)"

definition throw :: "py_error \<Rightarrow> ('s, 'a) prog" where
  "throw e s = (Inl e, s)"

definition seq :: "('s, 'a) prog \<Rightarrow> ('a \<Rightarrow> ('s, 'b) prog) \<Rightarrow> ('s, 'b) prog" where
  "seq m f s = (case m s of (Inl e, s') \<Rightarrow> (Inl e, s') | (Inr x, s') \<Rightarrow> f x s')"

definition get_state :: "('s \<Rightarrow> 'a) \<Rightarrow> ('s, 'a) prog" where
  "get_state f s = (Inr (f s), s)"

definition modify :: "('s \<Rightarrow> 's) \<Rightarrow> ('s, unit) prog" where
  "modify f s = (Inr (), f s)"

definition lift_res :: "'a res \<Rightarrow> ('s, 'a) prog" where
  "lift_res r s = (r, s)"

fun for_each :: "('a \<Rightarrow> ('s, unit) prog) \<Rightarrow> 'a list \<Rightarrow> ('s, unit) prog" where
  "for_each body [] = return ()"
| "for_each body (x # xs) = seq (body x) (\<lambda>_. for_each body xs)"

named_theorems prog_simps \<open>unfolding of stateful code\<close>

lemma return_apply [prog_simps]: "return x s = (Inr x, s)"
  by (simp add: return_def)

lemma throw_apply [prog_simps]: "throw e s = (Inl e, s)"
  by (simp add: throw_def)

lemma get_state_apply [prog_simps]: "get_state f s = (Inr (f s), s)"
  by (simp add: get_state_def)

lemma modify_apply [prog_simps]: "modify f s = (Inr (), f s)"
  by (simp add: modify_def)

lemma lift_res_apply [prog_simps]: "lift_res r s = (r, s)"
  by (simp add: lift_res_def)

lemma seq_apply [prog_simps]:
  "seq m f s = (case m s of (r, s') \<Rightarrow> (case r of Inl e \<Rightarrow> (Inl e, s') | Inr x \<Rightarrow> f x s'))"
  by (auto simp: seq_def split: prod.splits sum.splits)

lemma seq_Inr: "m s = (Inr x, s') \<Longrightarrow> seq m f s = f x s'"
  by (simp add: seq_def)

lemma seq_Inl: "m s = (Inl e, s') \<Longrightarrow> seq m f s = (Inl e, s')"
  by (simp add: seq_def)

lemma seq_assoc: "seq (seq m f) g = seq m (\<lambda>x. seq (f x) g)"
  by (rule ext) (simp add: seq_def split: prod.splits sum.splits)

lemma seq_return [simp]: "seq (return x) f = f x"
  by (rule ext) (simp add: seq_def return_def)

lemma seq_throw [simp]: "seq (throw e) f = throw e"
  by (rule ext) (simp add: seq_def throw_def)

lemma seq_unit:
  "seq m (\<lambda>_. return ()) s =
     ((case fst (m s) of Inl e \<Rightarrow> Inl e | Inr _ \<Rightarrow> Inr ()), snd (m s))"
  by (simp add: seq_def return_def split: prod.split sum.split)

lemma for_each_append:
  "for_each b (xs @ ys) = seq (for_each b xs) (\<lambda>_. for_each b ys)"
  by (induction xs) (simp_all add: seq_assoc)

subsection \<open>Invariants of stateful code\<close>

definition preserves :: "('s \<Rightarrow> bool) \<Rightarrow> ('s, 'a) prog \<Rightarrow> bool" where
  "preserves I m \<longleftrightarrow> (\<forall>s. I s \<longrightarrow> I (snd (m s)))"

named_theorems preserves_intros \<open>invariants of stateful code, one rule per construct\<close>

lemma preservesI: "(\<And>s. I s \<Longrightarrow> I (snd (m s))) \<Longrightarrow> preserves I m"
  by (simp add: preserves_def)

lemma preservesD: "preserves I m \<Longrightarrow> I s \<Longrightarrow> m s = (r, s') \<Longrightarrow> I s'"
  by (metis preserves_def snd_conv)

lemma preserves_return [preserves_intros]: "preserves I (return x)"
  by (simp add: preserves_def return_def)

lemma preserves_throw [preserves_intros]: "preserves I (throw e)"
  by (simp add: preserves_def throw_def)

lemma preserves_get [preserves_intros]: "preserves I (get_state f)"
  by (simp add: preserves_def get_state_def)

lemma preserves_lift [preserves_intros]: "preserves I (lift_res r)"
  by (simp add: preserves_def lift_res_def)

lemma preserves_modify: "(\<And>s. I s \<Longrightarrow> I (f s)) \<Longrightarrow> preserves I (modify f)"
  by (simp add: preserves_def modify_def)

lemma preserves_seq [preserves_intros]:
  assumes "preserves I m" and "\<And>x. preserves I (f x)"
  shows "preserves I (seq m f)"
  using assms by (fastforce simp: preserves_def seq_def split: prod.splits sum.splits)

lemma preserves_if [preserves_intros]:
  "preserves I m \<Longrightarrow> preserves I n \<Longrightarrow> preserves I (if b then m else n)"
  by simp

lemma preserves_option [preserves_intros]:
  "preserves I m \<Longrightarrow> (\<And>x. preserves I (f x)) \<Longrightarrow>
    preserves I (case x of None \<Rightarrow> m | Some y \<Rightarrow> f y)"
  by (cases x) auto

lemma preserves_for_each [preserves_intros]:
  "(\<And>x. preserves I (b x)) \<Longrightarrow> preserves I (for_each b xs)"
  by (induction xs) (auto intro: preserves_intros)

section \<open>Dictionaries\<close>

text \<open>
  A Python dictionary keeps its keys in insertion order: it is an association list. Storing
  under a key that is present replaces the value in place, a new key goes to the end; deleting
  an absent key raises \<open>KeyError\<close>.
\<close>

type_synonym ('k, 'v) dict = "('k \<times> 'v) list"

definition dict_get :: "'k \<Rightarrow> ('k, 'v) dict \<Rightarrow> 'v option" where
  "dict_get k d = map_of d k"

definition dict_set :: "'k \<Rightarrow> 'v \<Rightarrow> ('k, 'v) dict \<Rightarrow> ('k, 'v) dict" where
  "dict_set k v d = AList.update k v d"

definition dict_del :: "'k \<Rightarrow> ('k, 'v) dict \<Rightarrow> ('k, 'v) dict" where
  "dict_del k d = AList.delete k d"

definition dict_mem :: "'k \<Rightarrow> ('k, 'v) dict \<Rightarrow> bool" where
  "dict_mem k d \<longleftrightarrow> dict_get k d \<noteq> None"

definition dict_keys :: "('k, 'v) dict \<Rightarrow> 'k list" where
  "dict_keys d = map fst d"

definition dict_values :: "('k, 'v) dict \<Rightarrow> 'v list" where
  "dict_values d = map snd d"

definition dict_item :: "'k \<Rightarrow> ('k, 'v) dict \<Rightarrow> 'v res" where
  "dict_item k d = (case dict_get k d of None \<Rightarrow> Inl KeyError | Some v \<Rightarrow> Inr v)"

definition dict_delitem :: "'k \<Rightarrow> ('k, 'v) dict \<Rightarrow> ('k, 'v) dict res" where
  "dict_delitem k d = (if dict_mem k d then Inr (dict_del k d) else Inl KeyError)"

definition dict_wf :: "('k, 'v) dict \<Rightarrow> bool" where
  "dict_wf d \<longleftrightarrow> distinct (map fst d)"

text \<open>
  The contract of a dictionary, as its clients use it: what a lookup returns after a store and
  after a deletion, and that both keep the representation well formed.
\<close>

locale dictionary =
  fixes lookup :: "'k \<Rightarrow> 'd \<Rightarrow> 'v option"
    and store :: "'k \<Rightarrow> 'v \<Rightarrow> 'd \<Rightarrow> 'd"
    and remove :: "'k \<Rightarrow> 'd \<Rightarrow> 'd"
    and void :: "'d"
    and wf :: "'d \<Rightarrow> bool"
  assumes lookup_void: "lookup k void = None"
    and lookup_store: "wf d \<Longrightarrow> lookup k (store k' v d) = (if k = k' then Some v else lookup k d)"
    and lookup_remove: "wf d \<Longrightarrow> lookup k (remove k' d) = (if k = k' then None else lookup k d)"
    and wf_void: "wf void"
    and wf_store: "wf d \<Longrightarrow> wf (store k v d)"
    and wf_remove: "wf d \<Longrightarrow> wf (remove k d)"
begin

lemma lookup_store_same: "wf d \<Longrightarrow> lookup k (store k v d) = Some v"
  by (simp add: lookup_store)

lemma lookup_store_other: "wf d \<Longrightarrow> k \<noteq> k' \<Longrightarrow> lookup k (store k' v d) = lookup k d"
  by (simp add: lookup_store)

lemma lookup_remove_store:
  "wf d \<Longrightarrow> lookup k d = None \<Longrightarrow> lookup k' (remove k (store k v d)) = lookup k' d"
  by (simp add: lookup_remove lookup_store wf_store)

lemma store_twice:
  "wf d \<Longrightarrow> lookup k' (store k v (store k w d)) = lookup k' (store k v d)"
  by (simp add: lookup_store wf_store)

lemma remove_absent: "wf d \<Longrightarrow> lookup k d = None \<Longrightarrow> lookup k' (remove k d) = lookup k' d"
  by (simp add: lookup_remove)

end

lemma dict_get_set [simp]:
  "dict_get k (dict_set k' v d) = (if k = k' then Some v else dict_get k d)"
  by (simp add: dict_get_def dict_set_def update_conv')

lemma dict_get_del [simp]: "dict_get k (dict_del k' d) = (if k = k' then None else dict_get k d)"
  by (simp add: dict_get_def dict_del_def delete_conv')

lemma dict_get_Nil [simp]: "dict_get k [] = None"
  by (simp add: dict_get_def)

lemma dict_wf_Nil [simp]: "dict_wf []"
  by (simp add: dict_wf_def)

lemma dict_wf_set [simp]: "dict_wf d \<Longrightarrow> dict_wf (dict_set k v d)"
  by (simp add: dict_wf_def dict_set_def distinct_update)

lemma dict_wf_del [simp]: "dict_wf d \<Longrightarrow> dict_wf (dict_del k d)"
  by (simp add: dict_wf_def dict_del_def distinct_delete)

interpretation py_dict: dictionary dict_get dict_set dict_del "[]" dict_wf
  by unfold_locales auto

lemma dict_mem_set [simp]: "dict_mem k (dict_set k' v d) \<longleftrightarrow> k = k' \<or> dict_mem k d"
  by (simp add: dict_mem_def)

lemma dict_mem_del [simp]: "dict_mem k (dict_del k' d) \<longleftrightarrow> k \<noteq> k' \<and> dict_mem k d"
  by (simp add: dict_mem_def)

lemma dict_mem_Nil [simp]: "\<not> dict_mem k []"
  by (simp add: dict_mem_def)

lemma dict_get_in_set: "dict_get k d = Some v \<Longrightarrow> (k, v) \<in> set d"
  by (simp add: dict_get_def map_of_SomeD)

lemma dict_in_set_get: "dict_wf d \<Longrightarrow> (k, v) \<in> set d \<Longrightarrow> dict_get k d = Some v"
  by (simp add: dict_get_def dict_wf_def)

lemma dict_mem_iff_key: "dict_mem k d \<longleftrightarrow> k \<in> set (dict_keys d)"
  by (simp add: dict_mem_def dict_get_def dict_keys_def map_of_eq_None_iff)

lemma dict_values_set_iff: "dict_wf d \<Longrightarrow> v \<in> set (dict_values d) \<longleftrightarrow> (\<exists>k. dict_get k d = Some v)"
  by (force simp: dict_values_def dest: dict_get_in_set dict_in_set_get)

lemma dict_set_new: "\<not> dict_mem k d \<Longrightarrow> dict_set k v d = d @ [(k, v)]"
  by (induction d) (auto simp: dict_set_def dict_mem_def dict_get_def split: if_splits)

lemma dict_values_set_new: "\<not> dict_mem k d \<Longrightarrow> dict_values (dict_set k v d) = dict_values d @ [v]"
  by (simp add: dict_set_new dict_values_def)

lemma dict_item_Inr [simp]: "dict_item k d = Inr v \<longleftrightarrow> dict_get k d = Some v"
  by (simp add: dict_item_def split: option.splits)

lemma dict_delitem_ok: "dict_mem k d \<Longrightarrow> dict_delitem k d = Inr (dict_del k d)"
  by (simp add: dict_delitem_def)

section \<open>Transition systems\<close>

text \<open>
  A component whose steps are made by its environment: the states reachable from the initial
  ones, and the rule that lifts a property kept by every step to all of them.
\<close>

inductive reachable_from :: "('s \<Rightarrow> 's \<Rightarrow> bool) \<Rightarrow> 's \<Rightarrow> 's \<Rightarrow> bool" for step s0 where
  reach_start: "reachable_from step s0 s0"
| reach_step: "reachable_from step s0 s \<Longrightarrow> step s t \<Longrightarrow> reachable_from step s0 t"

locale step_system =
  fixes start :: "'s"
    and step :: "'s \<Rightarrow> 's \<Rightarrow> bool"
    and inv :: "'s \<Rightarrow> bool"
  assumes inv_start: "inv start"
    and inv_step: "step s t \<Longrightarrow> inv s \<Longrightarrow> inv t"
begin

lemma inv_reachable: "reachable_from step start s \<Longrightarrow> inv s"
  by (induction rule: reachable_from.induct) (auto intro: inv_start inv_step)

lemma inv_from: "reachable_from step s t \<Longrightarrow> inv s \<Longrightarrow> inv t"
  by (induction rule: reachable_from.induct) (auto intro: inv_step)

end

lemma reachable_from_trans:
  "reachable_from step s t \<Longrightarrow> reachable_from step t u \<Longrightarrow> reachable_from step s u"
  by (rotate_tac, induction rule: reachable_from.induct) (auto intro: reachable_from.intros)

section \<open>Counting changes\<close>

text \<open>How often a value changes along a list of observations.\<close>

definition changes :: "'a list \<Rightarrow> nat" where
  "changes xs = length (remdups_adj xs) - 1"

lemma remdups_adj_pos: "0 < length (remdups_adj (x # xs))"
  by (simp add: remdups_adj_length_ge1)

lemma changes_simps [simp]:
  "changes [] = 0" "changes [x] = 0"
  "changes (x # y # ys) = (if x = y then 0 else 1) + changes (y # ys)"
  using remdups_adj_pos [of y ys] by (auto simp: changes_def)

text \<open>
  A transition system observed through a view that can only climb: the number of changes of the
  view along any sequence of steps is bounded by the height it climbs.
\<close>

locale ranked_system =
  fixes ok :: "'s \<Rightarrow> bool" and step :: "'s \<Rightarrow> 's \<Rightarrow> bool"
    and view :: "'s \<Rightarrow> 'v" and rank :: "'v \<Rightarrow> nat"
  assumes ok_step: "ok s \<Longrightarrow> step s t \<Longrightarrow> ok t"
    and view_climbs: "ok s \<Longrightarrow> step s t \<Longrightarrow> view s = view t \<or> rank (view s) < rank (view t)"
begin

lemma changes_climb:
  "successively step (s # ss) \<Longrightarrow> ok s \<Longrightarrow>
   rank (view s) + changes (map view (s # ss)) \<le> rank (view (last (s # ss)))"
proof (induction ss arbitrary: s)
  case (Cons t ss)
  then have "rank (view t) + changes (map view (t # ss)) \<le> rank (view (last (t # ss)))"
    using ok_step by simp
  moreover have "view s = view t \<or> rank (view s) < rank (view t)"
    using Cons.prems view_climbs by simp
  ultimately show ?case by auto
qed simp

end

end
