(* ===== verification/Fsm.thy ===== *)
theory Fsm
  imports Prelude
begin

text \<open>
  The state machine library the program is written against (package \<open>transitions\<close>): an event has
  a list of transitions in the order they were added. Triggered in a state, it considers the ones
  with that source; if there is none it raises \<open>MachineError\<close>; otherwise the first whose
  conditions hold is executed (\<open>before\<close> callbacks, change of state, \<open>after\<close> callbacks) and the
  trigger returns \<open>True\<close>, and if the conditions of all fail it returns \<open>False\<close>. The locale below
  states this contract; it determines the functions used here.
\<close>

record ('st, 'c, 'cb) transition =
  t_source :: "'st"
  t_dest :: "'st"
  t_conditions :: "'c list"
  t_unless :: "'c list"
  t_before :: "'cb list"
  t_after :: "'cb list"

fun eval_conditions :: "('c \<Rightarrow> ('s, bool) prog) \<Rightarrow> bool \<Rightarrow> 'c list \<Rightarrow> ('s, bool) prog" where
  "eval_conditions check target [] = return True"
| "eval_conditions check target (c # cs) =
     seq (check c) (\<lambda>b. if b = target then eval_conditions check target cs else return False)"

definition execute ::
  "('c \<Rightarrow> ('s, bool) prog) \<Rightarrow> (('st, 'c, 'cb) transition \<Rightarrow> ('s, unit) prog) \<Rightarrow>
   (('st, 'c, 'cb) transition \<Rightarrow> 'cb \<Rightarrow> ('s, unit) prog) \<Rightarrow>
   ('st, 'c, 'cb) transition \<Rightarrow> ('s, bool) prog" where
  "execute check change call t =
     seq (eval_conditions check True (t_conditions t)) (\<lambda>ok.
     if \<not> ok then return False else
     seq (eval_conditions check False (t_unless t)) (\<lambda>ok.
     if \<not> ok then return False else
     seq (for_each (call t) (t_before t)) (\<lambda>_.
     seq (change t) (\<lambda>_.
     seq (for_each (call t) (t_after t)) (\<lambda>_. return True)))))"

fun run_transitions :: "('t \<Rightarrow> ('s, bool) prog) \<Rightarrow> 't list \<Rightarrow> ('s, bool) prog" where
  "run_transitions ex [] = return False"
| "run_transitions ex (t # ts) =
     seq (ex t) (\<lambda>done. if done then return True else run_transitions ex ts)"

definition trigger ::
  "('s \<Rightarrow> 'st) \<Rightarrow> (('st, 'c, 'cb) transition \<Rightarrow> ('s, bool) prog) \<Rightarrow>
   ('st, 'c, 'cb) transition list \<Rightarrow> ('s, bool) prog" where
  "trigger cur ex table s =
     (let ts = filter (\<lambda>t. t_source t = cur s) table in
      if ts = [] then (Inl MachineError, s) else run_transitions ex ts s)"

text \<open>
  Building a machine: the transitions of all its events in the order they were added, one per
  source state; the destination \<open>None\<close> is the library's \<open>'='\<close>, the source itself. Removing
  drops the transitions of an event with the given sources and destinations.
\<close>

type_synonym ('ev, 'st, 'c, 'cb) machine = "('ev \<times> ('st, 'c, 'cb) transition) list"

definition add_transition ::
  "'ev \<Rightarrow> 'st list \<Rightarrow> 'st option \<Rightarrow> 'c list \<Rightarrow> 'c list \<Rightarrow> 'cb list \<Rightarrow> 'cb list \<Rightarrow>
   ('ev, 'st, 'c, 'cb) machine \<Rightarrow> ('ev, 'st, 'c, 'cb) machine" where
  "add_transition ev sources dest conds unl bef aft fsm =
     fsm @ map (\<lambda>s. (ev, \<lparr>t_source = s, t_dest = (case dest of None \<Rightarrow> s | Some d \<Rightarrow> d),
                          t_conditions = conds, t_unless = unl, t_before = bef, t_after = aft\<rparr>))
               sources"

definition remove_transition ::
  "'ev \<Rightarrow> 'st list \<Rightarrow> 'st list \<Rightarrow> ('ev, 'st, 'c, 'cb) machine \<Rightarrow> ('ev, 'st, 'c, 'cb) machine" where
  "remove_transition ev sources dests fsm =
     filter (\<lambda>(e, t). \<not> (e = ev \<and> t_source t \<in> set sources \<and> t_dest t \<in> set dests)) fsm"

definition event_table ::
  "('ev, 'st, 'c, 'cb) machine \<Rightarrow> 'ev \<Rightarrow> ('st, 'c, 'cb) transition list" where
  "event_table fsm ev = map snd (filter (\<lambda>(e, t). e = ev) fsm)"

text \<open>The transitions of an event that leave a state, in order.\<close>

definition candidates ::
  "('ev, 'st, 'c, 'cb) machine \<Rightarrow> 'ev \<Rightarrow> 'st \<Rightarrow> ('st, 'c, 'cb) transition list" where
  "candidates fsm ev st = filter (\<lambda>t. t_source t = st) (event_table fsm ev)"

locale transitions_contract =
  fixes process :: "'t list \<Rightarrow> ('s, bool) prog"
    and ex :: "'t \<Rightarrow> ('s, bool) prog"
  assumes exhausted: "process [] s = (Inr False, s)"
    and taken: "ex t s = (Inr True, s') \<Longrightarrow> process (t # ts) s = (Inr True, s')"
    and refused: "ex t s = (Inr False, s') \<Longrightarrow> process (t # ts) s = process ts s'"
    and raised: "ex t s = (Inl e, s') \<Longrightarrow> process (t # ts) s = (Inl e, s')"
begin

lemma determined: "process ts s = run_transitions ex ts s"
proof (induction ts arbitrary: s)
  case Nil
  show ?case by (simp add: exhausted return_def)
next
  case (Cons t ts)
  obtain r s' where ex: "ex t s = (r, s')" by (cases "ex t s")
  show ?case
  proof (cases r)
    case (Inl e)
    with ex show ?thesis by (simp add: raised seq_def)
  next
    case (Inr b)
    with ex show ?thesis by (cases b) (simp_all add: taken refused Cons.IH seq_def return_def)
  qed
qed

lemma process_single: "process [t] s = ex t s"
  by (cases "ex t s"; cases "fst (ex t s)")
     (auto simp: determined seq_def return_def split: if_splits)

end

interpretation run: transitions_contract "run_transitions ex" ex for ex
  by unfold_locales (simp_all add: seq_def return_def)

lemma trigger_no_source:
  "\<forall>t \<in> set table. t_source t \<noteq> cur s \<Longrightarrow> trigger cur ex table s = (Inl MachineError, s)"
  by (simp add: trigger_def filter_empty_conv)

text \<open>What a trigger does, given the transitions of its event that leave the current state.\<close>

lemma trigger_candidates:
  "filter (\<lambda>t. t_source t = cur s) table = ts \<Longrightarrow> ts \<noteq> [] \<Longrightarrow>
    trigger cur ex table s = run_transitions ex ts s"
  by (simp add: trigger_def)

lemma trigger_by_candidates:
  "trigger cur ex (event_table fsm ev) s =
     (case candidates fsm ev (cur s) of
        [] \<Rightarrow> (Inl MachineError, s)
      | ts \<Rightarrow> run_transitions ex ts s)"
  by (simp add: trigger_def candidates_def Let_def split: list.split)

lemma candidates_source: "t \<in> set (candidates fsm ev st) \<Longrightarrow> t_source t = st"
  by (simp add: candidates_def)

end
