(* ===== verification/Py_Float.thy ===== *)
theory Py_Float
  imports Prelude Complex_Main
begin

text \<open>
  The floating point numbers of Python (IEEE 754 doubles) as the rationals they stand for:
  rounding to 53 significant bits, ties to even, with the subnormal range, and the operations
  the program uses (\<open>float(int)\<close>, multiplication, division, \<open>int(float)\<close>, \<open>round\<close>). Infinities do
  not occur as values: an operation whose result exceeds the range raises \<open>OverflowError\<close>, as
  \<open>float(int)\<close> does, and as \<open>int(float)\<close> does of the infinity that a product would give.
\<close>

section \<open>Bits and rounding to the nearest integer\<close>

fun bits :: "nat \<Rightarrow> nat" where
  "bits n = (if n = 0 then 0 else Suc (bits (n div 2)))"

declare bits.simps [simp del]

lemma bits_0 [simp]: "bits 0 = 0"
  by (simp add: bits.simps)

lemma less_bits: "n < 2 ^ bits n"
proof (induction n rule: bits.induct)
  case (1 n)
  show ?case
  proof (cases "n = 0")
    case False
    then have "n div 2 < 2 ^ bits (n div 2)" by (rule "1.IH")
    then have "n < 2 * 2 ^ bits (n div 2)" by linarith
    with False show ?thesis by (simp add: bits.simps [of n])
  qed simp
qed

lemma bits_le: "n \<noteq> 0 \<Longrightarrow> 2 ^ (bits n - 1) \<le> n"
proof (induction n rule: bits.induct)
  case (1 n)
  show ?case
  proof (cases "n div 2 = 0")
    case True
    with 1 show ?thesis by (simp add: bits.simps [of n])
  next
    case False
    with 1 have ih: "2 ^ (bits (n div 2) - 1) \<le> n div 2" by simp
    have pos: "bits (n div 2) \<noteq> 0" using False by (simp add: bits.simps [of "n div 2"])
    have "(2::nat) ^ bits (n div 2) = 2 * 2 ^ (bits (n div 2) - 1)"
      using pos by (simp flip: power_Suc)
    also have "\<dots> \<le> n" using ih by linarith
    finally show ?thesis using 1 by (simp add: bits.simps [of n])
  qed
qed

text \<open>\<open>round_even\<close>: to the nearest integer, a tie to the even one.\<close>

definition round_even :: "rat \<Rightarrow> int" where
  "round_even x =
     (let f = \<lfloor>x\<rfloor>; d = x - of_int f in
      if d < 1/2 then f else if 1/2 < d then f + 1 else if even f then f else f + 1)"

lemma round_even_bounds: "\<lfloor>x\<rfloor> \<le> round_even x" "round_even x \<le> \<lfloor>x\<rfloor> + 1"
  by (simp_all add: round_even_def Let_def)

lemma round_even_of_int [simp]: "round_even (of_int n) = n"
  by (simp add: round_even_def)

lemma round_even_mono: "x \<le> y \<Longrightarrow> round_even x \<le> round_even y"
proof -
  assume xy: "x \<le> y"
  show ?thesis
  proof (cases "\<lfloor>x\<rfloor> = \<lfloor>y\<rfloor>")
    case True
    with xy show ?thesis by (auto simp: round_even_def Let_def)
  next
    case False
    with xy have "\<lfloor>x\<rfloor> + 1 \<le> \<lfloor>y\<rfloor>" using floor_mono [of x y] by linarith
    with round_even_bounds [of x] round_even_bounds [of y] show ?thesis by linarith
  qed
qed

lemma round_even_le_int: "x \<le> of_int n \<Longrightarrow> round_even x \<le> n"
  using round_even_mono [of x "of_int n"] by simp

lemma round_even_ge_int: "of_int n \<le> x \<Longrightarrow> n \<le> round_even x"
  using round_even_mono [of "of_int n" x] by simp

section \<open>The exponent and the unit in the last place\<close>

text \<open>\<open>expo x\<close> is the \<open>e\<close> with \<open>2^e \<le> x < 2^(e+1)\<close>, for positive \<open>x\<close>.\<close>

definition expo :: "rat \<Rightarrow> int" where
  "expo x = (if 1 \<le> x then int (bits (nat \<lfloor>x\<rfloor>)) - 1
             else - int (bits (nat (\<lceil>1 / x\<rceil> - 1))))"

lemma nat_pred:
  "1 < c \<Longrightarrow> c = int (Suc (nat (c - 1)))" "1 < c \<Longrightarrow> nat (c - 1) \<noteq> 0"
  "1 < c \<Longrightarrow> c - 1 = int (nat (c - 1))"
  by simp_all

lemma powi_neg: "(2::rat) powi - int n = 1 / 2 ^ n"
  by (simp add: power_int_minus divide_inverse)

lemma expo_le:
  assumes "0 < x" shows "2 powi expo x \<le> x"
proof (cases "1 \<le> x")
  case True
  let ?n = "nat \<lfloor>x\<rfloor>"
  have n: "?n \<noteq> 0" using True by (simp add: le_floor_iff)
  have b: "bits ?n \<noteq> 0" using n by (simp add: bits.simps [of ?n])
  have "(2::rat) powi expo x = 2 ^ (bits ?n - 1)"
    using True b by (simp add: expo_def power_int_def nat_diff_distrib)
  also have "\<dots> = of_nat (2 ^ (bits ?n - 1))" by simp
  also have "\<dots> \<le> of_nat ?n" using bits_le [OF n] by (simp only: of_nat_le_iff)
  also have "\<dots> \<le> x" using True by (simp add: of_nat_nat)
  finally show ?thesis .
next
  case False
  let ?m = "nat (\<lceil>1 / x\<rceil> - 1)"
  have inv: "1 < 1 / x" using assms False by simp
  then have c: "1 < \<lceil>1 / x\<rceil>" by (simp add: less_ceiling_iff)
  then have "(of_int \<lceil>1 / x\<rceil> :: rat) = of_int (int (Suc ?m))" by (rule arg_cong [OF nat_pred(1)])
  then have m: "of_int \<lceil>1 / x\<rceil> = (of_nat (Suc ?m) :: rat)" by (simp only: of_int_of_nat_eq)
  have "1 / x \<le> of_int \<lceil>1 / x\<rceil>" by (rule le_of_int_ceiling)
  also note m
  also have "of_nat (Suc ?m) \<le> (of_nat (2 ^ bits ?m) :: rat)"
    using less_bits [of ?m] by (simp only: of_nat_le_iff Suc_le_eq)
  finally have "1 / x \<le> 2 ^ bits ?m" by simp
  then have "1 / 2 ^ bits ?m \<le> x" using assms by (simp add: field_simps)
  moreover have "expo x = - int (bits ?m)" using False by (simp add: expo_def)
  ultimately show ?thesis by (simp only: powi_neg)
qed

lemma expo_gt:
  assumes "0 < x" shows "x < 2 powi (expo x + 1)"
proof (cases "1 \<le> x")
  case True
  let ?n = "nat \<lfloor>x\<rfloor>"
  have "x < of_int \<lfloor>x\<rfloor> + 1" by linarith
  also have "\<dots> = of_nat (Suc ?n)" using True by (simp add: of_nat_nat)
  also have "\<dots> \<le> of_nat (2 ^ bits ?n)" using less_bits [of ?n] by (simp only: of_nat_le_iff Suc_le_eq)
  finally show ?thesis using True by (simp add: expo_def)
next
  case False
  let ?m = "nat (\<lceil>1 / x\<rceil> - 1)"
  have inv: "1 < 1 / x" using assms False by simp
  then have c: "1 < \<lceil>1 / x\<rceil>" by (simp add: less_ceiling_iff)
  then have m: "?m \<noteq> 0" by (rule nat_pred)
  have "(of_int (\<lceil>1 / x\<rceil> - 1) :: rat) = of_int (int ?m)" by (rule arg_cong [OF nat_pred(3) [OF c]])
  then have m': "of_nat ?m = (of_int (\<lceil>1 / x\<rceil> - 1) :: rat)" by (simp only: of_int_of_nat_eq)
  have b: "bits ?m \<noteq> 0" using m by (simp add: bits.simps [of ?m])
  have "(of_nat (2 ^ (bits ?m - 1)) :: rat) \<le> of_nat ?m"
    using bits_le [OF m] by (simp only: of_nat_le_iff)
  also note m'
  also have "(of_int (\<lceil>1 / x\<rceil> - 1) :: rat) = of_int \<lceil>1 / x\<rceil> - 1" by simp
  also have "\<dots> < 1 / x" using ceiling_correct [of "1 / x"] by linarith
  finally have "x < 1 / 2 ^ (bits ?m - 1)" using assms by (simp add: field_simps)
  moreover have "expo x + 1 = - int (bits ?m - 1)" using False b by (simp add: expo_def of_nat_diff)
  ultimately show ?thesis by (simp only: powi_neg)
qed

lemma expo_ge: "0 < x \<Longrightarrow> 2 powi e \<le> x \<Longrightarrow> e \<le> expo x"
proof (rule ccontr)
  assume a: "0 < x" "2 powi e \<le> x" "\<not> e \<le> expo x"
  then have "(2::rat) powi (expo x + 1) \<le> 2 powi e" by (intro power_int_increasing) auto
  with a expo_gt [of x] show False by linarith
qed

lemma expo_less: "0 < x \<Longrightarrow> x < 2 powi e \<Longrightarrow> expo x < e"
proof (rule ccontr)
  assume a: "0 < x" "x < 2 powi e" "\<not> expo x < e"
  then have "(2::rat) powi e \<le> 2 powi expo x" by (intro power_int_increasing) auto
  with a expo_le [of x] show False by linarith
qed

lemma expo_eqI: "0 < x \<Longrightarrow> 2 powi e \<le> x \<Longrightarrow> x < 2 powi (e + 1) \<Longrightarrow> expo x = e"
  using expo_ge [of x e] expo_less [of x "e + 1"] by simp

lemma expo_mono: "0 < x \<Longrightarrow> x \<le> y \<Longrightarrow> expo x \<le> expo y"
  using expo_ge [of y "expo x"] expo_le [of x] by simp

definition ulp :: "rat \<Rightarrow> rat" where
  "ulp x = 2 powi (max (expo \<bar>x\<bar> - 52) (-1074))"

lemma ulp_pos [simp]: "0 < ulp x"
  by (simp add: ulp_def)

section \<open>Rounding to a double\<close>

definition double :: "rat \<Rightarrow> rat" where
  "double x = (if x = 0 then 0 else of_int (round_even (x / ulp x)) * ulp x)"

lemma double_0 [simp]: "double 0 = 0"
  by (simp add: double_def)

lemma double_nonneg: "0 \<le> x \<Longrightarrow> 0 \<le> double x"
  using round_even_ge_int [of 0 "x / ulp x"] by (auto simp: double_def less_imp_le)

lemma double_nonpos: "x \<le> 0 \<Longrightarrow> double x \<le> 0"
  using round_even_le_int [of "x / ulp x" 0]
  by (auto simp: double_def less_imp_le divide_nonpos_pos mult_nonpos_nonneg)

lemma double_le_grid:
  assumes "x \<le> of_int m * ulp x" and "x \<noteq> 0" shows "double x \<le> of_int m * ulp x"
proof -
  have "x / ulp x \<le> of_int m" using assms(1) by (simp add: pos_divide_le_eq)
  then have "round_even (x / ulp x) \<le> m" by (rule round_even_le_int)
  then show ?thesis using assms(2) by (simp add: double_def)
qed

lemma double_ge_grid:
  assumes "of_int m * ulp x \<le> x" and "x \<noteq> 0" shows "of_int m * ulp x \<le> double x"
proof -
  have "of_int m \<le> x / ulp x" using assms(1) by (simp add: pos_le_divide_eq)
  then have "m \<le> round_even (x / ulp x)" by (rule round_even_ge_int)
  then show ?thesis using assms(2) by (simp add: double_def)
qed

lemma powi_grid: "k \<le> j \<Longrightarrow> (2::rat) powi j = of_int (2 ^ nat (j - k)) * 2 powi k"
proof -
  assume "k \<le> j"
  then have "(2::rat) powi j = 2 powi (j - k) * 2 powi k" by (simp flip: power_int_add)
  also have "(2::rat) powi (j - k) = of_int (2 ^ nat (j - k))"
    using \<open>k \<le> j\<close> by (simp add: power_int_def)
  finally show ?thesis .
qed

lemma double_mono_pos:
  assumes "0 < x" and "x \<le> y" shows "double x \<le> double y"
proof (cases "ulp x = ulp y")
  case True
  then have "x / ulp x \<le> y / ulp y" using assms by (simp add: divide_right_mono less_imp_le)
  then have "round_even (x / ulp x) \<le> round_even (y / ulp y)" by (rule round_even_mono)
  then show ?thesis using True assms by (simp add: double_def)
next
  case False
  define j where "j = max (expo x - 52) (-1074)"
  have e: "expo x \<le> expo y" using assms by (rule expo_mono)
  have ne: "max (expo x - 52) (-1074) \<noteq> max (expo y - 52) (-1074)"
    using False assms by (auto simp: ulp_def)
  then have j: "j < expo y - 52" "expo x < expo y" using e by (auto simp: j_def)
  then have "max (expo y - 52) (-1074) = expo y - 52" using ne e by (auto simp: j_def)
  then have u: "ulp y = 2 powi (expo y - 52)" using assms by (simp add: ulp_def)
  have "x < 2 powi (expo x + 1)" using assms by (intro expo_gt)
  also have "\<dots> \<le> (2::rat) powi expo y" using j by (intro power_int_increasing) auto
  finally have "x \<le> 2 powi expo y" by simp
  then have "double x \<le> 2 powi expo y"
    using double_le_grid [of x "2 ^ nat (expo y - j)"] assms j powi_grid [of j "expo y"]
    by (simp add: ulp_def j_def)
  moreover have "2 powi expo y \<le> double y"
    using double_ge_grid [of "2 ^ nat 52" y] assms j u expo_le [of y]
      powi_grid [of "expo y - 52" "expo y"] by simp
  ultimately show ?thesis by simp
qed

lemma round_even_minus: "round_even (- x) = - round_even x"
proof (cases "x = of_int \<lfloor>x\<rfloor>")
  case True
  then show ?thesis by (metis of_int_minus round_even_of_int)
next
  case False
  then have "\<lfloor>- x\<rfloor> = - \<lfloor>x\<rfloor> - 1"
    by (simp add: floor_minus ceiling_altdef)
  then show ?thesis
    by (auto simp: round_even_def Let_def)
qed

lemma double_minus: "double (- x) = - double x"
  by (simp add: double_def ulp_def round_even_minus)

lemma double_mono: "x \<le> y \<Longrightarrow> double x \<le> double y"
proof -
  assume xy: "x \<le> y"
  consider "0 < x" | "x \<le> 0" "0 \<le> y" | "y < 0" by linarith
  then show ?thesis
  proof cases
    case 1 then show ?thesis using xy by (rule double_mono_pos)
  next
    case 2 then show ?thesis using double_nonpos double_nonneg by (meson order_trans)
  next
    case 3
    then have "double (- y) \<le> double (- x)" using xy by (intro double_mono_pos) auto
    then show ?thesis by (simp add: double_minus)
  qed
qed

text \<open>Integers of at most 53 bits are doubles.\<close>

lemma double_of_int:
  assumes "\<bar>n\<bar> \<le> 2 ^ 53" shows "double (of_int n) = of_int n"
proof (cases "n = 0")
  case False
  then have pos: "0 < \<bar>of_int n :: rat\<bar>" by simp
  define k where "k = max (expo \<bar>of_int n\<bar> - 52) (-1074)"
  show ?thesis
  proof (cases "\<bar>n\<bar> = 2 ^ 53")
    case True
    have e: "expo (2 ^ 53) = 53" by (rule expo_eqI) simp_all
    have u: "ulp (2 ^ 53) = 2" unfolding ulp_def by (simp only: abs_power2 power_abs abs_numeral e) simp
    have d: "double (2 ^ 53) = 2 ^ 53"
    proof -
      have "(2 ^ 53 :: rat) / 2 = of_int (2 ^ 52)" by simp
      then show ?thesis unfolding double_def u by (simp only: round_even_of_int) simp
    qed
    have "n = 2 ^ 53 \<or> n = - (2 ^ 53)" using True by linarith
    then show ?thesis using d double_minus [of "2 ^ 53"] by (auto simp del: power_numeral)
  next
    case lt: False
    have "\<bar>n\<bar> < 2 ^ 53" using assms lt by simp
    then have "(of_int \<bar>n\<bar> :: rat) < of_int (2 ^ 53)" by (simp only: of_int_less_iff)
    then have "\<bar>of_int n :: rat\<bar> < 2 powi 53" by simp
    then have "expo \<bar>of_int n\<bar> < 53" by (rule expo_less [OF pos])
    then have k: "k \<le> 0" by (simp add: k_def)
    have "(of_int n :: rat) / ulp (of_int n) = of_int (n * 2 ^ nat (- k))"
      using powi_grid [of k 0] k by (simp add: ulp_def k_def field_simps)
    then have "double (of_int n) = of_int (n * 2 ^ nat (- k)) * ulp (of_int n)"
      using False by (simp only: double_def round_even_of_int) simp
    also have "\<dots> = of_int n"
      using powi_grid [of k 0] k by (simp add: ulp_def k_def)
    finally show ?thesis .
  qed
qed simp

section \<open>The operations\<close>

definition to_double :: "rat \<Rightarrow> rat res" where
  "to_double x = (let d = double x in if \<bar>d\<bar> < 2 ^ 1024 then Inr d else Inl OverflowError)"

definition float_of_int :: "int \<Rightarrow> rat res" where
  "float_of_int n = to_double (of_int n)"

definition float_mul :: "rat \<Rightarrow> rat \<Rightarrow> rat res" where
  "float_mul a b = to_double (a * b)"

definition float_sub :: "rat \<Rightarrow> rat \<Rightarrow> rat res" where
  "float_sub a b = to_double (a - b)"

definition float_div :: "rat \<Rightarrow> rat \<Rightarrow> rat res" where
  "float_div a b = (if b = 0 then Inl ZeroDivisionError else to_double (a / b))"

text \<open>\<open>a / b\<close> of two ints is correctly rounded, not the quotient of two rounded operands.\<close>

definition int_truediv :: "int \<Rightarrow> int \<Rightarrow> rat res" where
  "int_truediv a b = (if b = 0 then Inl ZeroDivisionError else to_double (of_int a / of_int b))"

definition int_of_float :: "rat \<Rightarrow> int" where
  "int_of_float x = (if x < 0 then \<lceil>x\<rceil> else \<lfloor>x\<rfloor>)"

lemma to_double_mono:
  "to_double x = Inr d \<Longrightarrow> to_double y = Inr e \<Longrightarrow> x \<le> y \<Longrightarrow> d \<le> e"
  by (auto simp: to_double_def Let_def double_mono split: if_splits)

lemma to_double_eq: "to_double x = Inr d \<Longrightarrow> d = double x"
  by (auto simp: to_double_def Let_def split: if_splits)

lemma to_double_small:
  assumes "\<bar>x\<bar> \<le> 2 ^ 53" shows "to_double x = Inr (double x)"
proof -
  have top: "double (2 ^ 53) = 2 ^ 53" using double_of_int [of "2 ^ 53"] by simp
  have "double x \<le> double (2 ^ 53)" "double (- (2 ^ 53)) \<le> double x"
    using assms by (auto intro!: double_mono simp del: power_numeral)
  then have "\<bar>double x\<bar> \<le> of_int (2 ^ 53)" unfolding double_minus top by (simp add: abs_le_iff)
  also have "(of_int (2 ^ 53) :: rat) < of_int (2 ^ 1024)" by (simp only: of_int_less_iff) simp
  finally show ?thesis by (simp add: to_double_def)
qed

lemma to_double_of_int:
  assumes "\<bar>n\<bar> \<le> 2 ^ 53" shows "to_double (of_int n) = Inr (of_int n)"
proof -
  have "\<bar>n\<bar> < 2 ^ 1024" using assms by (rule order.strict_trans1) simp
  then have "(of_int \<bar>n\<bar> :: rat) < of_int (2 ^ 1024)" by (simp only: of_int_less_iff)
  then show ?thesis using double_of_int [OF assms] by (simp add: to_double_def)
qed

lemma float_of_int_small: "\<bar>n\<bar> \<le> 2 ^ 53 \<Longrightarrow> float_of_int n = Inr (of_int n)"
  unfolding float_of_int_def by (rule to_double_of_int)

lemma float_of_int_mono:
  "float_of_int m = Inr a \<Longrightarrow> float_of_int n = Inr b \<Longrightarrow> m \<le> n \<Longrightarrow> a \<le> b"
  unfolding float_of_int_def by (erule (1) to_double_mono) simp

lemma float_of_int_nonneg: "float_of_int m = Inr a \<Longrightarrow> 0 \<le> m \<Longrightarrow> 0 \<le> a"
  unfolding float_of_int_def by (auto dest!: to_double_eq intro: double_nonneg)

lemma int_of_float_of_int [simp]: "int_of_float (of_int n) = n"
  by (simp add: int_of_float_def)

lemma int_of_float_mono: "x \<le> y \<Longrightarrow> int_of_float x \<le> int_of_float y"
proof -
  assume xy: "x \<le> y"
  consider "0 \<le> x" | "x < 0" "0 \<le> y" | "x < 0" "y < 0" by linarith
  then show ?thesis
  proof cases
    case 2
    then have "\<lceil>x\<rceil> \<le> 0" "0 \<le> \<lfloor>y\<rfloor>" by (simp_all add: le_floor_iff ceiling_le_iff)
    then have "\<lceil>x\<rceil> \<le> \<lfloor>y\<rfloor>" by (rule order_trans)
    with 2 show ?thesis by (simp add: int_of_float_def)
  qed (use xy in \<open>auto simp: int_of_float_def intro: floor_mono ceiling_mono\<close>)
qed

section \<open>The rounding error\<close>

lemma round_even_error: "\<bar>of_int (round_even x) - x\<bar> \<le> 1 / 2"
  using floor_correct [of x] by (auto simp: round_even_def Let_def abs_le_iff)

lemma round_even_near: "\<bar>x - of_int n\<bar> < 1 / 2 \<Longrightarrow> round_even x = n"
proof -
  assume a: "\<bar>x - of_int n\<bar> < 1 / 2"
  have "\<bar>of_int (round_even x) - of_int n :: rat\<bar> < 1"
    using a round_even_error [of x] by linarith
  then have "\<bar>round_even x - n\<bar> < 1"
    by (simp flip: of_int_diff of_int_abs)
  then show ?thesis by simp
qed

text \<open>The smallest normal double.\<close>

definition tiny :: rat where
  "tiny = 2 powi (-1022)"

lemma tiny_pos: "0 < tiny"
  unfolding tiny_def by (rule zero_less_power_int) simp

lemma tiny_le: "tiny \<le> 1 / 2 ^ 53"
proof -
  have "tiny \<le> 2 powi (- int 53)" unfolding tiny_def by (rule power_int_increasing) simp_all
  then show ?thesis by (simp only: powi_neg)
qed

lemma ulp_le:
  assumes "tiny \<le> \<bar>x\<bar>" shows "ulp x \<le> \<bar>x\<bar> / 2 ^ 52"
proof -
  have pos: "0 < \<bar>x\<bar>" using tiny_pos assms by (rule order.strict_trans2)
  then have "-1022 \<le> expo \<bar>x\<bar>" using assms unfolding tiny_def by (rule expo_ge)
  then have "max (expo \<bar>x\<bar> - 52) (-1074) = expo \<bar>x\<bar> + (- int 52)" by simp
  then have "ulp x = 2 powi (expo \<bar>x\<bar> + (- int 52))" unfolding ulp_def by (rule arg_cong)
  also have "\<dots> = 2 powi expo \<bar>x\<bar> * 2 powi (- int 52)" by (rule power_int_add) simp
  also have "\<dots> = 2 powi expo \<bar>x\<bar> / 2 ^ 52" unfolding powi_neg by simp
  also have "\<dots> \<le> \<bar>x\<bar> / 2 ^ 52" using expo_le [OF pos] by (rule divide_right_mono) simp
  finally show ?thesis .
qed

lemma double_error:
  assumes "tiny \<le> \<bar>x\<bar>" shows "\<bar>double x - x\<bar> \<le> \<bar>x\<bar> / 2 ^ 53"
proof -
  have ne: "x \<noteq> 0" using assms tiny_pos by auto
  have u: "ulp x \<noteq> 0" "0 \<le> ulp x"
    by (simp_all add: less_imp_le order_less_imp_not_eq2 [OF ulp_pos])
  have "double x - x = (of_int (round_even (x / ulp x)) - x / ulp x) * ulp x"
    using ne u by (simp add: double_def left_diff_distrib)
  then have "\<bar>double x - x\<bar> = \<bar>of_int (round_even (x / ulp x)) - x / ulp x\<bar> * ulp x"
    using u by (simp add: abs_mult)
  also have "\<dots> \<le> 1 / 2 * ulp x" using u
    by (intro mult_right_mono round_even_error)
  also have "\<dots> \<le> \<bar>x\<bar> / 2 ^ 53" using ulp_le [OF assms] by simp
  finally show ?thesis .
qed

end
