(* ===== verification/Messages.thy ===== *)
theory Messages
  imports Prelude "HOL-Library.Word"
begin

text \<open>
  \<open>messages.py\<close>: the messages of the protocol, one constructor per class with the fields in the
  order of the class, the command ids and type names, the hash a message is signed under, and
  signing and sender recovery. The hash function, the RLP encoder and the signature scheme are
  packages outside the repository: they are the fields of a record that the definitions take as
  an argument.
\<close>

type_synonym bytes = "8 word list"

datatype message =
    SwapOffer (m_ask_token: bytes) (m_ask_amount: int) (m_bid_token: bytes) (m_bid_amount: int)
      (m_offer_id: int) (m_timeout: int)
  | Commitment (m_offer_id: int) (m_offer_hash: bytes) (m_timeout: int) (m_amount: int)
      (m_signature: "bytes option")
  | OfferTaken (m_offer_id: int) (m_signature: "bytes option")
  | CommitmentProof (m_commitment_sig: "bytes option") (m_secret: bytes) (m_secret_hash: bytes)
      (m_offer_id: int) (m_signature: "bytes option")
  | Cancellation (m_offer_id: int) (m_signature: "bytes option")
  | CancellationProof (m_offer_id: int) (m_cancellation_proof: "message option")
      (m_signature: "bytes option")
  | ProvenOffer (m_offer: message) (m_commitment_proof: "message option")
      (m_signature: "bytes option")
  | ProvenCommitment (m_commitment: message) (m_commitment_proof: "message option")
      (m_signature: "bytes option")
  | CommitmentServiceAdvertisement (m_address: bytes) (m_commitment_asset: bytes)
      (m_fee_rate: int) (m_signature: "bytes option")
  | SwapExecution (m_offer_id: int) (m_timestamp: int) (m_signature: "bytes option")
  | SwapCompleted (m_offer_id: int) (m_timestamp: int) (m_signature: "bytes option")

datatype msg_class =
    RLPHashable | Signed
  | C_SwapOffer | C_Commitment | C_OfferTaken | C_CommitmentProof | C_Cancellation
  | C_CancellationProof | C_ProvenOffer | C_ProvenCommitment | C_CommitmentServiceAdvertisement
  | C_SwapExecution | C_SwapCompleted

fun class_of :: "message \<Rightarrow> msg_class" where
  "class_of (SwapOffer _ _ _ _ _ _) = C_SwapOffer"
| "class_of (Commitment _ _ _ _ _) = C_Commitment"
| "class_of (OfferTaken _ _) = C_OfferTaken"
| "class_of (CommitmentProof _ _ _ _ _) = C_CommitmentProof"
| "class_of (Cancellation _ _) = C_Cancellation"
| "class_of (CancellationProof _ _ _) = C_CancellationProof"
| "class_of (ProvenOffer _ _ _) = C_ProvenOffer"
| "class_of (ProvenCommitment _ _ _) = C_ProvenCommitment"
| "class_of (CommitmentServiceAdvertisement _ _ _ _) = C_CommitmentServiceAdvertisement"
| "class_of (SwapExecution _ _ _) = C_SwapExecution"
| "class_of (SwapCompleted _ _ _) = C_SwapCompleted"

text \<open>The base class: \<open>SwapCompleted\<close> derives from \<open>SwapExecution\<close>, \<open>SwapOffer\<close> is not signed.\<close>

fun base_class :: "msg_class \<Rightarrow> msg_class option" where
  "base_class RLPHashable = None"
| "base_class Signed = Some RLPHashable"
| "base_class C_SwapOffer = Some RLPHashable"
| "base_class C_SwapCompleted = Some C_SwapExecution"
| "base_class _ = Some Signed"

fun bases :: "msg_class \<Rightarrow> msg_class list" where
  "bases RLPHashable = [RLPHashable]"
| "bases Signed = [Signed, RLPHashable]"
| "bases C_SwapOffer = [C_SwapOffer, RLPHashable]"
| "bases C_SwapCompleted = [C_SwapCompleted, C_SwapExecution, Signed, RLPHashable]"
| "bases c = [c, Signed, RLPHashable]"

definition is_instance :: "message \<Rightarrow> msg_class \<Rightarrow> bool" where
  "is_instance m c \<longleftrightarrow> c \<in> set (bases (class_of m))"

section \<open>Type names and command ids\<close>

definition msg_types_map :: "(string, msg_class) dict" where
  "msg_types_map =
    [(''offer'', C_SwapOffer), (''proven_offer'', C_ProvenOffer),
     (''proven_commitment'', C_ProvenCommitment), (''commitment'', C_Commitment),
     (''commitment_proof'', C_CommitmentProof),
     (''commitment_service'', C_CommitmentServiceAdvertisement),
     (''swap_executed'', C_SwapExecution), (''swap_completed'', C_SwapCompleted),
     (''offer_taken'', C_OfferTaken), (''cancellation'', C_Cancellation),
     (''cancellation_proof'', C_CancellationProof)]"

definition types_msg_map :: "(msg_class, string) dict" where
  "types_msg_map = fold (\<lambda>(key, value) d. dict_set value key d) msg_types_map []"

definition msg_cmdid_map :: "(string, int) dict" where
  "msg_cmdid_map =
    [(''offer'', 1), (''proven_offer'', 2), (''proven_commitment'', 3), (''commitment'', 4),
     (''commitment_proof'', 5), (''commitment_service'', 6), (''swap_executed'', 7),
     (''swap_completed'', 8), (''offer_taken'', 9), (''cancellation'', 10),
     (''cancellation_proof'', 11)]"

definition get_cmdid_for_class :: "msg_class \<Rightarrow> int res" where
  "get_cmdid_for_class klass =
     bind_res (dict_item klass types_msg_map) (\<lambda>msg. dict_item msg msg_cmdid_map)"

section \<open>Fields\<close>

datatype sedes = Sig65 | Address20 | Int32 | Int256 | Hash32 | Nested msg_class

datatype field_value = FInt int | FBytes "bytes option" | FMsg "message option"

definition rlphashable_fields :: "(string \<times> sedes) list" where
  "rlphashable_fields = [(''cmdid'', Int32)]"

definition signed_fields :: "(string \<times> sedes) list" where
  "signed_fields = [(''signature'', Sig65)] @ rlphashable_fields"

text \<open>\<open>SwapCompleted\<close> inherits the fields of \<open>SwapExecution\<close>.\<close>

definition swap_execution_fields :: "(string \<times> sedes) list" where
  "swap_execution_fields = [(''offer_id'', Int256), (''timestamp'', Int256)] @ signed_fields"

fun class_fields :: "msg_class \<Rightarrow> (string \<times> sedes) list" where
  "class_fields RLPHashable = rlphashable_fields"
| "class_fields Signed = signed_fields"
| "class_fields C_SwapOffer =
    [(''ask_token'', Address20), (''ask_amount'', Int256), (''bid_token'', Address20),
     (''bid_amount'', Int256), (''offer_id'', Int32), (''timeout'', Int256)] @ rlphashable_fields"
| "class_fields C_Commitment =
    [(''offer_id'', Int32), (''offer_hash'', Hash32), (''timeout'', Int256), (''amount'', Int256)]
    @ signed_fields"
| "class_fields C_OfferTaken = [(''offer_id'', Int32)] @ signed_fields"
| "class_fields C_CommitmentProof =
    [(''commitment_sig'', Sig65), (''secret'', Hash32), (''secret_hash'', Hash32),
     (''offer_id'', Int32)] @ signed_fields"
| "class_fields C_Cancellation = [(''offer_id'', Int32)] @ signed_fields"
| "class_fields C_CancellationProof =
    [(''offer_id'', Int32), (''cancellation_proof'', Nested C_CommitmentProof)] @ signed_fields"
| "class_fields C_ProvenOffer =
    [(''offer'', Nested C_SwapOffer), (''commitment_proof'', Nested C_CommitmentProof)]
    @ signed_fields"
| "class_fields C_ProvenCommitment =
    [(''commitment'', Nested C_Commitment), (''commitment_proof'', Nested C_CommitmentProof)]
    @ signed_fields"
| "class_fields C_CommitmentServiceAdvertisement =
    [(''address'', Address20), (''commitment_asset'', Address20), (''fee_rate'', Int32)]
    @ signed_fields"
| "class_fields C_SwapExecution = swap_execution_fields"
| "class_fields C_SwapCompleted = swap_execution_fields"

text \<open>The command id the constructor of every class sets.\<close>

definition cmdid :: "message \<Rightarrow> field_value" where
  "cmdid m = (case get_cmdid_for_class (class_of m) of Inr n \<Rightarrow> FInt n | Inl _ \<Rightarrow> FInt 0)"

fun own_values :: "message \<Rightarrow> field_value list" where
  "own_values (SwapOffer at aa bt ba i t) =
     [FBytes (Some at), FInt aa, FBytes (Some bt), FInt ba, FInt i, FInt t]"
| "own_values (Commitment i h t a _) = [FInt i, FBytes (Some h), FInt t, FInt a]"
| "own_values (OfferTaken i _) = [FInt i]"
| "own_values (CommitmentProof cs s sh i _) =
     [FBytes cs, FBytes (Some s), FBytes (Some sh), FInt i]"
| "own_values (Cancellation i _) = [FInt i]"
| "own_values (CancellationProof i p _) = [FInt i, FMsg p]"
| "own_values (ProvenOffer off p _) = [FMsg (Some off), FMsg p]"
| "own_values (ProvenCommitment c p _) = [FMsg (Some c), FMsg p]"
| "own_values (CommitmentServiceAdvertisement a ca f _) =
     [FBytes (Some a), FBytes (Some ca), FInt f]"
| "own_values (SwapExecution i t _) = [FInt i, FInt t]"
| "own_values (SwapCompleted i t _) = [FInt i, FInt t]"

definition field_values :: "message \<Rightarrow> field_value list" where
  "field_values m =
     (if is_instance m Signed then own_values m @ [FBytes (m_signature m), cmdid m]
      else own_values m @ [cmdid m])"

text \<open>What the encoder is given: the fields of the class, without the excluded ones.\<close>

definition serial :: "string list \<Rightarrow> message \<Rightarrow> (sedes \<times> field_value) list" where
  "serial excluded m =
     map (\<lambda>((n, s), v). (s, v))
       (filter (\<lambda>((n, s), v). n \<notin> set excluded) (zip (class_fields (class_of m)) (field_values m)))"

section \<open>Hash, signature, sender\<close>

record crypto =
  keccak :: "bytes \<Rightarrow> bytes"
  rlp_encode :: "(sedes \<times> field_value) list \<Rightarrow> bytes res"
  sign_msg :: "bytes \<Rightarrow> bytes \<Rightarrow> bytes"
  recover_address :: "bytes \<Rightarrow> bytes \<Rightarrow> bytes res"

definition hash_without_signature :: "crypto \<Rightarrow> message \<Rightarrow> bytes res" where
  "hash_without_signature C m =
     bind_res (rlp_encode C (serial [''signature''] m)) (\<lambda>r. Inr (keccak C r))"

definition rlp_hash :: "crypto \<Rightarrow> message \<Rightarrow> bytes res" where
  "rlp_hash C m = bind_res (rlp_encode C (serial [] m)) (\<lambda>r. Inr (keccak C r))"

definition msg_hash :: "crypto \<Rightarrow> message \<Rightarrow> bytes res" where
  "msg_hash C m =
     (if is_instance m Signed \<and> m_signature m = None then hash_without_signature C m
      else rlp_hash C m)"

definition has_sig :: "message \<Rightarrow> bool" where
  "has_sig m = (case m_signature m of None \<Rightarrow> False | Some s \<Rightarrow> length s \<in> {0, 65})"

definition sender :: "crypto \<Rightarrow> message \<Rightarrow> bytes res" where
  "sender C m =
     (case m_signature m of
        None \<Rightarrow> Inl SignatureMissingError
      | Some s \<Rightarrow>
          if s = [] then Inl SignatureMissingError
          else bind_res (hash_without_signature C m) (\<lambda>h. recover_address C s h))"

text \<open>
  A message object: signing stores the signature in the object and makes it immutable; signing
  an immutable one fails.
\<close>

record msg_obj =
  content :: message
  is_mutable :: bool

fun with_signature :: "message \<Rightarrow> bytes option \<Rightarrow> message" where
  "with_signature (SwapOffer at aa bt ba i t) s = SwapOffer at aa bt ba i t"
| "with_signature (Commitment i h t a _) s = Commitment i h t a s"
| "with_signature (OfferTaken i _) s = OfferTaken i s"
| "with_signature (CommitmentProof cs se sh i _) s = CommitmentProof cs se sh i s"
| "with_signature (Cancellation i _) s = Cancellation i s"
| "with_signature (CancellationProof i p _) s = CancellationProof i p s"
| "with_signature (ProvenOffer off p _) s = ProvenOffer off p s"
| "with_signature (ProvenCommitment c p _) s = ProvenCommitment c p s"
| "with_signature (CommitmentServiceAdvertisement a ca f _) s =
     CommitmentServiceAdvertisement a ca f s"
| "with_signature (SwapExecution i t _) s = SwapExecution i t s"
| "with_signature (SwapCompleted i t _) s = SwapCompleted i t s"

definition sign :: "crypto \<Rightarrow> bytes \<Rightarrow> msg_obj \<Rightarrow> msg_obj res" where
  "sign C privkey ob =
     (if \<not> is_mutable ob then Inl AssertionError
      else if length privkey \<noteq> 32 then Inl AssertionError
      else if \<not> is_instance (content ob) Signed then Inl AttributeError
      else bind_res (hash_without_signature C (content ob)) (\<lambda>h.
        Inr \<lparr>content = with_signature (content ob) (Some (sign_msg C privkey h)),
             is_mutable = False\<rparr>))"

definition swap_offer_timed_out :: "message \<Rightarrow> int \<Rightarrow> bool" where
  "swap_offer_timed_out m at \<longleftrightarrow> m_timeout m < at"

section \<open>Facts about the classes\<close>

lemma types_msg_map_eval:
  "types_msg_map = map (\<lambda>(k, c). (c, k)) msg_types_map"
  by (simp add: types_msg_map_def msg_types_map_def dict_set_def)

lemma bases_base_class:
  "bases c = c # (case base_class c of None \<Rightarrow> [] | Some b \<Rightarrow> bases b)"
  by (cases c) simp_all

lemma is_instance_Signed: "is_instance m Signed \<longleftrightarrow> class_of m \<noteq> C_SwapOffer"
  by (cases m) (simp_all add: is_instance_def)

lemma is_instance_SwapExecution:
  "is_instance m C_SwapExecution \<longleftrightarrow> class_of m \<in> {C_SwapExecution, C_SwapCompleted}"
  by (cases m) (simp_all add: is_instance_def)

lemma is_instance_leaf:
  "c \<in> {C_Commitment, C_OfferTaken, C_CommitmentProof, C_Cancellation, C_CancellationProof,
        C_ProvenOffer, C_ProvenCommitment, C_SwapCompleted, C_SwapOffer} \<Longrightarrow>
    is_instance m c \<longleftrightarrow> class_of m = c"
  by (cases m) (auto simp: is_instance_def)

lemma class_with_signature [simp]: "class_of (with_signature m s) = class_of m"
  by (cases m) simp_all

lemma own_values_with_signature [simp]: "own_values (with_signature m s) = own_values m"
  by (cases m) simp_all

lemma signature_with_signature: "is_instance m Signed \<Longrightarrow> m_signature (with_signature m s) = s"
  by (cases m) (simp_all add: is_instance_def)

lemma is_instance_with_signature [simp]: "is_instance (with_signature m s) c = is_instance m c"
  by (simp add: is_instance_def)

lemma length_fields: "length (class_fields (class_of m)) = length (field_values m)"
  by (cases m) (simp_all add: field_values_def is_instance_def signed_fields_def rlphashable_fields_def
      swap_execution_fields_def)

text \<open>The hash a message is signed under does not depend on its signature.\<close>

lemma serial_without_signature:
  "serial [''signature''] (with_signature m s) = serial [''signature''] m"
  by (cases m)
     (simp_all add: serial_def field_values_def is_instance_def signed_fields_def
        rlphashable_fields_def swap_execution_fields_def cmdid_def)

lemma hash_with_signature [simp]:
  "hash_without_signature C (with_signature m s) = hash_without_signature C m"
  by (simp add: hash_without_signature_def serial_without_signature)

lemma sign_sender:
  assumes "sign C privkey ob = Inr ob'"
    and "\<And>h. recover_address C (sign_msg C privkey h) h = Inr addr"
    and "\<And>h. sign_msg C privkey h \<noteq> []"
  shows "sender C (content ob') = Inr addr \<and> sign C other ob' = Inl AssertionError"
proof -
  obtain h where h: "hash_without_signature C (content ob) = Inr h"
      "ob' = \<lparr>content = with_signature (content ob) (Some (sign_msg C privkey h)), is_mutable = False\<rparr>"
      "is_instance (content ob) Signed"
    using assms(1) by (auto simp: sign_def bind_res_Inr_iff split: if_splits)
  then have "m_signature (content ob') = Some (sign_msg C privkey h)"
    by (simp add: signature_with_signature)
  then show ?thesis using h assms(2,3) by (simp add: sender_def) (simp add: sign_def)
qed

text \<open>A signature scheme that recovers the holder of the key.\<close>

definition recovers :: "crypto \<Rightarrow> bytes \<Rightarrow> bytes \<Rightarrow> bool" where
  "recovers C key addr \<longleftrightarrow>
     (\<forall>h. recover_address C (sign_msg C key h) h = Inr addr \<and> sign_msg C key h \<noteq> [])"

lemma signed_recovers:
  "sign C privkey ob = Inr ob' \<Longrightarrow> recovers C privkey addr \<Longrightarrow> sender C (content ob') = Inr addr"
  using sign_sender [of C privkey ob ob' addr] by (simp add: recovers_def)

section \<open>Properties\<close>

text \<open>Signing and sender recovery: for a signature scheme that recovers the signer of what it
  signed, the sender of a signed message is the holder of the key, and the object cannot be
  signed a second time.\<close>

theorem signed_sender:
  assumes "sign C privkey ob = Inr ob'"
    and "\<And>h. recover_address C (sign_msg C privkey h) h = Inr addr"
    and "\<And>h. sign_msg C privkey h \<noteq> []"
  shows "sender C (content ob') = Inr addr \<and> sign C other ob' = Inl AssertionError"
  using assms by (rule sign_sender)

definition example_crypto :: crypto where
  "example_crypto = \<lparr>keccak = (\<lambda>b. b), rlp_encode = (\<lambda>x. Inr (map (\<lambda>_. 0) x)),
     sign_msg = (\<lambda>k h. k @ h), recover_address = (\<lambda>s h. Inr (take 32 s))\<rparr>"

theorem signed_sender_witness:
  "\<exists>ob'. sign example_crypto (replicate 32 5) \<lparr>content = OfferTaken 3 None, is_mutable = True\<rparr> = Inr ob' \<and>
         sender example_crypto (content ob') = Inr (replicate 32 5)"
proof -
  define ob where "ob = \<lparr>content = OfferTaken 3 (None :: bytes option), is_mutable = True\<rparr>"
  define ob' where "ob' = \<lparr>content = OfferTaken 3 (Some (replicate 32 5 @ [0, 0])), is_mutable = False\<rparr>"
  have "sign example_crypto (replicate 32 5) ob = Inr ob'"
    by (simp add: ob_def ob'_def sign_def is_instance_def hash_without_signature_def serial_def
        signed_fields_def rlphashable_fields_def field_values_def example_crypto_def)
  then have "sender example_crypto (content ob') = Inr (replicate 32 5)"
    using signed_sender [of example_crypto "replicate 32 5" ob ob' "replicate 32 5" "[]"]
    by (simp add: example_crypto_def)
  with \<open>sign example_crypto (replicate 32 5) ob = Inr ob'\<close> show ?thesis unfolding ob_def by blast
qed

text \<open>Every concrete message class has a type name and a command id of its own, from 1 to 11,
  and the abstract bases have none.\<close>

theorem command_ids:
  "(\<forall>m. \<exists>n \<in> {1..11}. get_cmdid_for_class (class_of m) = Inr n) \<and>
   (\<forall>m m'. get_cmdid_for_class (class_of m) = get_cmdid_for_class (class_of m') \<longrightarrow>
      class_of m = class_of m') \<and>
   get_cmdid_for_class RLPHashable = Inl KeyError \<and> get_cmdid_for_class Signed = Inl KeyError"
proof -
  have ids: "get_cmdid_for_class c =
    (case c of RLPHashable \<Rightarrow> Inl KeyError | Signed \<Rightarrow> Inl KeyError | C_SwapOffer \<Rightarrow> Inr 1
      | C_ProvenOffer \<Rightarrow> Inr 2 | C_ProvenCommitment \<Rightarrow> Inr 3 | C_Commitment \<Rightarrow> Inr 4
      | C_CommitmentProof \<Rightarrow> Inr 5 | C_CommitmentServiceAdvertisement \<Rightarrow> Inr 6
      | C_SwapExecution \<Rightarrow> Inr 7 | C_SwapCompleted \<Rightarrow> Inr 8 | C_OfferTaken \<Rightarrow> Inr 9
      | C_Cancellation \<Rightarrow> Inr 10 | C_CancellationProof \<Rightarrow> Inr 11)" for c
    by (cases c) (simp_all add: get_cmdid_for_class_def types_msg_map_eval msg_types_map_def
        msg_cmdid_map_def dict_item_def dict_get_def)
  have "\<exists>n \<in> {1..11}. get_cmdid_for_class (class_of m) = Inr n" for m
    by (cases m) (simp_all add: ids)
  moreover have "get_cmdid_for_class (class_of m) = get_cmdid_for_class (class_of m') \<longrightarrow>
      class_of m = class_of m'" for m m'
    by (cases m; cases m') (simp_all add: ids)
  ultimately show ?thesis by (simp add: ids)
qed

theorem command_ids_witness:
  "get_cmdid_for_class (class_of (Cancellation 1 None)) \<noteq>
   get_cmdid_for_class (class_of (CancellationProof 1 None None))"
proof
  assume eq: "get_cmdid_for_class (class_of (Cancellation 1 None)) =
    get_cmdid_for_class (class_of (CancellationProof 1 None None))"
  have "\<forall>m m'. get_cmdid_for_class (class_of m) = get_cmdid_for_class (class_of m') \<longrightarrow>
      class_of m = class_of m'"
    using command_ids by (elim conjE)
  then have "class_of (Cancellation 1 None) = class_of (CancellationProof 1 None None)"
    using eq by blast
  then show False by simp
qed

end
