(* ===== verification/Refunds.thy ===== *)
theory Refunds
  imports Py_Float Messages "HOL-Library.Multiset"
begin

text \<open>
  \<open>commitment_service/refund.py\<close>, the receipt of \<open>trader_mock/trader.py\<close>, and the refund task of
  \<open>commitment_service/tasks.py\<close>: the order of refunds in the priority queue, the amount that is
  sent back, and the life of a refund between the queue, the transfer in flight and its outcome.
\<close>

section \<open>Receipts and refunds\<close>

record transfer_receipt =
  tr_initiator :: bytes
  tr_amount :: int
  tr_identifier :: int
  tr_timestamp :: int

record refund =
  rf_receipt :: transfer_receipt
  rf_priority :: int
  rf_claim_fee :: bool

definition refund_eq :: "refund \<Rightarrow> refund \<Rightarrow> bool" where
  "refund_eq a b \<longleftrightarrow> rf_priority a = rf_priority b"

definition refund_ne :: "refund \<Rightarrow> refund \<Rightarrow> bool" where
  "refund_ne a b \<longleftrightarrow> \<not> refund_eq a b"

definition refund_lt :: "refund \<Rightarrow> refund \<Rightarrow> bool" where
  "refund_lt a b \<longleftrightarrow> rf_priority a > rf_priority b"

text \<open>The comparisons that \<open>total_ordering\<close> derives from \<open>__lt__\<close> and \<open>__eq__\<close>.\<close>

definition refund_le :: "refund \<Rightarrow> refund \<Rightarrow> bool" where
  "refund_le a b \<longleftrightarrow> refund_lt a b \<or> refund_eq a b"

definition refund_gt :: "refund \<Rightarrow> refund \<Rightarrow> bool" where
  "refund_gt a b \<longleftrightarrow> \<not> refund_lt a b \<and> refund_ne a b"

lemmas refund_order_defs = refund_eq_def refund_ne_def refund_lt_def refund_le_def refund_gt_def

text \<open>
  The contract of the priority queue (\<open>gevent.queue.PriorityQueue\<close>, a binary heap): \<open>get\<close> removes
  an entry that no other entry precedes. Which one of several equal entries comes first is not
  part of the contract, so \<open>get\<close> is a relation.
\<close>

definition pq_get :: "('a \<Rightarrow> 'a \<Rightarrow> bool) \<Rightarrow> 'a multiset \<Rightarrow> 'a \<Rightarrow> 'a multiset \<Rightarrow> bool" where
  "pq_get lt q x q' \<longleftrightarrow> q = add_mset x q' \<and> (\<forall>y \<in># q. \<not> lt y x)"

locale weak_order =
  fixes lt :: "'a \<Rightarrow> 'a \<Rightarrow> bool"
  assumes irrefl: "\<not> lt x x"
    and trans: "lt x y \<Longrightarrow> lt y z \<Longrightarrow> lt x z"
    and neg_trans: "\<not> lt x y \<Longrightarrow> \<not> lt y z \<Longrightarrow> \<not> lt x z"
begin

lemma asym: "lt x y \<Longrightarrow> \<not> lt y x"
  using irrefl trans by blast

lemma has_minimal: "finite A \<Longrightarrow> A \<noteq> {} \<Longrightarrow> \<exists>x \<in> A. \<forall>y \<in> A. \<not> lt y x"
proof (induction A rule: finite_ne_induct)
  case (singleton x)
  then show ?case by (simp add: irrefl)
next
  case (insert x F)
  then obtain m where m: "m \<in> F" "\<forall>y \<in> F. \<not> lt y m" by blast
  show ?case
  proof (cases "lt x m")
    case True
    then show ?thesis using m by (metis asym insert_iff irrefl neg_trans)
  next
    case False
    then show ?thesis using m by blast
  qed
qed

lemma get_possible: "q \<noteq> {#} \<Longrightarrow> \<exists>x q'. pq_get lt q x q'"
  using has_minimal [of "set_mset q"]
  by (auto simp: pq_get_def dest!: multi_member_split)

lemma get_order:
  "pq_get lt q x q' \<Longrightarrow> pq_get lt q' y q'' \<Longrightarrow> \<not> lt y x"
  by (auto simp: pq_get_def)

end

interpretation refund_order: weak_order refund_lt
  by unfold_locales (auto simp: refund_lt_def)

section \<open>The refunded amount\<close>

text \<open>A number of the program: an int or a double.\<close>

datatype num = PInt int | PFloat rat

fun num_float :: "num \<Rightarrow> rat res" where
  "num_float (PInt n) = float_of_int n"
| "num_float (PFloat x) = Inr x"

fun num_mul :: "num \<Rightarrow> num \<Rightarrow> num res" where
  "num_mul (PInt a) (PInt b) = Inr (PInt (a * b))"
| "num_mul a b =
     bind_res (num_float a) (\<lambda>x. bind_res (num_float b) (\<lambda>y.
     bind_res (float_mul x y) (\<lambda>z. Inr (PFloat z))))"

fun num_sub :: "num \<Rightarrow> num \<Rightarrow> num res" where
  "num_sub (PInt a) (PInt b) = Inr (PInt (a - b))"
| "num_sub a b =
     bind_res (num_float a) (\<lambda>x. bind_res (num_float b) (\<lambda>y.
     bind_res (float_sub x y) (\<lambda>z. Inr (PFloat z))))"

fun num_int :: "num \<Rightarrow> int" where
  "num_int (PInt n) = n"
| "num_int (PFloat x) = int_of_float x"

definition refund_amount :: "num option \<Rightarrow> refund \<Rightarrow> num res" where
  "refund_amount fee_rate r =
     (let amt = PInt (tr_amount (rf_receipt r)) in
      case fee_rate of
        None \<Rightarrow> Inr amt
      | Some f \<Rightarrow>
          if rf_claim_fee r then bind_res (num_mul amt f) (\<lambda>fee. num_sub amt fee) else Inr amt)"

text \<open>The transfer a refund causes: token, recipient, amount, identifier.\<close>

record refund_transfer =
  rt_token :: bytes
  rt_target :: bytes
  rt_amount :: num
  rt_identifier :: int

definition refund_process :: "num option \<Rightarrow> bytes \<Rightarrow> refund \<Rightarrow> refund_transfer res" where
  "refund_process fee_rate token r =
     bind_res (refund_amount fee_rate r) (\<lambda>a.
       Inr \<lparr>rt_token = token, rt_target = tr_initiator (rf_receipt r), rt_amount = a,
            rt_identifier = tr_identifier (rf_receipt r)\<rparr>)"

section \<open>The refund task\<close>

text \<open>
  The state of the task: the queue, the transfers whose result is awaited (one spawned waiter
  each), and what became of the refunds. A transfer that answers with a status other than 200 is
  queued again; one that raises ends its waiter, and the refund is in no queue any more. An
  exception while the amount is computed ends the task itself.
\<close>

record refund_state =
  rq :: "refund multiset"
  in_flight :: "(refund \<times> refund_transfer) multiset"
  refunded :: "(refund \<times> refund_transfer) multiset"
  lost :: "refund multiset"
  task_alive :: bool

definition refund_put :: "refund \<Rightarrow> refund_state \<Rightarrow> refund_state" where
  "refund_put r s = s\<lparr>rq := add_mset r (rq s)\<rparr>"

inductive refund_step ::
  "num option \<Rightarrow> bytes \<Rightarrow> refund_state \<Rightarrow> refund_state \<Rightarrow> bool" for fee token where
  rs_process: "task_alive s \<Longrightarrow> pq_get refund_lt (rq s) r q' \<Longrightarrow>
    refund_process fee token r = Inr t \<Longrightarrow>
    refund_step fee token s (s\<lparr>rq := q', in_flight := add_mset (r, t) (in_flight s)\<rparr>)"
| rs_crash: "task_alive s \<Longrightarrow> pq_get refund_lt (rq s) r q' \<Longrightarrow>
    refund_process fee token r = Inl e \<Longrightarrow>
    refund_step fee token s (s\<lparr>rq := q', lost := add_mset r (lost s), task_alive := False\<rparr>)"
| rs_success: "in_flight s = add_mset (r, t) fl \<Longrightarrow>
    refund_step fee token s (s\<lparr>in_flight := fl, refunded := add_mset (r, t) (refunded s)\<rparr>)"
| rs_failure: "in_flight s = add_mset (r, t) fl \<Longrightarrow>
    refund_step fee token s (refund_put r (s\<lparr>in_flight := fl\<rparr>))"
| rs_unreachable: "in_flight s = add_mset (r, t) fl \<Longrightarrow>
    refund_step fee token s (s\<lparr>in_flight := fl, lost := add_mset r (lost s)\<rparr>)"

inductive_cases refund_step_E: "refund_step fee token s t"

text \<open>Every refund that was ever put in the queue, wherever it is now.\<close>

definition refund_account :: "refund_state \<Rightarrow> refund multiset" where
  "refund_account s =
     rq s + image_mset fst (in_flight s) + image_mset fst (refunded s) + lost s"

definition refund_start :: refund_state where
  "refund_start = \<lparr>rq = {#}, in_flight = {#}, refunded = {#}, lost = {#}, task_alive = True\<rparr>"

definition transfers_ok :: "num option \<Rightarrow> bytes \<Rightarrow> refund_state \<Rightarrow> bool" where
  "transfers_ok fee token s \<longleftrightarrow>
     (\<forall>(r, t) \<in># in_flight s + refunded s. refund_process fee token r = Inr t)"

section \<open>Facts about refunds\<close>

lemma account_put: "refund_account (refund_put r s) = add_mset r (refund_account s)"
  by (simp add: refund_account_def refund_put_def)

lemma account_step: "refund_step fee token s t \<Longrightarrow> refund_account t = refund_account s"
  by (erule refund_step_E) (auto simp: refund_account_def refund_put_def pq_get_def)

lemma transfers_ok_put: "transfers_ok fee token s \<Longrightarrow> transfers_ok fee token (refund_put r s)"
  by (simp add: transfers_ok_def refund_put_def)

lemma transfers_ok_step:
  "refund_step fee token s t \<Longrightarrow> transfers_ok fee token s \<Longrightarrow> transfers_ok fee token t"
  by (erule refund_step_E) (auto simp: transfers_ok_def refund_put_def)

interpretation refund_run: step_system s0 "refund_step fee token"
  "\<lambda>s. refund_account s = refund_account s0 \<and> (transfers_ok fee token s0 \<longrightarrow> transfers_ok fee token s)"
  for fee token s0
  by unfold_locales (auto simp: account_step intro: transfers_ok_step)

text \<open>The task can always go on: with a refund in its queue it takes one.\<close>

lemma refund_progress:
  assumes "task_alive s" and "rq s \<noteq> {#}" shows "\<exists>t. refund_step fee token s t"
proof -
  obtain r q' where g: "pq_get refund_lt (rq s) r q'"
    using refund_order.get_possible [OF assms(2)] by blast
  show ?thesis
    by (cases "refund_process fee token r") (auto intro: rs_process [OF assms(1) g] rs_crash [OF assms(1) g])
qed

lemma refund_amount_plain:
  "fee = None \<or> \<not> rf_claim_fee r \<Longrightarrow> refund_amount fee r = Inr (PInt (tr_amount (rf_receipt r)))"
  by (auto simp: refund_amount_def Let_def split: option.splits)

lemma refund_amount_int_fee:
  "rf_claim_fee r \<Longrightarrow>
    refund_amount (Some (PInt f)) r = Inr (PInt (tr_amount (rf_receipt r) * (1 - f)))"
  by (simp add: refund_amount_def Let_def algebra_simps)

lemma double_of_nat_bound:
  assumes "0 \<le> x" and "x \<le> of_int n" and "\<bar>n\<bar> \<le> 2 ^ 53"
  shows "0 \<le> double x" and "double x \<le> of_int n"
  using assms double_mono [of x "of_int n"] by (simp_all add: double_nonneg double_of_int)

lemma refund_amount_float_fee:
  assumes "rf_claim_fee r" and "0 \<le> f" "f \<le> 1"
    and "0 \<le> tr_amount (rf_receipt r)" "tr_amount (rf_receipt r) \<le> 2 ^ 53"
  shows "\<exists>a. refund_amount (Some (PFloat f)) r = Inr (PFloat a) \<and> 0 \<le> a \<and>
             a \<le> of_int (tr_amount (rf_receipt r))"
proof -
  define n where "n = tr_amount (rf_receipt r)"
  have n: "\<bar>n\<bar> \<le> 2 ^ 53" "0 \<le> n" using assms(4,5) by (simp_all add: n_def)
  define fee where "fee = double (of_int n * f)"
  have prod: "0 \<le> of_int n * f" "of_int n * f \<le> of_int n"
    using assms(2,3) n by (simp_all add: mult_left_le)
  have fee: "0 \<le> fee" "fee \<le> of_int n"
    unfolding fee_def using double_of_nat_bound [OF prod n(1)] by simp_all
  have big: "(of_int n :: rat) \<le> 2 ^ 53" using n by (simp add: abs_le_iff)
  have "\<bar>of_int n * f\<bar> \<le> 2 ^ 53" using prod big by linarith
  then have m: "float_mul (of_int n) f = Inr fee"
    unfolding float_mul_def fee_def by (rule to_double_small)
  have "\<bar>of_int n - fee\<bar> \<le> 2 ^ 53" using fee big by linarith
  then have s: "float_sub (of_int n) fee = Inr (double (of_int n - fee))"
    unfolding float_sub_def by (rule to_double_small)
  have "0 \<le> of_int n - fee" "of_int n - fee \<le> of_int n" using fee by simp_all
  then have b: "0 \<le> double (of_int n - fee)" "double (of_int n - fee) \<le> of_int n"
    using double_of_nat_bound [OF _ _ n(1)] by simp_all
  have "refund_amount (Some (PFloat f)) r = Inr (PFloat (double (of_int n - fee)))"
    using assms(1) m s by (simp add: refund_amount_def Let_def n_def [symmetric] float_of_int_small [OF n(1)])
  with b show ?thesis by (simp add: n_def)
qed

end
