(* ===== verification/Timestamps.thy ===== *)
theory Timestamps
  imports Py_Float
begin

text \<open>
  \<open>utils/timestamp.py\<close>: the clock of the program. A \<open>datetime\<close> is the number of microseconds since
  1970-01-01 (UTC), within the years 1 to 9999 that Python's type covers; a timestamp of the program
  is an integer number of milliseconds. The clock reading \<open>now\<close> is an argument.
\<close>

type_synonym datetime = int

definition datetime_min :: int where "datetime_min = - 62135596800 * 10 ^ 6"
definition datetime_max :: int where "datetime_max = 253402300800 * 10 ^ 6 - 1"

definition mk_datetime :: "int \<Rightarrow> datetime res" where
  "mk_datetime us = (if datetime_min \<le> us \<and> us \<le> datetime_max then Inr us else Inl OverflowError)"

definition total_seconds :: "int \<Rightarrow> rat res" where
  "total_seconds us = int_truediv us (10 ^ 6)"

definition dt_to_ms_timestamp :: "datetime \<Rightarrow> int res" where
  "dt_to_ms_timestamp dt =
     bind_res (total_seconds dt) (\<lambda>s. bind_res (float_mul s 1000) (\<lambda>ms. Inr (round_even ms)))"

definition ms_timestamp_to_dt :: "int \<Rightarrow> datetime res" where
  "ms_timestamp_to_dt ts = mk_datetime (ts * 1000)"

definition to_seconds :: "int \<Rightarrow> rat res" where
  "to_seconds ms = bind_res (float_of_int ms) (\<lambda>x. float_div x 1000)"

definition to_milliseconds :: "int \<Rightarrow> rat res" where
  "to_milliseconds s = bind_res (float_of_int s) (\<lambda>x. float_mul x 1000)"

text \<open>\<open>time_plus\<close> and \<open>time_minus\<close> for a whole number of seconds, as the program calls them.\<close>

definition time_plus :: "datetime \<Rightarrow> int \<Rightarrow> int res" where
  "time_plus now seconds = bind_res (mk_datetime (now + seconds * 10 ^ 6)) dt_to_ms_timestamp"

definition time_minus :: "datetime \<Rightarrow> int \<Rightarrow> int res" where
  "time_minus now seconds = bind_res (mk_datetime (now - seconds * 10 ^ 6)) dt_to_ms_timestamp"

definition time_now :: "datetime \<Rightarrow> int res" where
  "time_now now = dt_to_ms_timestamp now"

definition seconds_to_timeout :: "datetime \<Rightarrow> int \<Rightarrow> rat res" where
  "seconds_to_timeout now ts = bind_res (ms_timestamp_to_dt ts) (\<lambda>dt. total_seconds (dt - now))"

definition timed_out :: "datetime \<Rightarrow> int \<Rightarrow> bool res" where
  "timed_out now ts = bind_res (ms_timestamp_to_dt ts) (\<lambda>dt. Inr (dt < now))"


section \<open>The clock is monotone and exact on whole milliseconds\<close>

lemma int_truediv_mono:
  "int_truediv a c = Inr x \<Longrightarrow> int_truediv b c = Inr y \<Longrightarrow> 0 < c \<Longrightarrow> a \<le> b \<Longrightarrow> x \<le> y"
  by (auto simp: int_truediv_def divide_right_mono elim!: to_double_mono split: if_splits)

lemma float_mul_mono:
  "float_mul a c = Inr x \<Longrightarrow> float_mul b c = Inr y \<Longrightarrow> 0 \<le> c \<Longrightarrow> a \<le> b \<Longrightarrow> x \<le> y"
  by (auto simp: float_mul_def mult_right_mono elim!: to_double_mono)

lemma total_seconds_mono:
  "total_seconds a = Inr x \<Longrightarrow> total_seconds b = Inr y \<Longrightarrow> a \<le> b \<Longrightarrow> x \<le> y"
  unfolding total_seconds_def by (erule (1) int_truediv_mono) simp_all

lemma dt_to_ms_mono_aux:
  assumes "dt_to_ms_timestamp a = Inr m" and "dt_to_ms_timestamp b = Inr n" and "a \<le> b"
  shows "m \<le> n"
proof -
  obtain x y x' y' where
    "total_seconds a = Inr x" "float_mul x 1000 = Inr x'" "m = round_even x'"
    "total_seconds b = Inr y" "float_mul y 1000 = Inr y'" "n = round_even y'"
    using assms(1,2) by (auto simp: dt_to_ms_timestamp_def bind_res_Inr_iff)
  moreover from this assms(3) have "x \<le> y" by (intro total_seconds_mono)
  moreover from calculation have "x' \<le> y'" by (intro float_mul_mono [of x 1000 x' y y']) simp_all
  ultimately show ?thesis by (simp add: round_even_mono)
qed

text \<open>Both roundings of the conversion together move a timestamp by less than half a millisecond.\<close>

lemma ms_error:
  fixes k :: rat
  assumes k: "1 \<le> \<bar>k\<bar>" "\<bar>k\<bar> \<le> 2 ^ 50"
  shows "\<bar>double (double (k / 1000) * 1000) - k\<bar> < 1 / 2"
proof -
  define s where "s = double (k / 1000)"
  have "tiny \<le> \<bar>k / 1000\<bar>" using tiny_le k(1) by simp
  then have e1: "\<bar>s - k / 1000\<bar> \<le> \<bar>k / 1000\<bar> / 2 ^ 53"
    unfolding s_def by (rule double_error)
  have "s * 1000 - k = (s - k / 1000) * 1000" by (simp add: left_diff_distrib)
  then have "\<bar>s * 1000 - k\<bar> = \<bar>(s - k / 1000) * 1000\<bar>" by (rule arg_cong)
  also have "\<dots> = \<bar>s - k / 1000\<bar> * 1000" unfolding abs_mult by simp
  also have "\<dots> \<le> \<bar>k / 1000\<bar> / 2 ^ 53 * 1000"
    using e1 by (rule mult_right_mono) simp
  also have "\<dots> = \<bar>k\<bar> / 2 ^ 53" by simp
  finally have e2: "\<bar>s * 1000 - k\<bar> \<le> \<bar>k\<bar> / 2 ^ 53" .
  have "\<bar>k\<bar> / 2 ^ 53 \<le> \<bar>k\<bar> / 2" using k(1) by (simp add: field_simps)
  with e2 k(1) have big: "1 / 2 \<le> \<bar>s * 1000\<bar>" and small: "\<bar>s * 1000\<bar> \<le> 2 * \<bar>k\<bar>"
    by linarith+
  have "tiny \<le> \<bar>s * 1000\<bar>" using tiny_le big by simp
  then have "\<bar>double (s * 1000) - s * 1000\<bar> \<le> \<bar>s * 1000\<bar> / 2 ^ 53" by (rule double_error)
  also have "\<dots> \<le> 2 * \<bar>k\<bar> / 2 ^ 53" using small by (rule divide_right_mono) simp
  finally have "\<bar>double (s * 1000) - k\<bar> \<le> 3 * (\<bar>k\<bar> / 2 ^ 53)" using e2 by linarith
  also have "\<dots> \<le> 3 * (2 ^ 50 / 2 ^ 53)" using k(2) by (simp add: field_simps)
  also have "\<dots> < 1 / 2" by simp
  finally show ?thesis unfolding s_def .
qed

lemma dt_to_ms_whole:
  assumes "\<bar>k\<bar> \<le> 2 ^ 50" shows "dt_to_ms_timestamp (k * 1000) = Inr k"
proof (cases "k = 0")
  case True
  then show ?thesis
    by (simp add: dt_to_ms_timestamp_def total_seconds_def int_truediv_def float_mul_def
        to_double_def round_even_def)
next
  case False
  define q where "q = (of_int k :: rat)"
  have "(1::int) \<le> \<bar>k\<bar>" using False by simp
  then have "(of_int 1 :: rat) \<le> of_int \<bar>k\<bar>" "(of_int \<bar>k\<bar> :: rat) \<le> of_int (2 ^ 50)"
    using assms by (simp_all only: of_int_le_iff)
  then have q: "1 \<le> \<bar>q\<bar>" "\<bar>q\<bar> \<le> 2 ^ 50" by (simp_all add: q_def)
  let ?s = "double (q / 1000)"
  have quot: "of_int (k * 1000) / of_int (10 ^ 6) = q / 1000" by (simp add: q_def)
  have q53: "\<bar>q / 1000\<bar> \<le> 2 ^ 53" using q by simp
  have s: "total_seconds (k * 1000) = Inr ?s"
    unfolding total_seconds_def int_truediv_def quot using to_double_small [OF q53] by simp
  have tq: "tiny \<le> \<bar>q / 1000\<bar>" using tiny_le q(1) by simp
  have es: "\<bar>?s - q / 1000\<bar> \<le> \<bar>q / 1000\<bar> / 2 ^ 53" using tq by (rule double_error)
  have "\<bar>?s * 1000\<bar> \<le> 2 ^ 53"
  proof -
    have "\<bar>q / 1000\<bar> / 2 ^ 53 \<le> \<bar>q / 1000\<bar>" by (simp add: field_simps)
    with es have "\<bar>?s\<bar> \<le> 2 * \<bar>q / 1000\<bar>" by linarith
    with q(2) show ?thesis by (simp add: abs_mult)
  qed
  then have m: "float_mul ?s 1000 = Inr (double (?s * 1000))"
    unfolding float_mul_def by (rule to_double_small)
  have "round_even (double (?s * 1000)) = k"
    using ms_error [OF q] unfolding q_def by (rule round_even_near)
  with s m show ?thesis by (simp add: dt_to_ms_timestamp_def)
qed

lemma ms_timestamp_range:
  "ms_timestamp_to_dt k = Inr dt \<Longrightarrow> dt = k * 1000 \<and> \<bar>k\<bar> \<le> 2 ^ 50"
  by (auto simp: ms_timestamp_to_dt_def mk_datetime_def datetime_min_def datetime_max_def
      split: if_splits)

lemma double_abs_le:
  assumes "\<bar>x\<bar> \<le> of_int n" and "\<bar>n\<bar> \<le> 2 ^ 53" shows "\<bar>double x\<bar> \<le> of_int n"
proof -
  have "x \<le> of_int n" "of_int (- n) \<le> x" using assms(1) by (simp_all add: abs_le_iff)
  then have "double x \<le> double (of_int n)" "double (of_int (- n)) \<le> double x"
    by (simp_all only: double_mono)
  moreover have "double (of_int n) = of_int n" using assms(2) by (rule double_of_int)
  moreover have "double (of_int (- n)) = of_int (- n)"
    by (rule double_of_int) (use assms(2) in simp)
  ultimately have "double x \<le> of_int n" "of_int (- n) \<le> double x" by simp_all
  then show ?thesis by (simp add: abs_le_iff)
qed

text \<open>Every \<open>datetime\<close> has a timestamp: reading the clock raises nothing.\<close>

lemma dt_to_ms_defined:
  assumes "datetime_min \<le> dt" and "dt \<le> datetime_max" shows "\<exists>t. dt_to_ms_timestamp dt = Inr t"
proof -
  have "\<bar>dt\<bar> \<le> 2 ^ 38 * 10 ^ 6"
    using assms by (simp add: datetime_min_def datetime_max_def abs_le_iff)
  then have "(of_int \<bar>dt\<bar> :: rat) \<le> of_int (2 ^ 38 * 10 ^ 6)" by (simp only: of_int_le_iff)
  then have q: "\<bar>of_int dt / of_int (10 ^ 6) :: rat\<bar> \<le> of_int (2 ^ 38)" by simp
  define s where "s = double (of_int dt / of_int (10 ^ 6))"
  have "\<bar>of_int dt / of_int (10 ^ 6) :: rat\<bar> \<le> 2 ^ 53" using q by simp
  then have ts: "total_seconds dt = Inr s"
    unfolding total_seconds_def int_truediv_def s_def using to_double_small by simp
  have "\<bar>s\<bar> \<le> of_int (2 ^ 38)" unfolding s_def using q by (rule double_abs_le) simp
  then have "\<bar>s * 1000\<bar> \<le> 2 ^ 53" by (simp add: abs_mult)
  then have "float_mul s 1000 = Inr (double (s * 1000))"
    unfolding float_mul_def by (rule to_double_small)
  with ts show ?thesis by (simp add: dt_to_ms_timestamp_def)
qed

section \<open>Properties\<close>

text \<open>The clock never runs backwards through the conversion to milliseconds: an earlier
  date has no later timestamp, although the conversion rounds three times.\<close>

theorem timestamps_monotone:
  assumes "dt_to_ms_timestamp a = Inr m" and "dt_to_ms_timestamp b = Inr n" and "a \<le> b"
  shows "m \<le> n"
  using assms by (rule dt_to_ms_mono_aux)

theorem timestamps_monotone_witness:
  "\<exists>m n. dt_to_ms_timestamp (3 * 1000) = Inr m \<and> dt_to_ms_timestamp (5 * 1000) = Inr n \<and> m \<le> n"
  using timestamps_monotone [of "3 * 1000" 3 "5 * 1000" 5] dt_to_ms_whole [of 3] dt_to_ms_whole [of 5]
  by simp

text \<open>A timestamp survives the conversion to a date and back, for every timestamp that has a
  date at all; one that has none raises, and so does every comparison with it.\<close>

theorem timestamp_roundtrip:
  "(case ms_timestamp_to_dt k of
      Inr dt \<Rightarrow> dt_to_ms_timestamp dt = Inr k
    | Inl e \<Rightarrow> timed_out now k = Inl e \<and> seconds_to_timeout now k = Inl e)"
  using dt_to_ms_whole [of k] ms_timestamp_range [of k]
  by (auto simp: timed_out_def seconds_to_timeout_def mult.commute split: sum.split)

end
