(* ===== verification/Swap.thy ===== *)
theory Swap
  imports Fsm Refunds Timestamps
begin

text \<open>
  \<open>commitment_service/swap.py\<close> and \<open>commitment_service/swap_state_machine.py\<close>: the swap a
  commitment service keeps for an offer, its state machine with the callbacks in the order the
  code registers them, and the factory that makes swaps and receives what they emit.

  The state is the one of the commitment service: the live swaps by offer id, the queues of
  refunds and of messages, the spawned timers, and the objects that are shared by reference
  (swaps, and messages that are signed after they were queued).
\<close>

section \<open>The state\<close>

datatype swap_state =
    Initializing | Wait_for_maker | Wait_for_taker | Wait_for_execution
  | Wait_for_maker_execution | Wait_for_taker_execution
  | Traded | Uncommitted | Untraded | Failed | Processed

record swap =
  sw_offer_id :: int
  sw_cleanup_func :: "int option"
  sw_auto_spawn_timeout :: bool
  sw_maker_commitment_msg :: "message option"
  sw_taker_commitment_msg :: "message option"
  sw_maker_commitment_proof :: "nat option"
  sw_maker_swap_execution_msg :: "message option"
  sw_taker_swap_execution_msg :: "message option"
  sw_maker_transfer_receipt :: "transfer_receipt option"
  sw_taker_transfer_receipt :: "transfer_receipt option"
  sw_terminated_state :: "swap_state option"
  sw_secret :: bytes
  sw_secret_hash :: bytes
  sw_state :: swap_state
  sw_taker_commitment_pool :: "(bytes, message) dict"

text \<open>
  A message object of the service: \<open>embedded\<close> is the message object a cancellation proof holds,
  by reference, so that a signature it receives later is seen.
\<close>

record cs_msg = msg_obj +
  embedded :: "nat option"

record cs =
  swap_objs :: "nat \<Rightarrow> swap"
  next_swap :: nat
  swaps :: "(int, nat) dict"
  refund_queue :: "refund multiset"
  msg_objs :: "nat \<Rightarrow> cs_msg"
  next_msg :: nat
  message_queue :: "(nat \<times> bytes option) list"
  timers :: "(rat \<times> nat) list"

definition upd_swap :: "nat \<Rightarrow> (swap \<Rightarrow> swap) \<Rightarrow> cs \<Rightarrow> cs" where
  "upd_swap r f s = s\<lparr>swap_objs := (swap_objs s)(r := f (swap_objs s r))\<rparr>"

definition new_msg :: "message \<Rightarrow> nat option \<Rightarrow> (cs, nat) prog" where
  "new_msg m e s =
     (Inr (next_msg s),
      s\<lparr>msg_objs := (msg_objs s)(next_msg s := \<lparr>content = m, is_mutable = True, embedded = e\<rparr>),
        next_msg := next_msg s + 1\<rparr>)"

section \<open>The factory\<close>

definition id_collides :: "int \<Rightarrow> cs \<Rightarrow> bool" where
  "id_collides offer_id s \<longleftrightarrow> dict_mem offer_id (swaps s)"

definition swap_init :: "crypto \<Rightarrow> int \<Rightarrow> int option \<Rightarrow> bool \<Rightarrow> bytes \<Rightarrow> swap" where
  "swap_init C offer_id cleanup auto secret =
     \<lparr>sw_offer_id = offer_id, sw_cleanup_func = cleanup, sw_auto_spawn_timeout = auto,
      sw_maker_commitment_msg = None, sw_taker_commitment_msg = None,
      sw_maker_commitment_proof = None, sw_maker_swap_execution_msg = None,
      sw_taker_swap_execution_msg = None, sw_maker_transfer_receipt = None,
      sw_taker_transfer_receipt = None, sw_terminated_state = None, sw_secret = secret,
      sw_secret_hash = keccak C secret, sw_state = Initializing, sw_taker_commitment_pool = []\<rparr>"

definition make_swap :: "crypto \<Rightarrow> bytes \<Rightarrow> int \<Rightarrow> (cs, nat option) prog" where
  "make_swap C secret offer_id s =
     (if id_collides offer_id s then (Inr None, s)
      else (Inr (Some (next_swap s)),
            s\<lparr>swap_objs := (swap_objs s)
                (next_swap s := swap_init C offer_id (Some offer_id) True secret),
              next_swap := next_swap s + 1,
              swaps := dict_set offer_id (next_swap s) (swaps s)\<rparr>))"

definition cleanup_swap :: "int \<Rightarrow> (cs, unit) prog" where
  "cleanup_swap offer_id s =
     (case dict_delitem offer_id (swaps s) of
        Inl e \<Rightarrow> (Inl e, s)
      | Inr d \<Rightarrow> (Inr (), s\<lparr>swaps := d\<rparr>))"

definition queue_refund :: "transfer_receipt \<Rightarrow> int \<Rightarrow> bool \<Rightarrow> (cs, unit) prog" where
  "queue_refund receipt prio claim_fee =
     modify (\<lambda>s. s\<lparr>refund_queue := add_mset
       \<lparr>rf_receipt = receipt, rf_priority = prio, rf_claim_fee = claim_fee\<rparr> (refund_queue s)\<rparr>)"

definition queue_send :: "nat \<Rightarrow> bytes option \<Rightarrow> (cs, unit) prog" where
  "queue_send m topic = modify (\<lambda>s. s\<lparr>message_queue := message_queue s @ [(m, topic)]\<rparr>)"

section \<open>The swap\<close>

definition maker_address :: "crypto \<Rightarrow> swap \<Rightarrow> bytes option res" where
  "maker_address C w =
     (case sw_maker_commitment_msg w of
        None \<Rightarrow> Inr None
      | Some m \<Rightarrow> bind_res (sender C m) (\<lambda>a. Inr (Some a)))"

definition taker_address :: "crypto \<Rightarrow> swap \<Rightarrow> bytes option res" where
  "taker_address C w =
     (case sw_taker_commitment_msg w of
        None \<Rightarrow> Inr None
      | Some m \<Rightarrow> bind_res (sender C m) (\<lambda>a. Inr (Some a)))"

definition is_maker :: "crypto \<Rightarrow> bytes \<Rightarrow> swap \<Rightarrow> bool res" where
  "is_maker C addr w = bind_res (maker_address C w) (\<lambda>m. Inr (Some addr = m))"

definition is_taker :: "crypto \<Rightarrow> bytes \<Rightarrow> swap \<Rightarrow> bool res" where
  "is_taker C addr w = bind_res (taker_address C w) (\<lambda>m. Inr (Some addr = m))"

definition the_swap :: "nat \<Rightarrow> (cs, swap) prog" where
  "the_swap r = get_state (\<lambda>s. swap_objs s r)"

text \<open>Using an attribute of \<open>None\<close> raises \<open>AttributeError\<close>.\<close>

definition attr :: "'a option \<Rightarrow> ('s, 'a) prog" where
  "attr x = (case x of None \<Rightarrow> throw AttributeError | Some y \<Rightarrow> return y)"

definition cleanup :: "nat \<Rightarrow> (cs, unit) prog" where
  "cleanup r =
     seq (the_swap r) (\<lambda>w. case sw_cleanup_func w of None \<Rightarrow> return () | Some i \<Rightarrow> cleanup_swap i)"

definition send_offer_taken :: "nat \<Rightarrow> (cs, unit) prog" where
  "send_offer_taken r =
     seq (the_swap r) (\<lambda>w. seq (new_msg (OfferTaken (sw_offer_id w) None) None) (\<lambda>m.
     queue_send m None))"

definition send_swap_completed :: "datetime \<Rightarrow> nat \<Rightarrow> (cs, unit) prog" where
  "send_swap_completed now r =
     seq (the_swap r) (\<lambda>w. seq (lift_res (time_now now)) (\<lambda>t.
     seq (new_msg (SwapCompleted (sw_offer_id w) t None) None) (\<lambda>m. queue_send m None)))"

definition send_maker_commitment_proof :: "crypto \<Rightarrow> nat \<Rightarrow> (cs, unit) prog" where
  "send_maker_commitment_proof C r =
     seq (the_swap r) (\<lambda>w. seq (attr (sw_maker_commitment_msg w)) (\<lambda>cm.
     seq (new_msg (CommitmentProof (m_signature cm) (sw_secret w) (sw_secret_hash w)
            (sw_offer_id w) None) None) (\<lambda>m.
     seq (modify (upd_swap r (\<lambda>w. w\<lparr>sw_maker_commitment_proof := Some m\<rparr>))) (\<lambda>_.
     seq (lift_res (maker_address C w)) (\<lambda>a. queue_send m a)))))"

definition send_taker_commitment_proof :: "crypto \<Rightarrow> nat \<Rightarrow> (cs, unit) prog" where
  "send_taker_commitment_proof C r =
     seq (the_swap r) (\<lambda>w. seq (attr (sw_taker_commitment_msg w)) (\<lambda>cm.
     seq (new_msg (CommitmentProof (m_signature cm) (sw_secret w) (sw_secret_hash w)
            (sw_offer_id w) None) None) (\<lambda>m.
     seq (lift_res (taker_address C w)) (\<lambda>a. queue_send m a))))"

text \<open>\<open>queue_refund\<close> of a receipt that was never set would queue a refund whose use fails later.\<close>

definition queue_refund_of :: "transfer_receipt option \<Rightarrow> bool \<Rightarrow> (cs, unit) prog" where
  "queue_refund_of receipt claim_fee =
     seq (attr receipt) (\<lambda>rc. queue_refund rc 1 claim_fee)"

definition refund_maker :: "crypto \<Rightarrow> nat \<Rightarrow> (cs, unit) prog" where
  "refund_maker C r =
     seq (the_swap r) (\<lambda>w. seq (queue_refund_of (sw_maker_transfer_receipt w) False) (\<lambda>_.
     seq (new_msg (CancellationProof (sw_offer_id w) None None) (sw_maker_commitment_proof w)) (\<lambda>m.
     seq (lift_res (maker_address C w)) (\<lambda>a. queue_send m a))))"

definition refund_maker_with_fee :: "nat \<Rightarrow> (cs, unit) prog" where
  "refund_maker_with_fee r =
     seq (the_swap r) (\<lambda>w. queue_refund_of (sw_maker_transfer_receipt w) True)"

definition refund_taker_with_fee :: "nat \<Rightarrow> (cs, unit) prog" where
  "refund_taker_with_fee r =
     seq (the_swap r) (\<lambda>w. queue_refund_of (sw_taker_transfer_receipt w) True)"

text \<open>The deposits are kept.\<close>

definition punish_maker :: "(cs, unit) prog" where
  "punish_maker = return ()"

definition punish_taker :: "(cs, unit) prog" where
  "punish_taker = return ()"

section \<open>Conditions and callbacks of the state machine\<close>

record event_data =
  ev_msg :: "message option"
  ev_receipt :: "transfer_receipt option"

text \<open>
  A message is true when its encoding is not empty (\<open>Signed.__len__\<close>), a receipt always; of the two
  \<open>hasattr\<close> tests the one for \<open>sender\<close> computes the property, and lets everything through but
  \<open>AttributeError\<close>.
\<close>

definition msg_truth :: "crypto \<Rightarrow> message option \<Rightarrow> bool res" where
  "msg_truth C m =
     (case m of
        None \<Rightarrow> Inr False
      | Some x \<Rightarrow>
          if is_instance x Signed
          then bind_res (rlp_encode C (serial [] x)) (\<lambda>b. Inr (b \<noteq> []))
          else Inr True)"

definition event_get_msg_or_receipt_kwarg ::
  "crypto \<Rightarrow> event_data \<Rightarrow> (message + transfer_receipt) res" where
  "event_get_msg_or_receipt_kwarg C ev =
     bind_res (msg_truth C (ev_msg ev)) (\<lambda>msg.
     if msg \<and> ev_receipt ev \<noteq> None then Inl ValueError
     else if \<not> msg \<and> ev_receipt ev = None then Inl ValueError
     else case (ev_msg ev, ev_receipt ev) of
       (_, Some rc) \<Rightarrow> Inr (Inr rc)
     | (Some m, None) \<Rightarrow>
         if is_instance m Signed then bind_res (sender C m) (\<lambda>_. Inr (Inl m))
         else Inl AttributeError
     | (None, None) \<Rightarrow> Inl AttributeError)"

definition party_address :: "crypto \<Rightarrow> (message + transfer_receipt) \<Rightarrow> bytes res" where
  "party_address C d = (case d of Inl m \<Rightarrow> sender C m | Inr rc \<Rightarrow> Inr (tr_initiator rc))"

definition sender_is_maker :: "crypto \<Rightarrow> event_data \<Rightarrow> swap \<Rightarrow> bool res" where
  "sender_is_maker C ev w =
     bind_res (event_get_msg_or_receipt_kwarg C ev) (\<lambda>d.
     bind_res (party_address C d) (\<lambda>a. is_maker C a w))"

definition sender_is_taker :: "crypto \<Rightarrow> event_data \<Rightarrow> swap \<Rightarrow> bool res" where
  "sender_is_taker C ev w =
     bind_res (event_get_msg_or_receipt_kwarg C ev) (\<lambda>d.
     bind_res (party_address C d) (\<lambda>a. is_taker C a w))"

definition sender_sent_taker_commitment :: "crypto \<Rightarrow> event_data \<Rightarrow> swap \<Rightarrow> bool res" where
  "sender_sent_taker_commitment C ev w =
     bind_res (event_get_msg_or_receipt_kwarg C ev) (\<lambda>d.
     case d of
       Inl _ \<Rightarrow> Inl AttributeError
     | Inr rc \<Rightarrow> Inr (dict_mem (tr_initiator rc) (sw_taker_commitment_pool w)))"

definition queue_commitment :: "crypto \<Rightarrow> event_data \<Rightarrow> nat \<Rightarrow> (cs, unit) prog" where
  "queue_commitment C ev r =
     seq (attr (ev_msg ev)) (\<lambda>m. seq (lift_res (sender C m)) (\<lambda>a. seq (the_swap r) (\<lambda>w.
     if \<not> dict_mem a (sw_taker_commitment_pool w)
     then modify (upd_swap r (\<lambda>w. w\<lparr>sw_taker_commitment_pool :=
            dict_set a m (sw_taker_commitment_pool w)\<rparr>))
     else return ())))"

definition accept_taker_commitment_from_receipt :: "event_data \<Rightarrow> nat \<Rightarrow> (cs, unit) prog" where
  "accept_taker_commitment_from_receipt ev r =
     seq (attr (ev_receipt ev)) (\<lambda>rc. seq (the_swap r) (\<lambda>w.
     seq (lift_res (dict_item (tr_initiator rc) (sw_taker_commitment_pool w))) (\<lambda>m.
     modify (upd_swap r (\<lambda>w. w\<lparr>sw_taker_commitment_msg := Some m\<rparr>)))))"

definition refund_unsuccessful_transfer :: "bool \<Rightarrow> event_data \<Rightarrow> nat \<Rightarrow> (cs, unit) prog" where
  "refund_unsuccessful_transfer result ev r =
     (if result = False then seq (attr (ev_receipt ev)) (\<lambda>rc. queue_refund rc 1 False)
      else return ())"

definition spawn_timeout :: "datetime \<Rightarrow> event_data \<Rightarrow> nat \<Rightarrow> (cs, unit) prog" where
  "spawn_timeout now ev r =
     seq (attr (ev_msg ev)) (\<lambda>m. seq (lift_res (seconds_to_timeout now (m_timeout m))) (\<lambda>sec.
     modify (\<lambda>s. s\<lparr>timers := timers s @ [(sec, r)]\<rparr>)))"

definition set_swap :: "(swap \<Rightarrow> swap) \<Rightarrow> nat \<Rightarrow> (cs, unit) prog" where
  "set_swap f r = modify (upd_swap r f)"

datatype swap_event =
    E_timeout | E_maker_commitment_msg | E_taker_commitment_msg | E_transfer_receipt
  | E_swap_execution_msg | E_finalize

datatype swap_cond = Sender_is_maker | Sender_is_taker | Sender_sent_taker_commitment

datatype swap_callback =
    Refund_maker | Finalize | Set_maker_commitment | Spawn_timeout
  | Set_maker_transfer_receipt | Send_maker_commitment_proof | Queue_commitment
  | Accept_taker_commitment | Set_taker_transfer_receipt | Send_offer_taken
  | Send_taker_commitment_proof | Set_maker_execution | Set_taker_execution
  | Send_swap_completed | Refund_maker_with_fee | Refund_taker_with_fee
  | Punish_maker | Punish_taker | Set_terminated_state | Cleanup | Refund_unsuccessful_transfer

type_synonym swap_transition = "(swap_state, swap_cond, swap_callback) transition"
type_synonym swap_machine = "(swap_event, swap_state, swap_cond, swap_callback) machine"

section \<open>The state machine\<close>

text \<open>\<open>swap_setup_state_transitions\<close>, in the order of the calls.\<close>

definition base_transitions :: swap_machine where
  "base_transitions =
    fold (\<lambda>f. f)
    [add_transition E_timeout [Wait_for_taker] (Some Untraded) [] [] [] [Refund_maker, Finalize],
     add_transition E_timeout [Initializing, Wait_for_maker] (Some Uncommitted) [] [] [] [Finalize],
     add_transition E_maker_commitment_msg [Initializing] (Some Wait_for_maker) [] [] []
       [Set_maker_commitment],
     add_transition E_transfer_receipt [Wait_for_maker] (Some Wait_for_taker) [Sender_is_maker] [] []
       [Set_maker_transfer_receipt, Send_maker_commitment_proof],
     add_transition E_taker_commitment_msg [Wait_for_taker] None [] [] [Queue_commitment] [],
     add_transition E_transfer_receipt [Wait_for_taker] (Some Wait_for_execution)
       [Sender_sent_taker_commitment] [] []
       [Accept_taker_commitment, Set_taker_transfer_receipt, Send_offer_taken,
        Send_taker_commitment_proof],
     add_transition E_swap_execution_msg [Wait_for_execution] (Some Wait_for_taker_execution)
       [Sender_is_maker] [] [] [Set_maker_execution],
     add_transition E_swap_execution_msg [Wait_for_execution] (Some Wait_for_maker_execution)
       [Sender_is_taker] [] [] [Set_taker_execution],
     add_transition E_swap_execution_msg [Wait_for_taker_execution] (Some Traded)
       [Sender_is_taker] [] []
       [Set_taker_execution, Send_swap_completed, Refund_maker_with_fee, Refund_taker_with_fee,
        Finalize],
     add_transition E_swap_execution_msg [Wait_for_maker_execution] (Some Traded)
       [Sender_is_maker] [] []
       [Set_maker_execution, Send_swap_completed, Refund_maker_with_fee, Refund_taker_with_fee,
        Finalize],
     add_transition E_timeout
       [Wait_for_execution, Wait_for_taker_execution, Wait_for_maker_execution] (Some Failed)
       [] [] [] [Punish_maker, Punish_taker, Finalize],
     add_transition E_finalize [Traded, Untraded, Failed, Uncommitted] (Some Processed) [] [] []
       [Set_terminated_state, Cleanup],
     add_transition E_transfer_receipt [Wait_for_taker] None [] [Sender_sent_taker_commitment] []
       [Refund_unsuccessful_transfer],
     add_transition E_transfer_receipt [Wait_for_maker] None [] [Sender_is_maker] []
       [Refund_unsuccessful_transfer],
     add_transition E_transfer_receipt
       [Wait_for_execution, Wait_for_taker_execution, Wait_for_maker_execution, Failed, Traded,
        Uncommitted, Untraded] None [] [] [] [Refund_unsuccessful_transfer]]
    []"

definition swap_setup_state_transitions :: "bool \<Rightarrow> swap_machine" where
  "swap_setup_state_transitions auto_spawn_timeout =
     (if auto_spawn_timeout
      then add_transition E_maker_commitment_msg [Initializing] (Some Wait_for_maker) [] [] []
             [Set_maker_commitment, Spawn_timeout]
             (remove_transition E_maker_commitment_msg [Initializing] [Wait_for_maker]
               base_transitions)
      else base_transitions)"

definition swap_cond :: "crypto \<Rightarrow> event_data \<Rightarrow> nat \<Rightarrow> swap_cond \<Rightarrow> (cs, bool) prog" where
  "swap_cond C ev r c =
     seq (the_swap r) (\<lambda>w. lift_res
       (case c of
          Sender_is_maker \<Rightarrow> sender_is_maker C ev w
        | Sender_is_taker \<Rightarrow> sender_is_taker C ev w
        | Sender_sent_taker_commitment \<Rightarrow> sender_sent_taker_commitment C ev w))"

definition set_swap_state :: "nat \<Rightarrow> swap_transition \<Rightarrow> (cs, unit) prog" where
  "set_swap_state r t = set_swap (\<lambda>w. w\<lparr>sw_state := t_dest t\<rparr>) r"

text \<open>
  The callbacks. While they run, the result of the event is still \<open>False\<close>. \<open>finalize\<close> is
  the trigger of that event: its own callbacks do not use it again.
\<close>

fun basic_callback ::
  "crypto \<Rightarrow> datetime \<Rightarrow> event_data \<Rightarrow> nat \<Rightarrow> swap_transition \<Rightarrow> swap_callback \<Rightarrow> (cs, unit) prog"
where
  "basic_callback C now ev r t Refund_maker = refund_maker C r"
| "basic_callback C now ev r t Finalize = throw RecursionError"
| "basic_callback C now ev r t Set_maker_commitment =
     set_swap (\<lambda>w. w\<lparr>sw_maker_commitment_msg := ev_msg ev\<rparr>) r"
| "basic_callback C now ev r t Spawn_timeout = spawn_timeout now ev r"
| "basic_callback C now ev r t Set_maker_transfer_receipt =
     set_swap (\<lambda>w. w\<lparr>sw_maker_transfer_receipt := ev_receipt ev\<rparr>) r"
| "basic_callback C now ev r t Send_maker_commitment_proof = send_maker_commitment_proof C r"
| "basic_callback C now ev r t Queue_commitment = queue_commitment C ev r"
| "basic_callback C now ev r t Accept_taker_commitment = accept_taker_commitment_from_receipt ev r"
| "basic_callback C now ev r t Set_taker_transfer_receipt =
     set_swap (\<lambda>w. w\<lparr>sw_taker_transfer_receipt := ev_receipt ev\<rparr>) r"
| "basic_callback C now ev r t Send_offer_taken = send_offer_taken r"
| "basic_callback C now ev r t Send_taker_commitment_proof = send_taker_commitment_proof C r"
| "basic_callback C now ev r t Set_maker_execution =
     set_swap (\<lambda>w. w\<lparr>sw_maker_swap_execution_msg := ev_msg ev\<rparr>) r"
| "basic_callback C now ev r t Set_taker_execution =
     set_swap (\<lambda>w. w\<lparr>sw_taker_swap_execution_msg := ev_msg ev\<rparr>) r"
| "basic_callback C now ev r t Send_swap_completed = send_swap_completed now r"
| "basic_callback C now ev r t Refund_maker_with_fee = refund_maker_with_fee r"
| "basic_callback C now ev r t Refund_taker_with_fee = refund_taker_with_fee r"
| "basic_callback C now ev r t Punish_maker = punish_maker"
| "basic_callback C now ev r t Punish_taker = punish_taker"
| "basic_callback C now ev r t Set_terminated_state =
     set_swap (\<lambda>w. w\<lparr>sw_terminated_state := Some (t_source t)\<rparr>) r"
| "basic_callback C now ev r t Cleanup = cleanup r"
| "basic_callback C now ev r t Refund_unsuccessful_transfer = refund_unsuccessful_transfer False ev r"

definition no_data :: event_data where
  "no_data = \<lparr>ev_msg = None, ev_receipt = None\<rparr>"

definition swap_trigger ::
  "crypto \<Rightarrow> (swap_transition \<Rightarrow> swap_callback \<Rightarrow> (cs, unit) prog) \<Rightarrow> swap_event \<Rightarrow> event_data \<Rightarrow>
   nat \<Rightarrow> (cs, bool) prog" where
  "swap_trigger C call e ev r s =
     trigger (\<lambda>s. sw_state (swap_objs s r)) (execute (swap_cond C ev r) (set_swap_state r) call)
       (event_table (swap_setup_state_transitions (sw_auto_spawn_timeout (swap_objs s r))) e) s"

definition finalize :: "crypto \<Rightarrow> datetime \<Rightarrow> nat \<Rightarrow> (cs, bool) prog" where
  "finalize C now r = swap_trigger C (basic_callback C now no_data r) E_finalize no_data r"

definition swap_callback ::
  "crypto \<Rightarrow> datetime \<Rightarrow> event_data \<Rightarrow> nat \<Rightarrow> swap_transition \<Rightarrow> swap_callback \<Rightarrow> (cs, unit) prog"
where
  "swap_callback C now ev r t cb =
     (if cb = Finalize then seq (finalize C now r) (\<lambda>_. return ())
      else basic_callback C now ev r t cb)"

definition fire ::
  "crypto \<Rightarrow> datetime \<Rightarrow> swap_event \<Rightarrow> event_data \<Rightarrow> nat \<Rightarrow> (cs, bool) prog" where
  "fire C now e ev r = swap_trigger C (swap_callback C now ev r) e ev r"

section \<open>The operations of a swap\<close>

definition msg_data :: "message \<Rightarrow> event_data" where
  "msg_data m = \<lparr>ev_msg = Some m, ev_receipt = None\<rparr>"

definition receipt_data :: "transfer_receipt \<Rightarrow> event_data" where
  "receipt_data rc = \<lparr>ev_msg = None, ev_receipt = Some rc\<rparr>"

definition trigger_timeout :: "crypto \<Rightarrow> datetime \<Rightarrow> nat \<Rightarrow> (cs, bool) prog" where
  "trigger_timeout C now r = fire C now E_timeout no_data r"

definition hand_swap_execution_msg ::
  "crypto \<Rightarrow> datetime \<Rightarrow> message \<Rightarrow> nat \<Rightarrow> (cs, bool) prog" where
  "hand_swap_execution_msg C now m r = fire C now E_swap_execution_msg (msg_data m) r"

definition hand_maker_commitment_msg ::
  "crypto \<Rightarrow> datetime \<Rightarrow> message \<Rightarrow> nat \<Rightarrow> (cs, bool) prog" where
  "hand_maker_commitment_msg C now m r = fire C now E_maker_commitment_msg (msg_data m) r"

definition hand_taker_commitment_msg ::
  "crypto \<Rightarrow> datetime \<Rightarrow> message \<Rightarrow> nat \<Rightarrow> (cs, bool) prog" where
  "hand_taker_commitment_msg C now m r = fire C now E_taker_commitment_msg (msg_data m) r"

definition hand_transfer_receipt ::
  "crypto \<Rightarrow> datetime \<Rightarrow> transfer_receipt \<Rightarrow> nat \<Rightarrow> (cs, bool) prog" where
  "hand_transfer_receipt C now rc r = fire C now E_transfer_receipt (receipt_data rc) r"

definition hand_cancellation_msg :: "crypto \<Rightarrow> datetime \<Rightarrow> nat \<Rightarrow> (cs, bool) prog" where
  "hand_cancellation_msg C now r = fire C now E_timeout no_data r"

section \<open>The machine, state by state\<close>

definition tr ::
  "swap_state \<Rightarrow> swap_state \<Rightarrow> swap_cond list \<Rightarrow> swap_cond list \<Rightarrow> swap_callback list \<Rightarrow>
   swap_callback list \<Rightarrow> swap_transition" where
  "tr a b c u bef aft = \<lparr>t_source = a, t_dest = b, t_conditions = c, t_unless = u,
     t_before = bef, t_after = aft\<rparr>"

lemmas machine_defs =
  candidates_def event_table_def swap_setup_state_transitions_def base_transitions_def
  add_transition_def remove_transition_def tr_def

lemma candidates_timeout:
  "candidates (swap_setup_state_transitions auto) E_timeout st =
     (case st of
        Wait_for_taker \<Rightarrow> [tr st Untraded [] [] [] [Refund_maker, Finalize]]
      | Initializing \<Rightarrow> [tr st Uncommitted [] [] [] [Finalize]]
      | Wait_for_maker \<Rightarrow> [tr st Uncommitted [] [] [] [Finalize]]
      | Wait_for_execution \<Rightarrow> [tr st Failed [] [] [] [Punish_maker, Punish_taker, Finalize]]
      | Wait_for_taker_execution \<Rightarrow> [tr st Failed [] [] [] [Punish_maker, Punish_taker, Finalize]]
      | Wait_for_maker_execution \<Rightarrow> [tr st Failed [] [] [] [Punish_maker, Punish_taker, Finalize]]
      | _ \<Rightarrow> [])"
  by (cases st; cases auto) (simp_all add: machine_defs)

lemma candidates_maker_commitment:
  "candidates (swap_setup_state_transitions auto) E_maker_commitment_msg st =
     (if st = Initializing
      then [tr st Wait_for_maker [] [] [] (Set_maker_commitment # (if auto then [Spawn_timeout] else []))]
      else [])"
  by (cases st; cases auto) (simp_all add: machine_defs)

lemma candidates_taker_commitment:
  "candidates (swap_setup_state_transitions auto) E_taker_commitment_msg st =
     (if st = Wait_for_taker then [tr st st [] [] [Queue_commitment] []] else [])"
  by (cases st; cases auto) (simp_all add: machine_defs)

lemma candidates_receipt:
  "candidates (swap_setup_state_transitions auto) E_transfer_receipt st =
     (case st of
        Wait_for_maker \<Rightarrow>
          [tr st Wait_for_taker [Sender_is_maker] [] []
             [Set_maker_transfer_receipt, Send_maker_commitment_proof],
           tr st st [] [Sender_is_maker] [] [Refund_unsuccessful_transfer]]
      | Wait_for_taker \<Rightarrow>
          [tr st Wait_for_execution [Sender_sent_taker_commitment] [] []
             [Accept_taker_commitment, Set_taker_transfer_receipt, Send_offer_taken,
              Send_taker_commitment_proof],
           tr st st [] [Sender_sent_taker_commitment] [] [Refund_unsuccessful_transfer]]
      | Initializing \<Rightarrow> [] | Processed \<Rightarrow> []
      | _ \<Rightarrow> [tr st st [] [] [] [Refund_unsuccessful_transfer]])"
  by (cases st; cases auto) (simp_all add: machine_defs)

lemma candidates_execution:
  "candidates (swap_setup_state_transitions auto) E_swap_execution_msg st =
     (case st of
        Wait_for_execution \<Rightarrow>
          [tr st Wait_for_taker_execution [Sender_is_maker] [] [] [Set_maker_execution],
           tr st Wait_for_maker_execution [Sender_is_taker] [] [] [Set_taker_execution]]
      | Wait_for_taker_execution \<Rightarrow>
          [tr st Traded [Sender_is_taker] [] []
             [Set_taker_execution, Send_swap_completed, Refund_maker_with_fee,
              Refund_taker_with_fee, Finalize]]
      | Wait_for_maker_execution \<Rightarrow>
          [tr st Traded [Sender_is_maker] [] []
             [Set_maker_execution, Send_swap_completed, Refund_maker_with_fee,
              Refund_taker_with_fee, Finalize]]
      | _ \<Rightarrow> [])"
  by (cases st; cases auto) (simp_all add: machine_defs)

lemma candidates_finalize:
  "candidates (swap_setup_state_transitions auto) E_finalize st =
     (if st \<in> {Traded, Untraded, Failed, Uncommitted}
      then [tr st Processed [] [] [] [Set_terminated_state, Cleanup]] else [])"
  by (cases st; cases auto) (simp_all add: machine_defs)

lemmas swap_candidates =
  candidates_timeout candidates_maker_commitment candidates_taker_commitment candidates_receipt
  candidates_execution candidates_finalize

end
