(* ===== verification/Swap_Steps.thy ===== *)
theory Swap_Steps
  imports Swap
begin

text \<open>
  What every operation of a swap does, state by state: the equations the invariant, the
  refinement and the accounting of deposits are proved from. They are stated with the effects
  a step can have on the service.
\<close>

section \<open>Effects\<close>

definition put_swap :: "nat \<Rightarrow> swap \<Rightarrow> cs \<Rightarrow> cs" where
  "put_swap r w s = s\<lparr>swap_objs := (swap_objs s)(r := w)\<rparr>"

definition add_refund :: "transfer_receipt \<Rightarrow> bool \<Rightarrow> cs \<Rightarrow> cs" where
  "add_refund rc fee s = s\<lparr>refund_queue :=
     add_mset \<lparr>rf_receipt = rc, rf_priority = 1, rf_claim_fee = fee\<rparr> (refund_queue s)\<rparr>"

definition post :: "message \<Rightarrow> nat option \<Rightarrow> bytes option \<Rightarrow> cs \<Rightarrow> cs" where
  "post m e topic s =
     s\<lparr>msg_objs := (msg_objs s)(next_msg s := \<lparr>content = m, is_mutable = True, embedded = e\<rparr>),
       next_msg := next_msg s + 1, message_queue := message_queue s @ [(next_msg s, topic)]\<rparr>"

definition finish :: "nat \<Rightarrow> swap \<Rightarrow> swap_state \<Rightarrow> cs \<Rightarrow> cs" where
  "finish r w how s =
     (put_swap r (w\<lparr>sw_state := Processed, sw_terminated_state := Some how\<rparr>) s)
       \<lparr>swaps := dict_del (sw_offer_id w) (swaps s)\<rparr>"

lemmas effect_defs = put_swap_def add_refund_def post_def finish_def

text \<open>A swap that its factory made and that has not ended.\<close>

definition live :: "nat \<Rightarrow> cs \<Rightarrow> bool" where
  "live r s \<longleftrightarrow>
     dict_get (sw_offer_id (swap_objs s r)) (swaps s) = Some r \<and>
     sw_cleanup_func (swap_objs s r) = Some (sw_offer_id (swap_objs s r)) \<and>
     sw_auto_spawn_timeout (swap_objs s r)"

lemma live_delitem:
  "live r s \<Longrightarrow> dict_delitem (sw_offer_id (swap_objs s r)) (swaps s) =
     Inr (dict_del (sw_offer_id (swap_objs s r)) (swaps s))"
  by (simp add: live_def dict_delitem_def dict_mem_def)

section \<open>Who sent it\<close>

definition msg_party :: "crypto \<Rightarrow> message \<Rightarrow> bytes res" where
  "msg_party C m =
     bind_res (msg_truth C (Some m)) (\<lambda>t.
       if \<not> t then Inl ValueError
       else if is_instance m Signed then sender C m else Inl AttributeError)"

lemma party_receipt: "event_get_msg_or_receipt_kwarg C (receipt_data rc) = Inr (Inr rc)"
  by (simp add: event_get_msg_or_receipt_kwarg_def receipt_data_def msg_truth_def)

lemma party_msg:
  "event_get_msg_or_receipt_kwarg C (msg_data m) = bind_res (msg_party C m) (\<lambda>_. Inr (Inl m))"
  by (cases "msg_truth C (Some m)")
     (auto simp: event_get_msg_or_receipt_kwarg_def msg_data_def msg_party_def)

lemma msg_party_sender: "msg_party C m = Inr a \<Longrightarrow> sender C m = Inr a"
  by (auto simp: msg_party_def bind_res_Inr_iff split: if_splits)

lemma sender_is_maker_receipt:
  "sender_is_maker C (receipt_data rc) w = is_maker C (tr_initiator rc) w"
  by (simp add: sender_is_maker_def party_receipt party_address_def)

lemma sender_is_maker_msg:
  "sender_is_maker C (msg_data m) w = bind_res (msg_party C m) (\<lambda>a. is_maker C a w)"
  by (cases "msg_party C m")
     (auto simp: sender_is_maker_def party_msg party_address_def msg_party_sender)

lemma sender_is_taker_msg:
  "sender_is_taker C (msg_data m) w = bind_res (msg_party C m) (\<lambda>a. is_taker C a w)"
  by (cases "msg_party C m")
     (auto simp: sender_is_taker_def party_msg party_address_def msg_party_sender)

lemma sender_sent_receipt:
  "sender_sent_taker_commitment C (receipt_data rc) w =
     Inr (dict_mem (tr_initiator rc) (sw_taker_commitment_pool w))"
  by (simp add: sender_sent_taker_commitment_def party_receipt)

lemma ev_data_simps [simp]:
  "ev_msg (msg_data m) = Some m" "ev_receipt (msg_data m) = None"
  "ev_msg (receipt_data rc) = None" "ev_receipt (receipt_data rc) = Some rc"
  by (simp_all add: msg_data_def receipt_data_def)

lemmas who_simps =
  sender_is_maker_receipt sender_is_maker_msg sender_is_taker_msg sender_sent_receipt
  is_maker_def is_taker_def

section \<open>The steps\<close>

lemma attr_Some [simp]: "attr (Some x) = return x"
  by (simp add: attr_def)

lemma upd_swap_obj [simp]: "swap_objs (upd_swap r f s) = (swap_objs s)(r := f (swap_objs s r))"
  by (simp add: upd_swap_def)

lemma state_self [simp]: "sw_state w = st \<Longrightarrow> w\<lparr>sw_state := st\<rparr> = w"
  by (cases w) simp

lemma swap_objs_self [simp]: "s\<lparr>swap_objs := swap_objs s\<rparr> = s"
  by (cases s) simp

lemmas step_simps =
  prog_simps swap_trigger_def trigger_by_candidates swap_candidates tr_def execute_def
  swap_callback_def swap_cond_def the_swap_def set_swap_state_def set_swap_def who_simps
  upd_swap_def queue_send_def queue_refund_def new_msg_def

lemma finalize_step:
  assumes "live r s" and "sw_state (swap_objs s r) \<in> {Traded, Untraded, Failed, Uncommitted}"
  shows "finalize C now r s =
    (Inr True, finish r (swap_objs s r) (sw_state (swap_objs s r)) s)"
  using assms live_delitem [OF assms(1)]
  by (auto simp: finalize_def step_simps cleanup_def cleanup_swap_def finish_def put_swap_def live_def)

text \<open>A swap in the middle of a step: its record and its state may have changed.\<close>

lemma live_put [simp]:
  "live r (put_swap r w s) \<longleftrightarrow>
     dict_get (sw_offer_id w) (swaps s) = Some r \<and> sw_cleanup_func w = Some (sw_offer_id w) \<and>
     sw_auto_spawn_timeout w"
  by (simp add: live_def put_swap_def)

lemma timeout_uncommitted:
  assumes "live r s" and "sw_state (swap_objs s r) \<in> {Initializing, Wait_for_maker}"
  shows "fire C now E_timeout no_data r s = (Inr True, finish r (swap_objs s r) Uncommitted s)"
  using assms
  by (auto simp: fire_def step_simps finalize_step effect_defs live_def)

lemma timeout_untraded:
  assumes "live r s" and "sw_state (swap_objs s r) = Wait_for_taker"
    and "sw_maker_transfer_receipt (swap_objs s r) = Some rc"
    and "maker_address C (swap_objs s r) = Inr a"
  shows "fire C now E_timeout no_data r s =
    (Inr True, finish r (swap_objs s r) Untraded
      (post (CancellationProof (sw_offer_id (swap_objs s r)) None None)
        (sw_maker_commitment_proof (swap_objs s r)) a (add_refund rc False s)))"
  using assms
  by (simp add: fire_def step_simps finalize_step effect_defs live_def refund_maker_def
      queue_refund_of_def maker_address_def)

lemma timeout_failed:
  assumes "live r s"
    and "sw_state (swap_objs s r) \<in>
      {Wait_for_execution, Wait_for_taker_execution, Wait_for_maker_execution}"
  shows "fire C now E_timeout no_data r s = (Inr True, finish r (swap_objs s r) Failed s)"
  using assms
  by (auto simp: fire_def step_simps finalize_step effect_defs live_def punish_maker_def
      punish_taker_def)

lemma maker_commitment_step:
  assumes "sw_auto_spawn_timeout (swap_objs s r)" and "sw_state (swap_objs s r) = Initializing"
  shows "hand_maker_commitment_msg C now m r s =
    (let s' = put_swap r ((swap_objs s r)\<lparr>sw_state := Wait_for_maker,
                 sw_maker_commitment_msg := Some m\<rparr>) s in
     case seconds_to_timeout now (m_timeout m) of
       Inl e \<Rightarrow> (Inl e, s')
     | Inr sec \<Rightarrow> (Inr True, s'\<lparr>timers := timers s @ [(sec, r)]\<rparr>))"
  using assms
  by (simp add: hand_maker_commitment_msg_def fire_def step_simps spawn_timeout_def effect_defs
      split: sum.split)

lemma taker_commitment_step:
  assumes "sw_state (swap_objs s r) = Wait_for_taker"
  shows "hand_taker_commitment_msg C now m r s =
    (case sender C m of
       Inl e \<Rightarrow> (Inl e, s)
     | Inr a \<Rightarrow> (Inr True,
         if dict_mem a (sw_taker_commitment_pool (swap_objs s r)) then s
         else put_swap r ((swap_objs s r)\<lparr>sw_taker_commitment_pool :=
                dict_set a m (sw_taker_commitment_pool (swap_objs s r))\<rparr>) s))"
  using assms
  by (simp add: hand_taker_commitment_msg_def fire_def step_simps queue_commitment_def effect_defs
      split: sum.split)

lemma receipt_maker_step:
  assumes "sw_state (swap_objs s r) = Wait_for_maker"
    and "sw_maker_commitment_msg (swap_objs s r) = Some m"
  shows "hand_transfer_receipt C now rc r s =
    (case sender C m of
       Inl e \<Rightarrow> (Inl e, s)
     | Inr a \<Rightarrow>
         if a = tr_initiator rc
         then (Inr True, post (CommitmentProof (m_signature m) (sw_secret (swap_objs s r))
                   (sw_secret_hash (swap_objs s r)) (sw_offer_id (swap_objs s r)) None) None (Some a)
                (put_swap r ((swap_objs s r)\<lparr>sw_state := Wait_for_taker,
                    sw_maker_transfer_receipt := Some rc,
                    sw_maker_commitment_proof := Some (next_msg s)\<rparr>) s))
         else (Inr True, add_refund rc False s))"
  using assms
  by (simp add: hand_transfer_receipt_def fire_def step_simps send_maker_commitment_proof_def
      effect_defs maker_address_def refund_unsuccessful_transfer_def split: sum.split)

lemma receipt_taker_step:
  assumes "sw_state (swap_objs s r) = Wait_for_taker"
  shows "hand_transfer_receipt C now rc r s =
    (case dict_get (tr_initiator rc) (sw_taker_commitment_pool (swap_objs s r)) of
       None \<Rightarrow> (Inr True, add_refund rc False s)
     | Some m \<Rightarrow>
         let w = (swap_objs s r)\<lparr>sw_state := Wait_for_execution, sw_taker_commitment_msg := Some m,
                   sw_taker_transfer_receipt := Some rc\<rparr>;
             s' = post (OfferTaken (sw_offer_id w) None) None None (put_swap r w s) in
         case sender C m of
           Inl e \<Rightarrow> (Inl e, s'\<lparr>msg_objs := (msg_objs s')(next_msg s' :=
               \<lparr>content = CommitmentProof (m_signature m) (sw_secret w) (sw_secret_hash w)
                  (sw_offer_id w) None, is_mutable = True, embedded = None\<rparr>),
               next_msg := next_msg s' + 1\<rparr>)
         | Inr a \<Rightarrow> (Inr True, post (CommitmentProof (m_signature m) (sw_secret w)
               (sw_secret_hash w) (sw_offer_id w) None) None (Some a) s'))"
  using assms
  by (simp add: hand_transfer_receipt_def fire_def step_simps send_taker_commitment_proof_def
      send_offer_taken_def accept_taker_commitment_from_receipt_def dict_item_def dict_mem_def
      effect_defs taker_address_def refund_unsuccessful_transfer_def Let_def
      split: sum.split option.split)

lemma receipt_late_step:
  assumes "sw_state (swap_objs s r) \<in>
    {Wait_for_execution, Wait_for_taker_execution, Wait_for_maker_execution}"
  shows "hand_transfer_receipt C now rc r s = (Inr True, add_refund rc False s)"
  using assms
  by (auto simp: hand_transfer_receipt_def fire_def step_simps effect_defs
      refund_unsuccessful_transfer_def)

lemma execution_first_step:
  assumes "sw_state (swap_objs s r) = Wait_for_execution"
    and "maker_address C (swap_objs s r) = Inr (Some ma)"
    and "taker_address C (swap_objs s r) = Inr (Some ta)"
  shows "hand_swap_execution_msg C now m r s =
    (case msg_party C m of
       Inl e \<Rightarrow> (Inl e, s)
     | Inr a \<Rightarrow>
         if a = ma then (Inr True, put_swap r ((swap_objs s r)\<lparr>sw_state := Wait_for_taker_execution,
             sw_maker_swap_execution_msg := Some m\<rparr>) s)
         else if a = ta then (Inr True, put_swap r ((swap_objs s r)
             \<lparr>sw_state := Wait_for_maker_execution, sw_taker_swap_execution_msg := Some m\<rparr>) s)
         else (Inr False, s))"
  using assms
  by (simp add: hand_swap_execution_msg_def fire_def step_simps effect_defs split: sum.split)

definition traded :: "int \<Rightarrow> nat \<Rightarrow> swap \<Rightarrow> transfer_receipt \<Rightarrow> transfer_receipt \<Rightarrow> cs \<Rightarrow> cs" where
  "traded t r w rm rt s =
     finish r w Traded (add_refund rt True (add_refund rm True
       (post (SwapCompleted (sw_offer_id w) t None) None None s)))"

lemma execution_taker_step:
  assumes "live r s" and "sw_state (swap_objs s r) = Wait_for_taker_execution"
    and "taker_address C (swap_objs s r) = Inr (Some pa)"
    and "sw_maker_transfer_receipt (swap_objs s r) = Some rm"
    and "sw_taker_transfer_receipt (swap_objs s r) = Some rt"
    and "time_now now = Inr t"
  shows "hand_swap_execution_msg C now m r s =
    (case msg_party C m of
       Inl e \<Rightarrow> (Inl e, s)
     | Inr a \<Rightarrow>
         if a = pa
         then (Inr True, traded t r ((swap_objs s r)\<lparr>sw_taker_swap_execution_msg := Some m\<rparr>) rm rt s)
         else (Inr False, s))"
  using assms
  by (simp add: hand_swap_execution_msg_def fire_def step_simps effect_defs finalize_step live_def
      traded_def send_swap_completed_def refund_maker_with_fee_def refund_taker_with_fee_def
      queue_refund_of_def split: sum.split)

lemma execution_maker_step:
  assumes "live r s" and "sw_state (swap_objs s r) = Wait_for_maker_execution"
    and "maker_address C (swap_objs s r) = Inr (Some pa)"
    and "sw_maker_transfer_receipt (swap_objs s r) = Some rm"
    and "sw_taker_transfer_receipt (swap_objs s r) = Some rt"
    and "time_now now = Inr t"
  shows "hand_swap_execution_msg C now m r s =
    (case msg_party C m of
       Inl e \<Rightarrow> (Inl e, s)
     | Inr a \<Rightarrow>
         if a = pa
         then (Inr True, traded t r ((swap_objs s r)\<lparr>sw_maker_swap_execution_msg := Some m\<rparr>) rm rt s)
         else (Inr False, s))"
  using assms
  by (simp add: hand_swap_execution_msg_def fire_def step_simps effect_defs finalize_step live_def
      traded_def send_swap_completed_def refund_maker_with_fee_def refund_taker_with_fee_def
      queue_refund_of_def split: sum.split)

section \<open>Events a state does not accept\<close>

definition accepts :: "swap_state \<Rightarrow> swap_event \<Rightarrow> bool" where
  "accepts st e \<longleftrightarrow>
     (case e of
        E_timeout \<Rightarrow> st \<in> {Initializing, Wait_for_maker, Wait_for_taker, Wait_for_execution,
          Wait_for_maker_execution, Wait_for_taker_execution}
      | E_maker_commitment_msg \<Rightarrow> st = Initializing
      | E_taker_commitment_msg \<Rightarrow> st = Wait_for_taker
      | E_transfer_receipt \<Rightarrow> st \<notin> {Initializing, Processed}
      | E_swap_execution_msg \<Rightarrow>
          st \<in> {Wait_for_execution, Wait_for_maker_execution, Wait_for_taker_execution}
      | E_finalize \<Rightarrow> st \<in> {Traded, Untraded, Failed, Uncommitted})"

lemma accepts_candidates:
  "accepts st e \<longleftrightarrow> candidates (swap_setup_state_transitions auto) e st \<noteq> []"
  by (cases e; cases st) (simp_all add: accepts_def swap_candidates)

lemma not_accepted:
  "\<not> accepts (sw_state (swap_objs s r)) e \<Longrightarrow> fire C now e ev r s = (Inl MachineError, s)"
  using accepts_candidates [of "sw_state (swap_objs s r)" e "sw_auto_spawn_timeout (swap_objs s r)"]
  by (simp add: fire_def swap_trigger_def trigger_by_candidates)

end
