(* ===== verification/Swap_Invariant.thy ===== *)
theory Swap_Invariant
  imports Swap_Steps
begin

text \<open>
  What holds of every swap and of the service state between two steps, and that every operation
  of a swap keeps it: who has committed and deposited in which state, that the dictionary holds
  exactly the swaps that have not ended, each under its own offer id, and that references are
  to objects that exist.
\<close>

section \<open>A swap\<close>

definition pool_ok :: "crypto \<Rightarrow> swap \<Rightarrow> bool" where
  "pool_ok C w \<longleftrightarrow>
     (\<forall>a m. dict_get a (sw_taker_commitment_pool w) = Some m \<longrightarrow> sender C m = Inr a)"

definition maker_paid :: "crypto \<Rightarrow> swap \<Rightarrow> bool" where
  "maker_paid C w \<longleftrightarrow>
     (\<exists>m rc. sw_maker_commitment_msg w = Some m \<and> sw_maker_transfer_receipt w = Some rc \<and>
        sender C m = Inr (tr_initiator rc)) \<and> sw_maker_commitment_proof w \<noteq> None"

definition taker_paid :: "crypto \<Rightarrow> swap \<Rightarrow> bool" where
  "taker_paid C w \<longleftrightarrow>
     (\<exists>m rc. sw_taker_commitment_msg w = Some m \<and> sw_taker_transfer_receipt w = Some rc \<and>
        sender C m = Inr (tr_initiator rc))"

definition no_taker :: "swap \<Rightarrow> bool" where
  "no_taker w \<longleftrightarrow> sw_taker_commitment_msg w = None \<and> sw_taker_transfer_receipt w = None"

definition no_maker_deposit :: "swap \<Rightarrow> bool" where
  "no_maker_deposit w \<longleftrightarrow>
     sw_maker_transfer_receipt w = None \<and> sw_maker_commitment_proof w = None"

definition executed_by :: "crypto \<Rightarrow> message option \<Rightarrow> transfer_receipt option \<Rightarrow> bool" where
  "executed_by C x rc \<longleftrightarrow>
     (\<exists>m r. x = Some m \<and> rc = Some r \<and> sender C m = Inr (tr_initiator r))"

abbreviation maker_executed :: "crypto \<Rightarrow> swap \<Rightarrow> bool" where
  "maker_executed C w \<equiv>
     executed_by C (sw_maker_swap_execution_msg w) (sw_maker_transfer_receipt w)"

abbreviation taker_executed :: "crypto \<Rightarrow> swap \<Rightarrow> bool" where
  "taker_executed C w \<equiv>
     executed_by C (sw_taker_swap_execution_msg w) (sw_taker_transfer_receipt w)"

text \<open>What has happened to a swap that ended in a state.\<close>

definition ended_ok :: "crypto \<Rightarrow> swap \<Rightarrow> bool" where
  "ended_ok C w \<longleftrightarrow>
     (case sw_terminated_state w of
        Some Uncommitted \<Rightarrow> no_maker_deposit w \<and> no_taker w
      | Some Untraded \<Rightarrow> maker_paid C w \<and> no_taker w
      | Some Failed \<Rightarrow> maker_paid C w \<and> taker_paid C w \<and>
          (sw_maker_swap_execution_msg w = None \<or> sw_taker_swap_execution_msg w = None)
      | Some Traded \<Rightarrow> maker_paid C w \<and> taker_paid C w \<and> maker_executed C w \<and> taker_executed C w
      | _ \<Rightarrow> False)"

definition swap_ok :: "crypto \<Rightarrow> swap \<Rightarrow> bool" where
  "swap_ok C w \<longleftrightarrow> pool_ok C w \<and>
     (sw_state w \<noteq> Processed \<longrightarrow> sw_terminated_state w = None) \<and>
     (case sw_state w of
        Initializing \<Rightarrow> sw_maker_commitment_msg w = None \<and> no_maker_deposit w \<and> no_taker w \<and>
          sw_maker_swap_execution_msg w = None \<and> sw_taker_swap_execution_msg w = None
      | Wait_for_maker \<Rightarrow> sw_maker_commitment_msg w \<noteq> None \<and> no_maker_deposit w \<and> no_taker w \<and>
          sw_maker_swap_execution_msg w = None \<and> sw_taker_swap_execution_msg w = None
      | Wait_for_taker \<Rightarrow> maker_paid C w \<and> no_taker w \<and>
          sw_maker_swap_execution_msg w = None \<and> sw_taker_swap_execution_msg w = None
      | Wait_for_execution \<Rightarrow> maker_paid C w \<and> taker_paid C w \<and>
          sw_maker_swap_execution_msg w = None \<and> sw_taker_swap_execution_msg w = None
      | Wait_for_taker_execution \<Rightarrow> maker_paid C w \<and> taker_paid C w \<and>
          maker_executed C w \<and> sw_taker_swap_execution_msg w = None
      | Wait_for_maker_execution \<Rightarrow> maker_paid C w \<and> taker_paid C w \<and>
          sw_maker_swap_execution_msg w = None \<and> taker_executed C w
      | Processed \<Rightarrow> ended_ok C w
      | _ \<Rightarrow> False)"

lemmas swap_ok_defs =
  swap_ok_def pool_ok_def maker_paid_def taker_paid_def no_taker_def no_maker_deposit_def
  executed_by_def ended_ok_def

lemma swap_ok_init: "swap_ok C (swap_init C i c a sec)"
  by (simp add: swap_ok_defs swap_init_def)

lemma maker_paid_address:
  "maker_paid C w \<Longrightarrow> \<exists>rc. sw_maker_transfer_receipt w = Some rc \<and>
     maker_address C w = Inr (Some (tr_initiator rc))"
  by (auto simp: maker_paid_def maker_address_def)

lemma taker_paid_address:
  "taker_paid C w \<Longrightarrow> \<exists>rc. sw_taker_transfer_receipt w = Some rc \<and>
     taker_address C w = Inr (Some (tr_initiator rc))"
  by (auto simp: taker_paid_def taker_address_def)

section \<open>The service\<close>

definition entry_ok :: "crypto \<Rightarrow> cs \<Rightarrow> nat \<Rightarrow> bool" where
  "entry_ok C s r \<longleftrightarrow>
     swap_ok C (swap_objs s r) \<and>
     sw_cleanup_func (swap_objs s r) = Some (sw_offer_id (swap_objs s r)) \<and>
     sw_auto_spawn_timeout (swap_objs s r) \<and>
     (sw_state (swap_objs s r) = Processed \<or>
      dict_get (sw_offer_id (swap_objs s r)) (swaps s) = Some r)"

definition cs_ok :: "crypto \<Rightarrow> cs \<Rightarrow> bool" where
  "cs_ok C s \<longleftrightarrow>
     dict_wf (swaps s) \<and>
     (\<forall>i r. dict_get i (swaps s) = Some r \<longrightarrow>
        r < next_swap s \<and> sw_offer_id (swap_objs s r) = i \<and> sw_state (swap_objs s r) \<noteq> Processed) \<and>
     (\<forall>r < next_swap s. entry_ok C s r) \<and>
     (\<forall>(sec, r) \<in> set (timers s). r < next_swap s)"

lemma cs_ok_entry: "cs_ok C s \<Longrightarrow> r < next_swap s \<Longrightarrow> entry_ok C s r"
  by (simp add: cs_ok_def)

lemma cs_ok_lookup:
  "cs_ok C s \<Longrightarrow> dict_get i (swaps s) = Some r \<Longrightarrow>
     r < next_swap s \<and> sw_offer_id (swap_objs s r) = i \<and> sw_state (swap_objs s r) \<noteq> Processed"
  by (simp add: cs_ok_def)

lemma cs_ok_live:
  "cs_ok C s \<Longrightarrow> r < next_swap s \<Longrightarrow> sw_state (swap_objs s r) \<noteq> Processed \<Longrightarrow> live r s"
  by (auto simp: cs_ok_def entry_ok_def live_def)

lemma cs_ok_swap: "cs_ok C s \<Longrightarrow> r < next_swap s \<Longrightarrow> swap_ok C (swap_objs s r)"
  by (simp add: cs_ok_def entry_ok_def)

text \<open>Parts of the state the invariant does not read.\<close>

lemma cs_ok_add_refund [simp]: "cs_ok C (add_refund rc fee s) = cs_ok C s"
  by (simp add: cs_ok_def entry_ok_def add_refund_def)

lemma cs_ok_post [simp]: "cs_ok C (post m e topic s) = cs_ok C s"
  by (simp add: cs_ok_def entry_ok_def post_def)

lemma cs_ok_msgs [simp]: "cs_ok C (s\<lparr>msg_objs := f, next_msg := n\<rparr>) = cs_ok C s"
  by (simp add: cs_ok_def entry_ok_def)

lemma cs_ok_queue [simp]: "cs_ok C (s\<lparr>message_queue := q\<rparr>) = cs_ok C s"
  by (simp add: cs_ok_def entry_ok_def)

lemma cs_ok_refund_queue [simp]: "cs_ok C (s\<lparr>refund_queue := q\<rparr>) = cs_ok C s"
  by (simp add: cs_ok_def entry_ok_def)

lemma cs_ok_msg_objs [simp]: "cs_ok C (s\<lparr>msg_objs := f\<rparr>) = cs_ok C s"
  by (simp add: cs_ok_def entry_ok_def)

lemma cs_ok_timer: "cs_ok C s \<Longrightarrow> r < next_swap s \<Longrightarrow> cs_ok C (s\<lparr>timers := timers s @ [(sec, r)]\<rparr>)"
  by (auto simp: cs_ok_def entry_ok_def)

lemma entry_ok_other:
  "swap_objs t q = swap_objs s q \<Longrightarrow>
   (sw_state (swap_objs s q) = Processed \<or>
     dict_get (sw_offer_id (swap_objs s q)) (swaps t) =
     dict_get (sw_offer_id (swap_objs s q)) (swaps s)) \<Longrightarrow>
   entry_ok C s q \<Longrightarrow> entry_ok C t q"
  by (auto simp: entry_ok_def)

lemma cs_ok_put:
  assumes "cs_ok C s" and "live r s" and "swap_ok C w" and "sw_state w \<noteq> Processed"
    and "sw_offer_id w = sw_offer_id (swap_objs s r)"
    and "sw_cleanup_func w = sw_cleanup_func (swap_objs s r)" and "sw_auto_spawn_timeout w"
  shows "cs_ok C (put_swap r w s)"
proof -
  have "entry_ok C (put_swap r w s) r"
    using assms(2-7) by (simp add: entry_ok_def put_swap_def live_def)
  moreover have "entry_ok C (put_swap r w s) q" if "q < next_swap s" "q \<noteq> r" for q
    using cs_ok_entry [OF assms(1) that(1)] that(2)
    by - (rule entry_ok_other [of _ q s], simp_all add: put_swap_def)
  ultimately have "\<forall>q < next_swap s. entry_ok C (put_swap r w s) q" by blast
  then show ?thesis using assms(1,4,5) by (simp add: cs_ok_def put_swap_def)
qed

lemma cs_ok_finish:
  assumes "cs_ok C s" and "live r s"
    and "swap_ok C (w\<lparr>sw_state := Processed, sw_terminated_state := Some how\<rparr>)"
    and "sw_offer_id w = sw_offer_id (swap_objs s r)"
    and "sw_cleanup_func w = sw_cleanup_func (swap_objs s r)" and "sw_auto_spawn_timeout w"
  shows "cs_ok C (finish r w how s)"
proof -
  let ?t = "finish r w how s"
  have "entry_ok C ?t r"
    using assms(2-6) by (simp add: entry_ok_def finish_def put_swap_def live_def)
  moreover have "entry_ok C ?t q" if "q < next_swap s" "q \<noteq> r" for q
    using cs_ok_entry [OF assms(1) that(1)] that(2) assms(2,4)
    by - (rule entry_ok_other [of _ q s], auto simp: finish_def put_swap_def entry_ok_def live_def)
  ultimately have "\<forall>q < next_swap s. entry_ok C ?t q" by blast
  moreover have "i \<noteq> sw_offer_id (swap_objs s r) \<Longrightarrow> dict_get i (swaps s) = Some q \<Longrightarrow> q \<noteq> r" for i q
    using assms(1) by (auto simp: cs_ok_def)
  ultimately show ?thesis using assms(1,4) by (simp add: cs_ok_def finish_def put_swap_def)
qed

lemma live_effects [simp]:
  "live r (add_refund rc fee s) = live r s" "live r (post m e topic s) = live r s"
  by (simp_all add: live_def add_refund_def post_def)

lemma effect_fields [simp]:
  "swap_objs (add_refund rc fee s) = swap_objs s" "swap_objs (post m e topic s) = swap_objs s"
  "next_swap (add_refund rc fee s) = next_swap s" "next_swap (post m e topic s) = next_swap s"
  "next_swap (put_swap r w s) = next_swap s" "swaps (put_swap r w s) = swaps s"
  "swap_objs (put_swap r w s) = (swap_objs s)(r := w)" "next_swap (finish r w how s) = next_swap s"
  by (simp_all add: effect_defs)

text \<open>A live swap and its invariant.\<close>

lemma live_facts:
  assumes "cs_ok C s" and "r < next_swap s" and "sw_state (swap_objs s r) \<noteq> Processed"
  shows "live r s" "swap_ok C (swap_objs s r)" "sw_auto_spawn_timeout (swap_objs s r)"
    "sw_cleanup_func (swap_objs s r) = Some (sw_offer_id (swap_objs s r))"
    "dict_get (sw_offer_id (swap_objs s r)) (swaps s) = Some r"
  using cs_ok_live [OF assms] cs_ok_swap [OF assms(1,2)] by (simp_all add: live_def)

lemma traded_swap_ok:
  assumes "swap_ok C w" and "sender C m = Inr a"
  shows
    "sw_state w = Wait_for_taker_execution \<Longrightarrow> taker_address C w = Inr (Some a) \<Longrightarrow>
      swap_ok C (w\<lparr>sw_taker_swap_execution_msg := Some m, sw_state := Processed,
        sw_terminated_state := Some Traded\<rparr>)"
    "sw_state w = Wait_for_maker_execution \<Longrightarrow> maker_address C w = Inr (Some a) \<Longrightarrow>
      swap_ok C (w\<lparr>sw_maker_swap_execution_msg := Some m, sw_state := Processed,
        sw_terminated_state := Some Traded\<rparr>)"
  using assms by (auto simp: swap_ok_defs taker_address_def maker_address_def)

lemma cs_ok_traded:
  assumes "cs_ok C s" and "live r s"
    and "swap_ok C (w\<lparr>sw_state := Processed, sw_terminated_state := Some Traded\<rparr>)"
    and "sw_offer_id w = sw_offer_id (swap_objs s r)"
    and "sw_cleanup_func w = sw_cleanup_func (swap_objs s r)" and "sw_auto_spawn_timeout w"
  shows "cs_ok C (traded t r w rm rt s)"
  unfolding traded_def using assms by (intro cs_ok_finish) simp_all

text \<open>A clock reading is a \<open>datetime\<close>.\<close>

definition clock_ok :: "datetime \<Rightarrow> bool" where
  "clock_ok now \<longleftrightarrow> datetime_min \<le> now \<and> now \<le> datetime_max"

lemma clock_time: "clock_ok now \<Longrightarrow> \<exists>t. time_now now = Inr t"
  by (auto simp: clock_ok_def time_now_def intro: dt_to_ms_defined)

lemma make_swap_ok:
  assumes "cs_ok C s" shows "cs_ok C (snd (make_swap C secret i s))"
proof (cases "id_collides i s")
  case True
  then show ?thesis using assms by (simp add: make_swap_def)
next
  case False
  let ?t = "snd (make_swap C secret i s)"
  have none: "dict_get i (swaps s) = None"
    using False by (simp add: id_collides_def dict_mem_def)
  have "entry_ok C ?t (next_swap s)"
    using False by (simp add: make_swap_def entry_ok_def swap_ok_init) (simp add: swap_init_def)
  moreover have "entry_ok C ?t q" if "q < next_swap s" for q
    using cs_ok_entry [OF assms that] that False none
    by - (rule entry_ok_other [of _ q s], auto simp: make_swap_def entry_ok_def)
  ultimately have "\<forall>q < next_swap ?t. entry_ok C ?t q"
    using False by (simp add: make_swap_def less_Suc_eq)
  moreover have "dict_get j (swaps ?t) = Some q \<Longrightarrow>
      q < next_swap ?t \<and> sw_offer_id (swap_objs ?t q) = j \<and> sw_state (swap_objs ?t q) \<noteq> Processed" for j q
    using cs_ok_lookup [OF assms, of j q] False
    by (auto simp: make_swap_def swap_init_def split: if_splits)
  moreover have "dict_wf (swaps ?t)" "\<forall>(sec, r) \<in> set (timers ?t). r < next_swap ?t"
    using assms False by (auto simp: make_swap_def cs_ok_def)
  ultimately show ?thesis unfolding cs_ok_def by blast
qed

end
