(* ===== verification/Swap_Effects.thy ===== *)
theory Swap_Effects
  imports Swap_Invariant
begin

text \<open>
  The outcomes an operation of a swap can have, as a relation: every operation has one of them
  in every state that satisfies the invariant, and what all operations keep is proved of the
  outcomes once. The relation carries the receipt that the step has disposed of.
\<close>

section \<open>The outcomes\<close>

inductive swap_effect ::
  "crypto \<Rightarrow> nat \<Rightarrow> cs \<Rightarrow> transfer_receipt multiset \<Rightarrow> cs \<Rightarrow> bool" for C r s where
  ef_none: "swap_effect C r s {#} s"
| ef_uncommitted: "sw_state (swap_objs s r) \<in> {Initializing, Wait_for_maker} \<Longrightarrow>
    swap_effect C r s {#} (finish r (swap_objs s r) Uncommitted s)"
| ef_untraded: "sw_state (swap_objs s r) = Wait_for_taker \<Longrightarrow>
    sw_maker_transfer_receipt (swap_objs s r) = Some rc \<Longrightarrow>
    swap_effect C r s {#} (finish r (swap_objs s r) Untraded
      (post (CancellationProof (sw_offer_id (swap_objs s r)) None None)
        (sw_maker_commitment_proof (swap_objs s r)) (Some (tr_initiator rc))
        (add_refund rc False s)))"
| ef_failed: "sw_state (swap_objs s r) \<in>
      {Wait_for_execution, Wait_for_taker_execution, Wait_for_maker_execution} \<Longrightarrow>
    swap_effect C r s {#} (finish r (swap_objs s r) Failed s)"
| ef_committed: "sw_state (swap_objs s r) = Initializing \<Longrightarrow>
    ts = timers s \<or> (\<exists>sec. ts = timers s @ [(sec, r)]) \<Longrightarrow>
    swap_effect C r s {#}
      ((put_swap r ((swap_objs s r)\<lparr>sw_state := Wait_for_maker,
          sw_maker_commitment_msg := Some m\<rparr>) s)\<lparr>timers := ts\<rparr>)"
| ef_pool: "sw_state (swap_objs s r) = Wait_for_taker \<Longrightarrow> sender C m = Inr a \<Longrightarrow>
    swap_effect C r s {#}
      (put_swap r ((swap_objs s r)\<lparr>sw_taker_commitment_pool :=
         dict_set a m (sw_taker_commitment_pool (swap_objs s r))\<rparr>) s)"
| ef_maker_paid: "sw_state (swap_objs s r) = Wait_for_maker \<Longrightarrow>
    sw_maker_commitment_msg (swap_objs s r) = Some m \<Longrightarrow> sender C m = Inr (tr_initiator rc) \<Longrightarrow>
    swap_effect C r s {#rc#}
      (post (CommitmentProof (m_signature m) (sw_secret (swap_objs s r))
          (sw_secret_hash (swap_objs s r)) (sw_offer_id (swap_objs s r)) None) None
          (Some (tr_initiator rc))
        (put_swap r ((swap_objs s r)\<lparr>sw_state := Wait_for_taker,
           sw_maker_transfer_receipt := Some rc,
           sw_maker_commitment_proof := Some (next_msg s)\<rparr>) s))"
| ef_taker_paid: "sw_state (swap_objs s r) = Wait_for_taker \<Longrightarrow>
    dict_get (tr_initiator rc) (sw_taker_commitment_pool (swap_objs s r)) = Some m \<Longrightarrow>
    sender C m = Inr (tr_initiator rc) \<Longrightarrow>
    swap_effect C r s {#rc#}
      (post (CommitmentProof (m_signature m) (sw_secret (swap_objs s r))
          (sw_secret_hash (swap_objs s r)) (sw_offer_id (swap_objs s r)) None) None
          (Some (tr_initiator rc))
        (post (OfferTaken (sw_offer_id (swap_objs s r)) None) None None
          (put_swap r ((swap_objs s r)\<lparr>sw_state := Wait_for_execution,
             sw_taker_commitment_msg := Some m, sw_taker_transfer_receipt := Some rc\<rparr>) s)))"
| ef_refused: "sw_state (swap_objs s r) \<notin> {Initializing, Processed} \<Longrightarrow>
    swap_effect C r s {#rc#} (add_refund rc False s)"
| ef_maker_executed: "sw_state (swap_objs s r) = Wait_for_execution \<Longrightarrow>
    sw_maker_transfer_receipt (swap_objs s r) = Some rm \<Longrightarrow> sender C m = Inr (tr_initiator rm) \<Longrightarrow>
    swap_effect C r s {#}
      (put_swap r ((swap_objs s r)\<lparr>sw_state := Wait_for_taker_execution,
         sw_maker_swap_execution_msg := Some m\<rparr>) s)"
| ef_taker_executed: "sw_state (swap_objs s r) = Wait_for_execution \<Longrightarrow>
    sw_taker_transfer_receipt (swap_objs s r) = Some rt \<Longrightarrow> sender C m = Inr (tr_initiator rt) \<Longrightarrow>
    swap_effect C r s {#}
      (put_swap r ((swap_objs s r)\<lparr>sw_state := Wait_for_maker_execution,
         sw_taker_swap_execution_msg := Some m\<rparr>) s)"
| ef_traded: "sw_maker_transfer_receipt (swap_objs s r) = Some rm \<Longrightarrow>
    sw_taker_transfer_receipt (swap_objs s r) = Some rt \<Longrightarrow>
    sw_state (swap_objs s r) = Wait_for_taker_execution \<and> sender C m = Inr (tr_initiator rt) \<and>
      w = (swap_objs s r)\<lparr>sw_taker_swap_execution_msg := Some m\<rparr> \<or>
    sw_state (swap_objs s r) = Wait_for_maker_execution \<and> sender C m = Inr (tr_initiator rm) \<and>
      w = (swap_objs s r)\<lparr>sw_maker_swap_execution_msg := Some m\<rparr> \<Longrightarrow>
    swap_effect C r s {#} (traded t r w rm rt s)"

inductive_cases swap_effect_E: "swap_effect C r s l t"

section \<open>The operations have these outcomes\<close>

lemma put_swap_timers [simp]: "(put_swap r w s)\<lparr>timers := timers s\<rparr> = put_swap r w s"
  by (simp add: put_swap_def)

lemma swap_state_cases:
  assumes "swap_ok C w" and "sw_state w \<noteq> Processed"
  obtains "sw_state w = Initializing" | "sw_state w = Wait_for_maker" | "sw_state w = Wait_for_taker"
    | "sw_state w = Wait_for_execution" | "sw_state w = Wait_for_taker_execution"
    | "sw_state w = Wait_for_maker_execution"
  using assms by (cases "sw_state w") (auto simp: swap_ok_def)

lemma timeout_effect:
  assumes "cs_ok C s" and "r < next_swap s"
  shows "swap_effect C r s {#} (snd (fire C now E_timeout no_data r s))"
proof (cases "sw_state (swap_objs s r) = Processed")
  case True
  then have "fire C now E_timeout no_data r s = (Inl MachineError, s)"
    by (intro not_accepted) (simp add: accepts_def)
  then show ?thesis by (simp add: ef_none)
next
  case False
  note f = live_facts [OF assms False]
  from f(2) False show ?thesis
  proof (cases rule: swap_state_cases)
    case 3
    then have "maker_paid C (swap_objs s r)" using f(2) by (simp add: swap_ok_def)
    then obtain rc where "sw_maker_transfer_receipt (swap_objs s r) = Some rc"
      "maker_address C (swap_objs s r) = Inr (Some (tr_initiator rc))"
      using maker_paid_address by blast
    then show ?thesis using f(1) 3 by (simp add: timeout_untraded ef_untraded)
  qed (simp_all add: timeout_uncommitted [OF f(1)] timeout_failed [OF f(1)] ef_uncommitted ef_failed)
qed

lemma maker_commitment_effect:
  assumes "cs_ok C s" and "r < next_swap s"
  shows "swap_effect C r s {#} (snd (hand_maker_commitment_msg C now m r s))"
proof (cases "sw_state (swap_objs s r) = Initializing")
  case False
  then show ?thesis
    by (simp add: hand_maker_commitment_msg_def not_accepted accepts_def ef_none)
next
  case True
  have "sw_auto_spawn_timeout (swap_objs s r)" using live_facts(3) [OF assms] True by simp
  then show ?thesis
    using maker_commitment_step [of s r] True ef_committed [OF True]
      ef_committed [OF True, of "timers s"]
    by (auto simp: Let_def split: sum.split)
qed

lemma taker_commitment_effect:
  assumes "cs_ok C s" and "r < next_swap s"
  shows "swap_effect C r s {#} (snd (hand_taker_commitment_msg C now m r s))"
proof (cases "sw_state (swap_objs s r) = Wait_for_taker")
  case False
  then show ?thesis
    by (simp add: hand_taker_commitment_msg_def not_accepted accepts_def ef_none)
next
  case True
  then show ?thesis
    by (simp add: taker_commitment_step [OF True] ef_none ef_pool split: sum.split)
qed

lemma receipt_effect:
  assumes "cs_ok C s" and "r < next_swap s" and "hand_transfer_receipt C now rc r s = (x, t)"
  shows "swap_effect C r s (case x of Inl _ \<Rightarrow> {#} | Inr _ \<Rightarrow> {#rc#}) t"
proof (cases "sw_state (swap_objs s r) \<in> {Initializing, Processed}")
  case True
  then have "hand_transfer_receipt C now rc r s = (Inl MachineError, s)"
    unfolding hand_transfer_receipt_def by (intro not_accepted) (auto simp: accepts_def)
  then show ?thesis using assms(3) by (simp add: ef_none)
next
  case False
  then have np: "sw_state (swap_objs s r) \<noteq> Processed" by simp
  note f = live_facts [OF assms(1,2) np]
  from f(2) np show ?thesis
  proof (cases rule: swap_state_cases)
    case 1
    then show ?thesis using False by simp
  next
    case 2
    then obtain m where m: "sw_maker_commitment_msg (swap_objs s r) = Some m"
      using f(2) by (auto simp: swap_ok_def)
    show ?thesis using assms(3) receipt_maker_step [OF 2 m, of C now rc] 2
      by (auto simp: ef_none ef_refused intro: ef_maker_paid [OF 2 m] split: sum.splits if_splits)
  next
    case 3
    then show ?thesis
      using assms(3) f(2) ef_refused [of s r C rc] ef_taker_paid [OF 3, of rc _ C]
      by (auto simp: receipt_taker_step [OF 3] Let_def swap_ok_def pool_ok_def
          split: option.splits)
  qed (use assms(3) in \<open>auto simp: receipt_late_step ef_refused\<close>)
qed

lemma execution_effect:
  assumes "cs_ok C s" and "r < next_swap s" and "clock_ok now"
  shows "swap_effect C r s {#} (snd (hand_swap_execution_msg C now m r s))"
proof (cases "sw_state (swap_objs s r) \<in>
    {Wait_for_execution, Wait_for_taker_execution, Wait_for_maker_execution}")
  case False
  then have "\<not> accepts (sw_state (swap_objs s r)) E_swap_execution_msg"
    by (auto simp: accepts_def)
  then show ?thesis by (simp add: hand_swap_execution_msg_def not_accepted ef_none)
next
  case True
  let ?w = "swap_objs s r"
  have np: "sw_state ?w \<noteq> Processed" using True by auto
  note f = live_facts [OF assms(1,2) np]
  have mp: "maker_paid C ?w" and tp: "taker_paid C ?w"
    using f(2) True by (auto simp: swap_ok_def)
  obtain rm where rm: "sw_maker_transfer_receipt ?w = Some rm"
      "maker_address C ?w = Inr (Some (tr_initiator rm))" using maker_paid_address [OF mp] by blast
  obtain rt where rt: "sw_taker_transfer_receipt ?w = Some rt"
      "taker_address C ?w = Inr (Some (tr_initiator rt))" using taker_paid_address [OF tp] by blast
  obtain t where t: "time_now now = Inr t" using clock_time [OF assms(3)] by blast
  consider "sw_state ?w = Wait_for_execution" | "sw_state ?w = Wait_for_taker_execution"
    | "sw_state ?w = Wait_for_maker_execution" using True by auto
  then show ?thesis
  proof cases
    case 1
    then show ?thesis
      by (simp add: execution_first_step [OF 1 rm(2) rt(2)] ef_none msg_party_sender
          ef_maker_executed [OF 1 rm(1)] ef_taker_executed [OF 1 rt(1)] split: sum.split)
  next
    case 2
    then show ?thesis
      by (auto simp: execution_taker_step [OF f(1) 2 rt(2) rm(1) rt(1) t] ef_none msg_party_sender
          intro!: ef_traded [OF rm(1) rt(1)] split: sum.split)
  next
    case 3
    then show ?thesis
      by (auto simp: execution_maker_step [OF f(1) 3 rm(2) rm(1) rt(1) t] ef_none msg_party_sender
          intro!: ef_traded [OF rm(1) rt(1)] split: sum.split)
  qed
qed

section \<open>Every outcome keeps the invariant\<close>

lemma effect_ok:
  assumes "swap_effect C r s l t" and "cs_ok C s" and "r < next_swap s"
    and "sw_state (swap_objs s r) \<noteq> Processed"
  shows "cs_ok C t"
proof -
  note f = live_facts [OF assms(2-4)]
  note put = cs_ok_put [OF assms(2) f(1)] and fin = cs_ok_finish [OF _ _ _ _ _ f(3)]
  from assms(1) show ?thesis
  proof cases
    case ef_none
    then show ?thesis using assms(2) by simp
  next
    case ef_uncommitted
    then show ?thesis using f(2) assms(2)
      by (auto simp: swap_ok_defs intro!: fin [OF _ f(1)])
  next
    case (ef_untraded rc)
    then show ?thesis using f(2) assms(2) f(1)
      by (auto simp: swap_ok_defs intro!: fin)
  next
    case ef_failed
    then show ?thesis using f(2) assms(2)
      by (auto simp: swap_ok_defs intro!: fin [OF _ f(1)])
  next
    case (ef_committed ts m)
    let ?t = "put_swap r ((swap_objs s r)\<lparr>sw_state := Wait_for_maker,
        sw_maker_commitment_msg := Some m\<rparr>) s"
    have ok: "cs_ok C ?t" using f ef_committed(3) by (intro put) (simp_all add: swap_ok_defs)
    have "timers ?t = timers s" by (simp add: put_swap_def)
    then show ?thesis using ef_committed(2,4) cs_ok_timer [OF ok, of r] ok assms(3)
      by (auto simp: put_swap_def)
  next
    case (ef_pool m a)
    then show ?thesis using f by (auto simp: swap_ok_defs intro!: put)
  next
    case (ef_maker_paid m rc)
    then show ?thesis using f by (auto simp: swap_ok_defs intro!: put)
  next
    case (ef_taker_paid rc m)
    then show ?thesis using f by (auto simp: swap_ok_defs intro!: put)
  next
    case (ef_refused rc)
    then show ?thesis using assms(2) by simp
  next
    case (ef_maker_executed rm m)
    then show ?thesis using f by (auto simp: swap_ok_defs intro!: put)
  next
    case (ef_taker_executed rt m)
    then show ?thesis using f by (auto simp: swap_ok_defs intro!: put)
  next
    case (ef_traded rm rt m w t)
    have a: "maker_address C (swap_objs s r) = Inr (Some (tr_initiator rm))"
      "taker_address C (swap_objs s r) = Inr (Some (tr_initiator rt))"
      using f(2) ef_traded(3-5) by (auto simp: swap_ok_defs maker_address_def taker_address_def)
    have "swap_ok C (w\<lparr>sw_state := Processed, sw_terminated_state := Some Traded\<rparr>)"
      using ef_traded(5) traded_swap_ok [OF f(2)] a by auto
    then have "cs_ok C (traded t r w rm rt s)"
      using ef_traded(5) f by (intro cs_ok_traded [OF assms(2) f(1)]) auto
    then show ?thesis using ef_traded by simp
  qed
qed

lemma effect_cs_ok:
  assumes "swap_effect C r s l t" and "cs_ok C s" and "r < next_swap s"
  shows "cs_ok C t"
proof (cases "sw_state (swap_objs s r) = Processed")
  case False
  with assms show ?thesis by (rule effect_ok)
next
  case True
  with assms(1) have "t = s" by cases auto
  then show ?thesis using assms(2) by simp
qed

lemma timeout_ok:
  "cs_ok C s \<Longrightarrow> r < next_swap s \<Longrightarrow> cs_ok C (snd (fire C now E_timeout no_data r s))"
  by (rule effect_cs_ok [OF timeout_effect])

lemma maker_commitment_ok:
  "cs_ok C s \<Longrightarrow> r < next_swap s \<Longrightarrow> cs_ok C (snd (hand_maker_commitment_msg C now m r s))"
  by (rule effect_cs_ok [OF maker_commitment_effect])

lemma taker_commitment_ok:
  "cs_ok C s \<Longrightarrow> r < next_swap s \<Longrightarrow> cs_ok C (snd (hand_taker_commitment_msg C now m r s))"
  by (rule effect_cs_ok [OF taker_commitment_effect])

lemma execution_ok:
  "cs_ok C s \<Longrightarrow> r < next_swap s \<Longrightarrow> clock_ok now \<Longrightarrow> cs_ok C (snd (hand_swap_execution_msg C now m r s))"
  by (rule effect_cs_ok [OF execution_effect])

lemma receipt_ok:
  "cs_ok C s \<Longrightarrow> r < next_swap s \<Longrightarrow> cs_ok C (snd (hand_transfer_receipt C now rc r s))"
  by (cases "hand_transfer_receipt C now rc r s") (auto intro: effect_cs_ok dest: receipt_effect)

end
