(* ===== verification/Commitment_Service.thy ===== *)
theory Commitment_Service
  imports Swap_Effects
begin

text \<open>
  \<open>commitment_service/tasks.py\<close>, \<open>commitment_service/node.py\<close>: the tasks of a commitment service,
  what each does with one entry of its queue, and the service as the interleaving of its tasks,
  its timers and the transfers in flight. A task whose \<open>process\<close> raises has ended and takes no
  further entries.
\<close>

section \<open>The tasks\<close>

text \<open>The classes with an \<open>offer_id\<close> attribute.\<close>

definition has_offer_id :: "message \<Rightarrow> bool" where
  "has_offer_id m \<longleftrightarrow>
     class_of m \<notin> {C_ProvenOffer, C_ProvenCommitment, C_CommitmentServiceAdvertisement}"

definition transfer_received_process ::
  "crypto \<Rightarrow> datetime \<Rightarrow> transfer_receipt \<Rightarrow> (cs, unit) prog" where
  "transfer_received_process C now rc =
     seq (get_state (\<lambda>s. dict_get (tr_identifier rc) (swaps s))) (\<lambda>sw.
       case sw of
         Some r \<Rightarrow> seq (hand_transfer_receipt C now rc r) (\<lambda>_. return ())
       | None \<Rightarrow> return ())"

definition cancellation_request_process ::
  "crypto \<Rightarrow> datetime \<Rightarrow> message \<Rightarrow> (cs, unit) prog" where
  "cancellation_request_process C now m =
     (if \<not> has_offer_id m then throw ValueError
      else if \<not> is_instance m C_Cancellation then throw ValueError
      else seq (get_state (\<lambda>s. dict_get (m_offer_id m) (swaps s))) (\<lambda>sw.
        case sw of
          Some r \<Rightarrow> seq (hand_cancellation_msg C now r) (\<lambda>_. return ())
        | None \<Rightarrow> return ()))"

definition commitment_process ::
  "crypto \<Rightarrow> datetime \<Rightarrow> bytes \<Rightarrow> message \<Rightarrow> (cs, unit) prog" where
  "commitment_process C now secret m =
     (if \<not> has_offer_id m then throw ValueError
      else if \<not> is_instance m C_Commitment then throw ValueError
      else seq (get_state (\<lambda>s. dict_get (m_offer_id m) (swaps s))) (\<lambda>sw.
        case sw of
          Some r \<Rightarrow> seq (hand_taker_commitment_msg C now m r) (\<lambda>_. return ())
        | None \<Rightarrow>
            seq (make_swap C secret (m_offer_id m)) (\<lambda>sw.
              case sw of
                Some r \<Rightarrow> seq (hand_maker_commitment_msg C now m r) (\<lambda>_. return ())
              | None \<Rightarrow> return ())))"

definition swap_execution_process :: "crypto \<Rightarrow> datetime \<Rightarrow> message \<Rightarrow> (cs, unit) prog" where
  "swap_execution_process C now m =
     (if \<not> has_offer_id m then throw ValueError
      else if \<not> is_instance m C_SwapExecution then throw ValueError
      else seq (get_state (\<lambda>s. dict_get (m_offer_id m) (swaps s))) (\<lambda>sw.
        case sw of
          Some r \<Rightarrow> seq (hand_swap_execution_msg C now m r) (\<lambda>_. return ())
        | None \<Rightarrow> return ()))"

text \<open>
  The content of a message object: what a cancellation proof embeds is read through the
  reference. \<open>process_message\<close> is \<open>MessageSenderTask.process\<close>: sign the object in place, then
  hand it to the broker, for everybody when there is no recipient.
\<close>

definition msg_content :: "cs \<Rightarrow> nat \<Rightarrow> message" where
  "msg_content s m =
     (case (embedded (msg_objs s m), content (msg_objs s m)) of
        (Some p, CancellationProof i _ sg) \<Rightarrow>
          CancellationProof i (Some (content (msg_objs s p))) sg
      | (_, x) \<Rightarrow> x)"

definition sign_obj :: "crypto \<Rightarrow> bytes \<Rightarrow> nat \<Rightarrow> (cs, unit) prog" where
  "sign_obj C privkey m s =
     (case sign C privkey \<lparr>content = msg_content s m, is_mutable = is_mutable (msg_objs s m)\<rparr> of
        Inl e \<Rightarrow> (Inl e, s)
      | Inr ob \<Rightarrow> (Inr (), s\<lparr>msg_objs := (msg_objs s)(m :=
          \<lparr>content = content ob, is_mutable = is_mutable ob, embedded = embedded (msg_objs s m)\<rparr>)\<rparr>))"

definition sender_process ::
  "crypto \<Rightarrow> bytes \<Rightarrow> nat \<times> bytes option \<Rightarrow> (cs, message \<times> bytes option) prog" where
  "sender_process C privkey entry =
     (case entry of (m, recipient) \<Rightarrow>
        seq (sign_obj C privkey m) (\<lambda>_. get_state (\<lambda>s. (msg_content s m, recipient))))"

section \<open>The service\<close>

record service =
  sv_cs :: cs
  sv_refunds :: refund_state
  sv_outbox :: "(message \<times> bytes option) list"
  sv_commitment_alive :: bool
  sv_cancellation_alive :: bool
  sv_execution_alive :: bool
  sv_transfer_alive :: bool
  sv_sender_alive :: bool

text \<open>The parameters a service is built with: key, fee rate, token the deposits are in.\<close>

record service_config =
  cf_crypto :: crypto
  cf_privkey :: bytes
  cf_fee_rate :: "num option"
  cf_token :: bytes

definition blank_swap :: swap where
  "blank_swap =
     \<lparr>sw_offer_id = 0, sw_cleanup_func = None, sw_auto_spawn_timeout = True,
      sw_maker_commitment_msg = None, sw_taker_commitment_msg = None,
      sw_maker_commitment_proof = None, sw_maker_swap_execution_msg = None,
      sw_taker_swap_execution_msg = None, sw_maker_transfer_receipt = None,
      sw_taker_transfer_receipt = None, sw_terminated_state = None, sw_secret = [],
      sw_secret_hash = [], sw_state = Initializing, sw_taker_commitment_pool = []\<rparr>"

definition cs_start :: cs where
  "cs_start =
     \<lparr>swap_objs = (\<lambda>_. blank_swap), next_swap = 0, swaps = [], refund_queue = {#},
      msg_objs = (\<lambda>_. \<lparr>content = OfferTaken 0 None, is_mutable = True, embedded = None\<rparr>),
      next_msg = 0, message_queue = [], timers = []\<rparr>"

definition service_start :: service where
  "service_start =
     \<lparr>sv_cs = cs_start, sv_refunds = refund_start, sv_outbox = [], sv_commitment_alive = True,
      sv_cancellation_alive = True, sv_execution_alive = True, sv_transfer_alive = True,
      sv_sender_alive = True\<rparr>"

definition ok_result :: "'a res \<Rightarrow> bool" where
  "ok_result r = (case r of Inl _ \<Rightarrow> False | Inr _ \<Rightarrow> True)"

text \<open>
  One step of the service, with the receipts that a swap was handed in it (a multiset of at most
  one): \<open>TransferReceivedTask\<close> hands a receipt to the swap under its identifier, also when the swap
  then raises, and to nobody when there is none. The refund task works on the queue of the service.
\<close>

definition refund_view :: "service \<Rightarrow> refund_state" where
  "refund_view s = (sv_refunds s)\<lparr>rq := refund_queue (sv_cs s)\<rparr>"

definition put_refunds :: "refund_state \<Rightarrow> service \<Rightarrow> service" where
  "put_refunds t s =
     s\<lparr>sv_cs := (sv_cs s)\<lparr>refund_queue := rq t\<rparr>, sv_refunds := t\<lparr>rq := {#}\<rparr>\<rparr>"

inductive service_step ::
  "service_config \<Rightarrow> service \<Rightarrow> transfer_receipt multiset \<Rightarrow> service \<Rightarrow> bool" for K where
  st_commitment:
    "sv_commitment_alive s \<Longrightarrow> clock_ok now \<Longrightarrow>
     commitment_process (cf_crypto K) now secret m (sv_cs s) = (x, c) \<Longrightarrow>
     service_step K s {#} (s\<lparr>sv_cs := c, sv_commitment_alive := ok_result x\<rparr>)"
| st_cancellation:
    "sv_cancellation_alive s \<Longrightarrow> clock_ok now \<Longrightarrow>
     cancellation_request_process (cf_crypto K) now m (sv_cs s) = (x, c) \<Longrightarrow>
     service_step K s {#} (s\<lparr>sv_cs := c, sv_cancellation_alive := ok_result x\<rparr>)"
| st_execution:
    "sv_execution_alive s \<Longrightarrow> clock_ok now \<Longrightarrow>
     swap_execution_process (cf_crypto K) now m (sv_cs s) = (x, c) \<Longrightarrow>
     service_step K s {#} (s\<lparr>sv_cs := c, sv_execution_alive := ok_result x\<rparr>)"
| st_transfer:
    "sv_transfer_alive s \<Longrightarrow> clock_ok now \<Longrightarrow>
     transfer_received_process (cf_crypto K) now rc (sv_cs s) = (x, c) \<Longrightarrow>
     acc = (if dict_mem (tr_identifier rc) (swaps (sv_cs s)) then {#rc#} else {#}) \<Longrightarrow>
     service_step K s acc (s\<lparr>sv_cs := c, sv_transfer_alive := ok_result x\<rparr>)"
| st_timer:
    "timers (sv_cs s) = before @ (sec, r) # after \<Longrightarrow> clock_ok now \<Longrightarrow>
     trigger_timeout (cf_crypto K) now r ((sv_cs s)\<lparr>timers := before @ after\<rparr>) = (x, c) \<Longrightarrow>
     service_step K s {#} (s\<lparr>sv_cs := c\<rparr>)"
| st_send:
    "sv_sender_alive s \<Longrightarrow> message_queue (sv_cs s) = entry # rest \<Longrightarrow>
     sender_process (cf_crypto K) (cf_privkey K) entry ((sv_cs s)\<lparr>message_queue := rest\<rparr>) = (x, c) \<Longrightarrow>
     service_step K s {#} (s\<lparr>sv_cs := c, sv_sender_alive := ok_result x,
       sv_outbox := sv_outbox s @ (case x of Inl _ \<Rightarrow> [] | Inr out \<Rightarrow> [out])\<rparr>)"
| st_refund:
    "refund_step (cf_fee_rate K) (cf_token K) (refund_view s) t \<Longrightarrow>
     service_step K s {#} (put_refunds t s)"

inductive_cases service_step_E: "service_step K s acc t"

text \<open>The states a service can reach, with all the receipts its swaps were handed.\<close>

inductive service_run ::
  "service_config \<Rightarrow> transfer_receipt multiset \<Rightarrow> service \<Rightarrow> bool" for K where
  run_start: "service_run K {#} service_start"
| run_step: "service_run K rs s \<Longrightarrow> service_step K s acc t \<Longrightarrow> service_run K (rs + acc) t"

section \<open>The invariant of the swaps in every reachable state\<close>

lemma cs_start_ok: "cs_ok C cs_start"
  by (simp add: cs_ok_def cs_start_def)

lemma preserves_known [preserves_intros]:
  assumes "\<And>r s. cs_ok C s \<Longrightarrow> r < next_swap s \<Longrightarrow> cs_ok C (snd (f r s))"
  shows "preserves (cs_ok C)
    (seq (get_state (\<lambda>s. dict_get i (swaps s))) (\<lambda>sw. case sw of
        Some r \<Rightarrow> seq (f r) (\<lambda>_. return ()) | None \<Rightarrow> return ()))"
proof (rule preservesI)
  fix s assume ok: "cs_ok C s"
  show "cs_ok C (snd (seq (get_state (\<lambda>s. dict_get i (swaps s))) (\<lambda>sw. case sw of
        Some r \<Rightarrow> seq (f r) (\<lambda>_. return ()) | None \<Rightarrow> return ()) s))"
  proof (cases "dict_get i (swaps s)")
    case None
    then show ?thesis using ok by (simp add: prog_simps)
  next
    case (Some r)
    then have "cs_ok C (snd (f r s))" using assms ok cs_ok_lookup by blast
    with Some show ?thesis by (simp add: seq_apply [of "get_state _"] get_state_apply seq_unit)
  qed
qed

lemma transfer_preserves: "preserves (cs_ok C) (transfer_received_process C now rc)"
  unfolding transfer_received_process_def by (intro preserves_known receipt_ok)

lemma cancellation_preserves: "preserves (cs_ok C) (cancellation_request_process C now m)"
  unfolding cancellation_request_process_def hand_cancellation_msg_def
  by (intro preserves_if preserves_throw preserves_known timeout_ok)

lemma execution_preserves:
  "clock_ok now \<Longrightarrow> preserves (cs_ok C) (swap_execution_process C now m)"
  unfolding swap_execution_process_def
  by (intro preserves_if preserves_throw preserves_known execution_ok)

lemma commitment_known:
  "dict_get (m_offer_id m) (swaps s) = Some r \<Longrightarrow> class_of m = C_Commitment \<Longrightarrow>
   commitment_process C now secret m s =
     seq (hand_taker_commitment_msg C now m r) (\<lambda>_. return ()) s"
  by (simp add: commitment_process_def has_offer_id_def is_instance_leaf prog_simps)

lemma commitment_new:
  "dict_get (m_offer_id m) (swaps s) = None \<Longrightarrow> class_of m = C_Commitment \<Longrightarrow>
   commitment_process C now secret m s =
     seq (hand_maker_commitment_msg C now m (next_swap s)) (\<lambda>_. return ())
       (snd (make_swap C secret (m_offer_id m) s))"
  by (simp add: commitment_process_def has_offer_id_def is_instance_leaf prog_simps make_swap_def
      id_collides_def dict_mem_def)

lemma commitment_wrong:
  "class_of m \<noteq> C_Commitment \<Longrightarrow> commitment_process C now secret m s = (Inl ValueError, s)"
  by (simp add: commitment_process_def is_instance_leaf prog_simps)

lemma commitment_preserves: "preserves (cs_ok C) (commitment_process C now secret m)"
proof (rule preservesI)
  fix s assume ok: "cs_ok C s"
  show "cs_ok C (snd (commitment_process C now secret m s))"
  proof (cases "class_of m = C_Commitment")
    case False
    then show ?thesis using ok by (simp add: commitment_wrong)
  next
    case cls: True
    show ?thesis
    proof (cases "dict_get (m_offer_id m) (swaps s)")
      case None
      let ?t = "snd (make_swap C secret (m_offer_id m) s)"
      have "cs_ok C ?t" using ok by (rule make_swap_ok)
      moreover have "next_swap s < next_swap ?t"
        using None by (simp add: make_swap_def id_collides_def dict_mem_def)
      ultimately have "cs_ok C (snd (hand_maker_commitment_msg C now m (next_swap s) ?t))"
        by (rule maker_commitment_ok)
      then show ?thesis using None cls
        by (simp add: commitment_new seq_unit)
    next
      case (Some r)
      then have "cs_ok C (snd (hand_taker_commitment_msg C now m r s))"
        using ok cs_ok_lookup by (intro taker_commitment_ok) blast+
      then show ?thesis using Some cls
        by (simp add: commitment_known seq_unit)
    qed
  qed
qed

lemma sender_preserves: "preserves (cs_ok C) (sender_process C' privkey entry)"
  by (rule preservesI)
     (simp add: sender_process_def sign_obj_def prog_simps split: prod.split sum.split)

lemma timers_subset_ok:
  "cs_ok C s \<Longrightarrow> set ts \<subseteq> set (timers s) \<Longrightarrow> cs_ok C (s\<lparr>timers := ts\<rparr>)"
  by (auto simp: cs_ok_def entry_ok_def)

lemma service_step_ok:
  assumes "service_step K s acc t" and "cs_ok (cf_crypto K) (sv_cs s)"
  shows "cs_ok (cf_crypto K) (sv_cs t)"
  using assms(1)
proof (cases rule: service_step.cases)
  case (st_commitment now secret m x c)
  then show ?thesis using preservesD [OF commitment_preserves assms(2)] by simp
next
  case (st_cancellation now m x c)
  then show ?thesis using preservesD [OF cancellation_preserves assms(2)] by simp
next
  case (st_execution now m x c)
  then show ?thesis using preservesD [OF execution_preserves assms(2)] by simp
next
  case (st_transfer now rc x c)
  then show ?thesis using preservesD [OF transfer_preserves assms(2)] by simp
next
  case (st_timer before sec r after now x c)
  let ?s = "(sv_cs s)\<lparr>timers := before @ after\<rparr>"
  have "r < next_swap (sv_cs s)" using assms(2) st_timer(3) by (simp add: cs_ok_def)
  moreover have "cs_ok (cf_crypto K) ?s" using assms(2) st_timer(3) by (intro timers_subset_ok) auto
  ultimately have "cs_ok (cf_crypto K) (snd (trigger_timeout (cf_crypto K) now r ?s))"
    unfolding trigger_timeout_def by (intro timeout_ok) simp_all
  then show ?thesis using st_timer by simp
next
  case (st_send entry rest x c)
  have "cs_ok (cf_crypto K) ((sv_cs s)\<lparr>message_queue := rest\<rparr>)" using assms(2) by simp
  then show ?thesis using preservesD [OF sender_preserves] st_send by fastforce
next
  case (st_refund u)
  then show ?thesis using assms(2) by (simp add: put_refunds_def)
qed

interpretation service_system: step_system service_start "\<lambda>s t. \<exists>acc. service_step K s acc t"
  "\<lambda>s. cs_ok (cf_crypto K) (sv_cs s)" for K
  by unfold_locales (auto simp: service_start_def cs_start_ok intro: service_step_ok)

lemma run_reachable:
  "service_run K rs s \<Longrightarrow> reachable_from (\<lambda>s t. \<exists>acc. service_step K s acc t) service_start s"
  by (induction rule: service_run.induct) (auto intro: reachable_from.intros)

lemma run_cs_ok: "service_run K rs s \<Longrightarrow> cs_ok (cf_crypto K) (sv_cs s)"
  by (rule service_system.inv_reachable [OF run_reachable])

end
