(* ===== verification/Deposits.thy ===== *)
theory Deposits
  imports Commitment_Service
begin

text \<open>
  Two views of the commitment service that its users depend on. The account of deposits: every
  receipt a swap was handed is either held by a swap or is in exactly one refund. And the deal:
  the abstract life of a swap (nobody has paid, the maker has, both have, one has executed,
  ended), which every step of the service refines.
\<close>

section \<open>The account of deposits\<close>

definition opt_mset :: "'a option \<Rightarrow> 'a multiset" where
  "opt_mset x = (case x of None \<Rightarrow> {#} | Some y \<Rightarrow> {#y#})"

text \<open>The receipts a swap holds: none when it ended, but for the punishment of a failed one.\<close>

definition held :: "swap \<Rightarrow> transfer_receipt multiset" where
  "held w =
     (if sw_state w = Processed \<and> sw_terminated_state w \<noteq> Some Failed then {#}
      else opt_mset (sw_maker_transfer_receipt w) + opt_mset (sw_taker_transfer_receipt w))"

definition held_by_swaps :: "cs \<Rightarrow> transfer_receipt multiset" where
  "held_by_swaps s = (\<Sum>r<next_swap s. held (swap_objs s r))"

definition deposits :: "cs \<Rightarrow> transfer_receipt multiset" where
  "deposits s = held_by_swaps s + image_mset rf_receipt (refund_queue s)"

lemma opt_mset_simps [simp]: "opt_mset None = {#}" "opt_mset (Some y) = {#y#}"
  by (simp_all add: opt_mset_def)

lemma held_update:
  fixes f :: "nat \<Rightarrow> swap"
  assumes "r < n" and "held w = held (f r) + d"
  shows "(\<Sum>q<n. held ((f(r := w)) q)) = (\<Sum>q<n. held (f q)) + d"
proof -
  have "r \<in> {..<n}" using assms(1) by simp
  then have "(\<Sum>q<n. held (g q)) = held (g r) + (\<Sum>q\<in>{..<n} - {r}. held (g q))" for g :: "nat \<Rightarrow> swap"
    by (intro sum.remove) simp_all
  from this [of f] this [of "f(r := w)"] show ?thesis using assms(2) by (simp add: ac_simps)
qed

lemma held_update_less:
  fixes f :: "nat \<Rightarrow> swap"
  assumes "r < n" and "held (f r) = held w + d"
  shows "(\<Sum>q<n. held ((f(r := w)) q)) + d = (\<Sum>q<n. held (f q))"
  using held_update [of r n "f r" "f(r := w)" d] assms by simp

lemma deposits_add_refund [simp]: "deposits (add_refund rc fee s) = deposits s + {#rc#}"
  by (simp add: deposits_def held_by_swaps_def add_refund_def)

lemma deposits_post [simp]: "deposits (post m e topic s) = deposits s"
  by (simp add: deposits_def held_by_swaps_def post_def)

lemma deposits_timers [simp]: "deposits (s\<lparr>timers := ts\<rparr>) = deposits s"
  by (simp add: deposits_def held_by_swaps_def)

lemma deposits_put:
  assumes "r < next_swap s" and "held w = held (swap_objs s r) + d"
  shows "deposits (put_swap r w s) = deposits s + d"
proof -
  have "held_by_swaps (put_swap r w s) = held_by_swaps s + d"
    using held_update [OF assms(1), of w "swap_objs s" d] assms(2)
    by (simp only: held_by_swaps_def effect_fields)
  moreover have "refund_queue (put_swap r w s) = refund_queue s" by (simp add: put_swap_def)
  ultimately show ?thesis by (simp add: deposits_def ac_simps)
qed

lemma finish_objs:
  "swap_objs ((put_swap r w s)\<lparr>swaps := d\<rparr>) = (swap_objs s)(r := w)"
  "next_swap ((put_swap r w s)\<lparr>swaps := d\<rparr>) = next_swap s"
  by (simp_all add: put_swap_def)

lemma deposits_finish:
  assumes "r < next_swap s"
    and "held (swap_objs s r) =
      held (w\<lparr>sw_state := Processed, sw_terminated_state := Some how\<rparr>) + d"
  shows "deposits (finish r w how s) + d = deposits s"
proof -
  let ?w = "w\<lparr>sw_state := Processed, sw_terminated_state := Some how\<rparr>"
  have "held_by_swaps (finish r w how s) + d = held_by_swaps s"
    using held_update_less [OF assms(1), of "swap_objs s" ?w d] assms(2)
    by (simp only: held_by_swaps_def finish_def effect_fields finish_objs)
  moreover have "refund_queue (finish r w how s) = refund_queue s"
    by (simp add: finish_def put_swap_def)
  ultimately show ?thesis by (simp add: deposits_def ac_simps)
qed

lemma held_ended:
  "held (w\<lparr>sw_state := Processed, sw_terminated_state := Some how\<rparr>) =
    (if how \<noteq> Failed then {#}
     else opt_mset (sw_maker_transfer_receipt w) + opt_mset (sw_taker_transfer_receipt w))"
  by (simp add: held_def)

lemma held_live:
  "sw_state w \<noteq> Processed \<Longrightarrow>
    held w = opt_mset (sw_maker_transfer_receipt w) + opt_mset (sw_taker_transfer_receipt w)"
  by (simp add: held_def)

lemma held_init: "held (swap_init C i c a secret) = {#}"
  by (simp add: held_def swap_init_def)

lemma effect_deposits:
  assumes "swap_effect C r s l t" and "cs_ok C s" and "r < next_swap s"
  shows "deposits t = deposits s + l"
proof -
  have ok: "swap_ok C (swap_objs s r)" using assms(2,3) by (rule cs_ok_swap)
  from assms(1) show ?thesis
  proof cases
    case ef_uncommitted
    then have "deposits (finish r (swap_objs s r) Uncommitted s) + {#} = deposits s"
      using ok by (intro deposits_finish [OF assms(3)]) (auto simp: held_ended held_live swap_ok_defs)
    then show ?thesis using ef_uncommitted by simp
  next
    case (ef_untraded rc)
    let ?u = "post (CancellationProof (sw_offer_id (swap_objs s r)) None None)
      (sw_maker_commitment_proof (swap_objs s r)) (Some (tr_initiator rc)) (add_refund rc False s)"
    have "deposits (finish r (swap_objs s r) Untraded ?u) + {#rc#} = deposits ?u"
      using ok ef_untraded assms(3)
      by (intro deposits_finish) (auto simp: held_ended held_live swap_ok_defs)
    then show ?thesis using ef_untraded by simp
  next
    case ef_failed
    then have "deposits (finish r (swap_objs s r) Failed s) + {#} = deposits s"
      by (intro deposits_finish [OF assms(3)]) (auto simp: held_ended held_live)
    then show ?thesis using ef_failed by simp
  next
    case (ef_traded rm rt m w t')
    let ?u = "add_refund rt True (add_refund rm True
       (post (SwapCompleted (sw_offer_id w) t' None) None None s))"
    have "deposits (finish r w Traded ?u) + {#rm, rt#} = deposits ?u"
      using ef_traded assms(3) by (intro deposits_finish) (auto simp: held_ended held_live)
    then show ?thesis using ef_traded by (simp add: traded_def)
  next
    case (ef_maker_paid m rc)
    then show ?thesis using ok
      by (simp add: deposits_put [OF assms(3), of _ "{#rc#}"] held_live swap_ok_defs)
  next
    case (ef_taker_paid rc m)
    then show ?thesis using ok
      by (simp add: deposits_put [OF assms(3), of _ "{#rc#}"] held_live swap_ok_defs)
  qed (use deposits_put [OF assms(3), of _ "{#}"] in \<open>simp_all add: held_live\<close>)
qed

section \<open>The deal\<close>

datatype deal =
    Nobody_paid
  | Maker_paid bytes
  | Both_paid bytes bytes
  | Waiting_for bytes bytes bytes
  | Ended swap_state

inductive deal_step :: "deal \<Rightarrow> deal \<Rightarrow> bool" where
  "deal_step Nobody_paid (Ended Uncommitted)"
| "deal_step Nobody_paid (Maker_paid m)"
| "deal_step (Maker_paid m) (Ended Untraded)"
| "deal_step (Maker_paid m) (Both_paid m t)"
| "deal_step (Both_paid m t) (Ended Failed)"
| "deal_step (Both_paid m t) (Waiting_for m t m)"
| "deal_step (Both_paid m t) (Waiting_for m t t)"
| "deal_step (Waiting_for m t p) (Ended Failed)"
| "deal_step (Waiting_for m t p) (Ended Traded)"

inductive_simps deal_step_simps [simp]:
  "deal_step Nobody_paid d" "deal_step (Maker_paid m) d" "deal_step (Both_paid m t) d"
  "deal_step (Waiting_for m t p) d" "deal_step (Ended x) d"

definition payer :: "transfer_receipt option \<Rightarrow> bytes" where
  "payer rc = (case rc of None \<Rightarrow> [] | Some x \<Rightarrow> tr_initiator x)"

definition deal_of :: "swap \<Rightarrow> deal" where
  "deal_of w =
     (let m = payer (sw_maker_transfer_receipt w); t = payer (sw_taker_transfer_receipt w) in
      case sw_state w of
        Wait_for_taker \<Rightarrow> Maker_paid m
      | Wait_for_execution \<Rightarrow> Both_paid m t
      | Wait_for_taker_execution \<Rightarrow> Waiting_for m t t
      | Wait_for_maker_execution \<Rightarrow> Waiting_for m t m
      | Processed \<Rightarrow> Ended (case sw_terminated_state w of None \<Rightarrow> Processed | Some x \<Rightarrow> x)
      | _ \<Rightarrow> Nobody_paid)"

definition deal_moves :: "deal \<Rightarrow> deal \<Rightarrow> bool" where
  "deal_moves d e \<longleftrightarrow> d = e \<or> deal_step d e"

lemma deal_moves_refl [simp]: "deal_moves d d"
  by (simp add: deal_moves_def)

lemma effect_deal:
  assumes "swap_effect C r s l t"
  shows "deal_moves (deal_of (swap_objs s q)) (deal_of (swap_objs t q))"
  using assms
  by cases (auto simp: effect_defs traded_def deal_moves_def deal_of_def Let_def)

lemma effect_next: "swap_effect C r s l t \<Longrightarrow> next_swap t = next_swap s"
  by (erule swap_effect_E) (simp_all add: effect_defs traded_def)

section \<open>Steps of the service as outcomes\<close>

text \<open>
  Every step of the service touches the swaps and the refund queue only by an outcome of one
  swap, by adding a fresh swap first, or not at all; the refund task moves refunds.
\<close>

definition same_swaps :: "cs \<Rightarrow> cs \<Rightarrow> bool" where
  "same_swaps s t \<longleftrightarrow> swap_objs t = swap_objs s \<and> next_swap t = next_swap s \<and>
     refund_queue t = refund_queue s \<and> msg_objs t = msg_objs s \<and> next_msg t = next_msg s \<and>
     message_queue t = message_queue s"

inductive cs_step :: "crypto \<Rightarrow> cs \<Rightarrow> transfer_receipt multiset \<Rightarrow> cs \<Rightarrow> bool" for C where
  cs_swap: "same_swaps s u \<Longrightarrow> cs_ok C u \<Longrightarrow> r < next_swap u \<Longrightarrow> swap_effect C r u l t \<Longrightarrow>
    cs_step C s l t"
| cs_idle: "same_swaps s t \<Longrightarrow> cs_step C s {#} t"
| cs_make: "dict_get i (swaps s) = None \<Longrightarrow>
    swap_effect C (next_swap s) (snd (make_swap C secret i s)) {#} t \<Longrightarrow>
    sw_state (swap_objs t (next_swap s)) \<noteq> Initializing \<Longrightarrow> cs_step C s {#} t"

lemma make_swap_fields:
  assumes "dict_get i (swaps s) = None"
  shows "swap_objs (snd (make_swap C secret i s)) =
      (swap_objs s)(next_swap s := swap_init C i (Some i) True secret)"
    "next_swap (snd (make_swap C secret i s)) = Suc (next_swap s)"
    "refund_queue (snd (make_swap C secret i s)) = refund_queue s"
  using assms by (simp_all add: make_swap_def id_collides_def dict_mem_def)

lemma cs_step_deposits:
  assumes "cs_step C s l t" and "cs_ok C s" shows "deposits t = deposits s + l"
  using assms(1)
proof cases
  case (cs_swap u r)
  then have "deposits t = deposits u + l" by (intro effect_deposits)
  then show ?thesis using cs_swap(1) by (simp add: deposits_def held_by_swaps_def same_swaps_def)
next
  case cs_idle
  then show ?thesis by (simp add: deposits_def held_by_swaps_def same_swaps_def)
next
  case (cs_make i secret)
  let ?u = "snd (make_swap C secret i s)"
  note f = make_swap_fields [OF cs_make(2), of C secret]
  have "deposits t = deposits ?u + {#}"
    using cs_make make_swap_ok [OF assms(2)] by (intro effect_deposits [OF cs_make(3)]) (simp_all add: f)
  moreover have "held_by_swaps ?u = held_by_swaps s"
    unfolding held_by_swaps_def f by (simp add: held_init)
  ultimately show ?thesis using cs_make(1) by (simp add: deposits_def f)
qed

lemma cs_step_deal:
  assumes "cs_step C s l t" and "q < next_swap s"
  shows "deal_moves (deal_of (swap_objs s q)) (deal_of (swap_objs t q)) \<and> next_swap s \<le> next_swap t"
  using assms(1)
proof cases
  case (cs_swap u r)
  then show ?thesis using effect_deal [OF cs_swap(4), of q] effect_next [OF cs_swap(4)]
    by (simp add: same_swaps_def)
next
  case (cs_make i secret)
  note f = make_swap_fields [OF cs_make(2), of C secret]
  have "swap_objs (snd (make_swap C secret i s)) q = swap_objs s q" using assms(2) by (simp add: f)
  then show ?thesis
    using effect_deal [OF cs_make(3), of q] effect_next [OF cs_make(3)] by (simp add: f)
qed (simp add: same_swaps_def)

lemma same_swaps_refl [simp]: "same_swaps s s"
  by (simp add: same_swaps_def)

text \<open>A step that touches at most one swap, and has no other part.\<close>

definition touches :: "crypto \<Rightarrow> cs \<Rightarrow> transfer_receipt multiset \<Rightarrow> cs \<Rightarrow> bool" where
  "touches C s l t \<longleftrightarrow> t = s \<and> l = {#} \<or> (\<exists>r < next_swap s. swap_effect C r s l t)"

lemma touches_same [simp]: "touches C s {#} s"
  by (simp add: touches_def)

lemma cs_idle_same [simp]: "cs_step C s {#} s"
  by (rule cs_idle) simp

lemma touches_cs_step: "touches C s l t \<Longrightarrow> cs_ok C s \<Longrightarrow> cs_step C s l t"
  using cs_swap [OF same_swaps_refl] by (auto simp: touches_def)

lemma lookup_touches:
  assumes "cs_ok C s" and "\<And>r. r < next_swap s \<Longrightarrow> swap_effect C r s {#} (snd (f r s))"
    and "seq (get_state (\<lambda>s. dict_get i (swaps s))) (\<lambda>sw. case sw of
        Some r \<Rightarrow> seq (f r) (\<lambda>_. return ()) | None \<Rightarrow> return ()) s = (x, c)"
  shows "touches C s {#} c"
proof (cases "dict_get i (swaps s)")
  case None
  then show ?thesis using assms(3) by (simp add: seq_apply get_state_apply return_apply)
next
  case (Some r)
  then have "r < next_swap s" using assms(1) cs_ok_lookup by blast
  moreover have "c = snd (f r s)"
    using assms(3) Some by (simp add: seq_apply [of "get_state _"] get_state_apply seq_unit)
  ultimately show ?thesis using assms(2) unfolding touches_def by blast
qed

lemma taker_commitment_touches:
  assumes "cs_ok C s" and "dict_get (m_offer_id m) (swaps s) = Some r" and "class_of m = C_Commitment"
    and "commitment_process C now secret m s = (x, c)"
  shows "touches C s {#} c"
proof -
  have "r < next_swap s" using assms(1,2) cs_ok_lookup by blast
  moreover have "c = snd (hand_taker_commitment_msg C now m r s)"
    using assms(2-4) by (simp add: commitment_known seq_unit)
  ultimately show ?thesis using taker_commitment_effect [OF assms(1)] unfolding touches_def by blast
qed

lemma commitment_cs_step:
  assumes "cs_ok C s" and "commitment_process C now secret m s = (x, c)"
  shows "cs_step C s {#} c"
proof (cases "class_of m = C_Commitment")
  case False
  then show ?thesis using assms by (simp add: commitment_wrong)
next
  case cls: True
  show ?thesis
  proof (cases "dict_get (m_offer_id m) (swaps s)")
    case (Some r)
    then show ?thesis using taker_commitment_touches touches_cs_step assms cls by blast
  next
    case None
    let ?u = "snd (make_swap C secret (m_offer_id m) s)"
    have "swap_effect C (next_swap s) ?u {#} (snd (hand_maker_commitment_msg C now m (next_swap s) ?u))"
      using make_swap_ok [OF assms(1)] make_swap_fields(2) [OF None]
      by (intro maker_commitment_effect) simp_all
    moreover have c: "c = snd (hand_maker_commitment_msg C now m (next_swap s) ?u)"
      using assms(2) None cls by (simp add: commitment_new seq_unit)
    moreover have "sw_auto_spawn_timeout (swap_objs ?u (next_swap s))"
        "sw_state (swap_objs ?u (next_swap s)) = Initializing"
      by (simp_all add: make_swap_fields(1) [OF None] swap_init_def)
    then have "sw_state (swap_objs c (next_swap s)) \<noteq> Initializing"
      unfolding c by (simp add: maker_commitment_step Let_def split: sum.split)
    ultimately show ?thesis using cs_make [OF None] by blast
  qed
qed

lemma cancellation_effect:
  "cs_ok C s \<Longrightarrow> r < next_swap s \<Longrightarrow> swap_effect C r s {#} (snd (hand_cancellation_msg C now r s))"
  unfolding hand_cancellation_msg_def by (rule timeout_effect)

lemma cancellation_touches:
  assumes "cs_ok C s" and "cancellation_request_process C now m s = (x, c)"
  shows "touches C s {#} c"
  using assms(2) lookup_touches [OF assms(1), where f = "hand_cancellation_msg C now" and i = "m_offer_id m"]
    cancellation_effect [OF assms(1)]
  by (simp add: cancellation_request_process_def throw_apply split: if_splits)

lemma execution_touches:
  assumes "cs_ok C s" and "clock_ok now" and "swap_execution_process C now m s = (x, c)"
  shows "touches C s {#} c"
  using assms(2,3) lookup_touches [OF assms(1), where f = "hand_swap_execution_msg C now m" and i = "m_offer_id m"]
    execution_effect [OF assms(1)]
  by (simp add: swap_execution_process_def throw_apply split: if_splits)

text \<open>
  A receipt on which the swap raises is neither kept nor refunded, and the task that handed it over
  ends. That happens only if the swap waits for its maker and the commitment that opened it has no
  sender that can be recovered.
\<close>

definition no_sender :: "crypto \<Rightarrow> cs \<Rightarrow> int \<Rightarrow> bool" where
  "no_sender C s i \<longleftrightarrow> (\<exists>r < next_swap s. sw_offer_id (swap_objs s r) = i \<and>
     (\<exists>m e. sw_maker_commitment_msg (swap_objs s r) = Some m \<and> sender C m = Inl e))"

definition lost_deposit :: "crypto \<Rightarrow> cs \<Rightarrow> bool \<Rightarrow> transfer_receipt multiset \<Rightarrow> bool" where
  "lost_deposit C s alive d \<longleftrightarrow>
     d = {#} \<or> \<not> alive \<and> (\<exists>rc. d = {#rc#} \<and> no_sender C s (tr_identifier rc))"

lemma lost_none [simp]: "lost_deposit C s alive {#}"
  by (simp add: lost_deposit_def)

text \<open>Between two steps of the service, no swap is without a maker.\<close>

definition started :: "cs \<Rightarrow> bool" where
  "started s \<longleftrightarrow> (\<forall>r < next_swap s. sw_state (swap_objs s r) \<noteq> Initializing)"

lemma effect_started:
  "swap_effect C r s l t \<Longrightarrow> sw_state (swap_objs s q) \<noteq> Initializing \<Longrightarrow>
    sw_state (swap_objs t q) \<noteq> Initializing"
  by (erule swap_effect_E) (auto simp: effect_defs traded_def)

lemma cs_step_started: "cs_step C s l t \<Longrightarrow> started s \<Longrightarrow> started t"
proof (induction rule: cs_step.induct)
  case (cs_swap s u r l t)
  then show ?case using effect_started [OF cs_swap(4)] effect_next [OF cs_swap(4)]
    by (simp add: started_def same_swaps_def)
next
  case (cs_make i s secret t)
  note f = make_swap_fields [OF cs_make(1), of C secret]
  have "sw_state (swap_objs t q) \<noteq> Initializing" if "q < next_swap s" for q
    using effect_started [OF cs_make(2), of q] cs_make(4) that by (simp add: f started_def)
  then show ?case using cs_make(3) effect_next [OF cs_make(2)] by (auto simp: started_def f less_Suc_eq)
qed (simp add: started_def same_swaps_def)

lemma effect_no_sender:
  assumes "swap_effect C r s l t" and "cs_ok C s" and "r < next_swap s" and "no_sender C s i"
  shows "no_sender C t i"
proof -
  have ok: "swap_ok C (swap_objs s r)" using assms(2,3) by (rule cs_ok_swap)
  have "sw_offer_id (swap_objs t q) = sw_offer_id (swap_objs s q)" for q
    using assms(1) by cases (auto simp: effect_defs traded_def)
  moreover have "sw_maker_commitment_msg (swap_objs t q) = Some m"
    if "sw_maker_commitment_msg (swap_objs s q) = Some m" for q m
    using assms(1) by cases (use that ok in \<open>auto simp: effect_defs traded_def swap_ok_def\<close>)
  ultimately show ?thesis
    using assms(4) effect_next [OF assms(1)] by (fastforce simp: no_sender_def)
qed

lemma cs_step_no_sender:
  assumes "cs_step C s l t" and "cs_ok C s" and "no_sender C s i"
  shows "no_sender C t i"
  using assms(1)
proof cases
  case (cs_swap u r)
  then have "no_sender C u i" using assms(3) by (simp add: no_sender_def same_swaps_def)
  then show ?thesis using cs_swap effect_no_sender by blast
next
  case cs_idle
  then show ?thesis using assms(3) by (simp add: no_sender_def same_swaps_def)
next
  case (cs_make j secret)
  note f = make_swap_fields [OF cs_make(2), of C secret]
  obtain r where r: "r < next_swap s" "sw_offer_id (swap_objs s r) = i"
      "\<exists>m e. sw_maker_commitment_msg (swap_objs s r) = Some m \<and> sender C m = Inl e"
    using assms(3) by (auto simp: no_sender_def)
  then have "no_sender C (snd (make_swap C secret j s)) i"
    unfolding no_sender_def f by (intro exI [of _ r]) simp
  then show ?thesis
    using effect_no_sender [OF cs_make(3)] make_swap_ok [OF assms(2)] by (simp add: f)
qed

lemma receipt_raises:
  assumes "cs_ok C s" and "started s" and "dict_get i (swaps s) = Some r"
    and "hand_transfer_receipt C now rc r s = (Inl e, t)"
  shows "t = s \<and> no_sender C s i"
proof -
  have r: "r < next_swap s" "sw_state (swap_objs s r) \<noteq> Processed" "sw_offer_id (swap_objs s r) = i"
    using cs_ok_lookup [OF assms(1,3)] assms(1,3) by (auto simp: cs_ok_def)
  note f = live_facts [OF assms(1) r(1,2)]
  from f(2) r(2) show ?thesis
  proof (cases rule: swap_state_cases)
    case 1
    then show ?thesis using assms(2) r(1) by (simp add: started_def)
  next
    case 2
    then obtain m where m: "sw_maker_commitment_msg (swap_objs s r) = Some m"
      using f(2) by (auto simp: swap_ok_def)
    show ?thesis using assms(4) receipt_maker_step [OF 2 m, of C now rc] m r
      by (auto simp: no_sender_def split: sum.splits if_splits)
  next
    case 3
    then show ?thesis
      using assms(4) f(2) by (auto simp: receipt_taker_step [OF 3] Let_def swap_ok_def pool_ok_def
          split: option.splits)
  qed (use assms(4) in \<open>auto simp: receipt_late_step\<close>)
qed

lemma transfer_touches:
  assumes "cs_ok C s" and "transfer_received_process C now rc s = (x, c)"
  shows "\<exists>l d. (if dict_mem (tr_identifier rc) (swaps s) then {#rc#} else {#}) = l + d \<and>
    touches C s l c \<and> (started s \<longrightarrow> lost_deposit C c (ok_result x) d)"
proof (cases "dict_get (tr_identifier rc) (swaps s)")
  case None
  then show ?thesis using assms(2)
    by (simp add: transfer_received_process_def prog_simps dict_mem_def)
next
  case (Some r)
  then have r: "r < next_swap s" using assms(1) cs_ok_lookup by blast
  obtain y t where y: "hand_transfer_receipt C now rc r s = (y, t)" by fastforce
  then have c: "c = t" "ok_result x = ok_result y"
    using assms(2) Some
    by (auto simp: transfer_received_process_def prog_simps ok_result_def split: sum.splits)
  show ?thesis
  proof (cases y)
    case (Inl e)
    have "t = s" if "started s" using receipt_raises [OF assms(1) that Some] y Inl by simp
    moreover have "touches C s {#} t" using receipt_effect [OF assms(1) r y] r Inl by (auto simp: touches_def)
    moreover have "started s \<Longrightarrow> no_sender C s (tr_identifier rc)"
      using receipt_raises [OF assms(1) _ Some] y Inl by blast
    ultimately show ?thesis using c Some Inl
      by (intro exI [of _ "{#}"] exI [of _ "{#rc#}"]) (simp add: dict_mem_def lost_deposit_def ok_result_def)
  next
    case (Inr b)
    then have "touches C s {#rc#} c" using receipt_effect [OF assms(1) r y] r c by (auto simp: touches_def)
    then show ?thesis using Some
      by (intro exI [of _ "{#rc#}"] exI [of _ "{#}"]) (simp add: dict_mem_def)
  qed
qed

lemma sender_fields:
  assumes "sender_process C key entry s = (x, c)"
  shows "swap_objs c = swap_objs s" "next_swap c = next_swap s" "refund_queue c = refund_queue s"
    "swaps c = swaps s" "timers c = timers s" "next_msg c = next_msg s"
    "message_queue c = message_queue s"
  using assms
  by (auto simp: sender_process_def sign_obj_def prog_simps split: prod.splits sum.splits)

lemma same_swaps_fields [simp]: "same_swaps s (s\<lparr>timers := ts\<rparr>)"
  by (simp add: same_swaps_def)

text \<open>The sender task, alone: it takes the first entry of its queue.\<close>

definition send_step :: "service_config \<Rightarrow> service \<Rightarrow> service \<Rightarrow> bool" where
  "send_step K s t \<longleftrightarrow>
     (\<exists>entry rest x c. sv_sender_alive s \<and> message_queue (sv_cs s) = entry # rest \<and>
        sender_process (cf_crypto K) (cf_privkey K) entry ((sv_cs s)\<lparr>message_queue := rest\<rparr>) = (x, c) \<and>
        t = s\<lparr>sv_cs := c, sv_sender_alive := ok_result x,
              sv_outbox := sv_outbox s @ (case x of Inl _ \<Rightarrow> [] | Inr out \<Rightarrow> [out])\<rparr>)"

lemma send_fields:
  assumes "send_step K s t"
  shows "swap_objs (sv_cs t) = swap_objs (sv_cs s)" "next_swap (sv_cs t) = next_swap (sv_cs s)"
    "refund_queue (sv_cs t) = refund_queue (sv_cs s)" "sv_refunds t = sv_refunds s"
    "sv_transfer_alive t = sv_transfer_alive s"
proof -
  obtain entry rest x c where
    "sender_process (cf_crypto K) (cf_privkey K) entry ((sv_cs s)\<lparr>message_queue := rest\<rparr>) = (x, c)"
    "t = s\<lparr>sv_cs := c, sv_sender_alive := ok_result x,
           sv_outbox := sv_outbox s @ (case x of Inl _ \<Rightarrow> [] | Inr out \<Rightarrow> [out])\<rparr>"
    using assms unfolding send_step_def by blast
  with sender_fields [OF this(1)]
  show "swap_objs (sv_cs t) = swap_objs (sv_cs s)" "next_swap (sv_cs t) = next_swap (sv_cs s)"
    "refund_queue (sv_cs t) = refund_queue (sv_cs s)" "sv_refunds t = sv_refunds s"
    "sv_transfer_alive t = sv_transfer_alive s" by simp_all
qed

text \<open>The other tasks: what was handed over is split into what a swap took and what was lost.\<close>

definition swap_step :: "service_config \<Rightarrow> service \<Rightarrow> transfer_receipt multiset \<Rightarrow> service \<Rightarrow> bool" where
  "swap_step K s acc t \<longleftrightarrow> sv_refunds t = sv_refunds s \<and> sv_sender_alive t = sv_sender_alive s \<and>
     sv_outbox t = sv_outbox s \<and>
     (\<exists>l d. acc = l + d \<and> cs_step (cf_crypto K) (sv_cs s) l (sv_cs t) \<and>
        (sv_transfer_alive t \<longrightarrow> sv_transfer_alive s) \<and> (d = {#} \<or> sv_transfer_alive s) \<and>
        (started (sv_cs s) \<longrightarrow> lost_deposit (cf_crypto K) (sv_cs t) (sv_transfer_alive t) d))"

lemma swap_stepI:
  assumes "cs_step (cf_crypto K) (sv_cs s) l c" and "acc = l"
  shows "swap_step K s acc (s\<lparr>sv_cs := c, sv_commitment_alive := a\<rparr>)"
    "swap_step K s acc (s\<lparr>sv_cs := c, sv_cancellation_alive := a\<rparr>)"
    "swap_step K s acc (s\<lparr>sv_cs := c, sv_execution_alive := a\<rparr>)"
    "swap_step K s acc (s\<lparr>sv_cs := c\<rparr>)"
  unfolding swap_step_def assms(2)
  by (intro conjI exI [of _ l] exI [of _ "{#}"]; simp add: assms(1))+

lemma service_cs_step:
  assumes "service_step K s acc t" and "cs_ok (cf_crypto K) (sv_cs s)"
  shows "swap_step K s acc t \<or> acc = {#} \<and> send_step K s t \<or>
    acc = {#} \<and> (\<exists>u. refund_step (cf_fee_rate K) (cf_token K) (refund_view s) u \<and> t = put_refunds u s)"
  using assms(1)
proof (cases rule: service_step.cases)
  case (st_timer before sec r after now x c)
  let ?s = "(sv_cs s)\<lparr>timers := before @ after\<rparr>"
  have r: "r < next_swap ?s" using assms(2) st_timer(3) by (simp add: cs_ok_def)
  have ok: "cs_ok (cf_crypto K) ?s" using assms(2) st_timer(3) by (intro timers_subset_ok) auto
  have "swap_effect (cf_crypto K) r ?s {#} c"
    using timeout_effect [OF ok r, of now] st_timer(5) by (simp add: trigger_timeout_def)
  then have "cs_step (cf_crypto K) (sv_cs s) {#} c" by (rule cs_swap [OF _ ok r, rotated]) simp
  then show ?thesis using st_timer swap_stepI(4) by simp
next
  case (st_transfer now rc x c)
  obtain l d where "acc = l + d" "touches (cf_crypto K) (sv_cs s) l c"
      "started (sv_cs s) \<longrightarrow> lost_deposit (cf_crypto K) c (ok_result x) d"
    using transfer_touches [OF assms(2) st_transfer(4)] st_transfer(5) by blast
  then have "swap_step K s acc t" unfolding swap_step_def st_transfer(1)
    using touches_cs_step [OF _ assms(2)] st_transfer(2)
    by (intro conjI exI [of _ l] exI [of _ d]) simp_all
  then show ?thesis by simp
next
  case (st_send entry rest x c)
  then have "send_step K s t" unfolding send_step_def by blast
  then show ?thesis using st_send(1) by simp
qed (use assms(2) in \<open>auto simp: commitment_cs_step cancellation_touches execution_touches
  touches_cs_step intro!: swap_stepI\<close>)

text \<open>All refunds of the service: in the queue, in flight, paid, lost.\<close>

definition service_account :: "service \<Rightarrow> transfer_receipt multiset" where
  "service_account s =
     held_by_swaps (sv_cs s) + image_mset rf_receipt (refund_account (refund_view s))"

lemma account_split:
  "service_account s = deposits (sv_cs s) +
     image_mset rf_receipt (refund_account ((sv_refunds s)\<lparr>rq := {#}\<rparr>))"
  by (simp add: service_account_def deposits_def refund_account_def refund_view_def ac_simps)

lemma service_step_started:
  assumes "service_step K s acc t" and "cs_ok (cf_crypto K) (sv_cs s)" and "started (sv_cs s)"
  shows "started (sv_cs t)"
  using service_cs_step [OF assms(1,2)]
proof (elim disjE conjE exE)
  assume "swap_step K s acc t"
  then show ?thesis using cs_step_started assms(3) by (auto simp: swap_step_def)
qed (use assms(3) in \<open>simp_all add: started_def send_fields put_refunds_def\<close>)

lemma run_started: "service_run K rs s \<Longrightarrow> started (sv_cs s)"
proof (induction rule: service_run.induct)
  case run_start
  show ?case by (simp add: started_def service_start_def cs_start_def)
next
  case (run_step rs s acc t)
  then show ?case using service_step_started run_cs_ok by blast
qed

lemma service_account_step:
  assumes "service_step K s acc t" and "cs_ok (cf_crypto K) (sv_cs s)" and "started (sv_cs s)"
    and "service_account s + d = rs" and "lost_deposit (cf_crypto K) (sv_cs s) (sv_transfer_alive s) d"
  shows "\<exists>d. service_account t + d = rs + acc \<and>
    lost_deposit (cf_crypto K) (sv_cs t) (sv_transfer_alive t) d"
  using service_cs_step [OF assms(1,2)]
proof (elim disjE conjE exE)
  assume "swap_step K s acc t"
  then obtain l d' where step: "acc = l + d'" "cs_step (cf_crypto K) (sv_cs s) l (sv_cs t)"
      "sv_refunds t = sv_refunds s" "sv_transfer_alive t \<longrightarrow> sv_transfer_alive s"
      "d' = {#} \<or> sv_transfer_alive s" "lost_deposit (cf_crypto K) (sv_cs t) (sv_transfer_alive t) d'"
    using assms(3) by (auto simp: swap_step_def)
  have "service_account t = service_account s + l"
    using cs_step_deposits [OF step(2) assms(2)] step(3) by (simp add: account_split ac_simps)
  then have "service_account t + (d + d') = rs + acc" using assms(4) step(1) by (auto simp: ac_simps)
  moreover have "lost_deposit (cf_crypto K) (sv_cs t) (sv_transfer_alive t) (d + d')"
    using assms(5) step(4-6) cs_step_no_sender [OF step(2) assms(2)] by (auto simp: lost_deposit_def)
  ultimately show ?thesis by blast
next
  assume "acc = {#}" "send_step K s t"
  then show ?thesis using assms(4,5)
    by (intro exI [of _ d]) (simp add: account_split deposits_def held_by_swaps_def lost_deposit_def no_sender_def send_fields)
next
  fix u assume u: "refund_step (cf_fee_rate K) (cf_token K) (refund_view s) u"
    and t: "acc = {#}" "t = put_refunds u s"
  have "refund_view (put_refunds u s) = u" by (simp add: refund_view_def put_refunds_def)
  then have "service_account t = service_account s" using account_step [OF u] t
    by (simp add: service_account_def put_refunds_def held_by_swaps_def)
  then show ?thesis using assms(4,5) t
    by (intro exI [of _ d]) (simp add: put_refunds_def lost_deposit_def no_sender_def)
qed

lemma run_account:
  "service_run K rs s \<Longrightarrow> \<exists>d. service_account s + d = rs \<and>
    lost_deposit (cf_crypto K) (sv_cs s) (sv_transfer_alive s) d"
proof (induction rule: service_run.induct)
  case run_start
  show ?case by (simp add: service_account_def held_by_swaps_def service_start_def cs_start_def
        refund_account_def refund_view_def refund_start_def)
next
  case (run_step rs s acc t)
  then show ?case using service_account_step run_cs_ok run_started by blast
qed

lemma service_deal_step:
  assumes "service_step K s acc t" and "cs_ok (cf_crypto K) (sv_cs s)" and "q < next_swap (sv_cs s)"
  shows "deal_moves (deal_of (swap_objs (sv_cs s) q)) (deal_of (swap_objs (sv_cs t) q)) \<and>
    q < next_swap (sv_cs t)"
  using service_cs_step [OF assms(1,2)]
proof (elim disjE conjE exE)
  assume "swap_step K s acc t"
  then obtain l where "cs_step (cf_crypto K) (sv_cs s) l (sv_cs t)" by (auto simp: swap_step_def)
  then show ?thesis using cs_step_deal [OF _ assms(3)] assms(3) by fastforce
next
  assume "send_step K s t"
  then show ?thesis using assms(3) by (simp add: send_fields)
qed (use assms(3) in \<open>simp add: put_refunds_def\<close>)

end
