(* ===== verification/Outbox.thy ===== *)
theory Outbox
  imports Deposits
begin

text \<open>
  The messages of the commitment service, from the moment a swap queues one to its delivery to
  the broker: every message is sent at most once and in the order it was queued, it is signed
  with the key of the service, and a cancellation proof carries the signed commitment proof of
  its swap, although the proof was not yet signed when the reference to it was taken.
\<close>

section \<open>The invariant of queued messages\<close>

definition queued :: "cs \<Rightarrow> nat set" where
  "queued s = fst ` set (message_queue s)"

text \<open>A commitment proof that was signed, or will be before anything queued after it.\<close>

definition proof_ok :: "bool \<Rightarrow> cs \<Rightarrow> int \<Rightarrow> nat \<Rightarrow> bool" where
  "proof_ok alive s i p \<longleftrightarrow>
     p < next_msg s \<and> class_of (content (msg_objs s p)) = C_CommitmentProof \<and>
     m_offer_id (content (msg_objs s p)) = i \<and>
     (p \<in> queued s \<or> m_signature (content (msg_objs s p)) \<noteq> None \<or> \<not> alive)"

definition fresh_ok :: "bool \<Rightarrow> cs \<Rightarrow> nat \<Rightarrow> bool" where
  "fresh_ok alive s m \<longleftrightarrow>
     m < next_msg s \<and> is_mutable (msg_objs s m) \<and> is_instance (content (msg_objs s m)) Signed \<and>
     (case embedded (msg_objs s m) of
        None \<Rightarrow> class_of (content (msg_objs s m)) \<noteq> C_CancellationProof
      | Some p \<Rightarrow> p < m \<and>
          (\<exists>i. content (msg_objs s m) = CancellationProof i None None \<and> proof_ok alive s i p))"

definition queue_ok :: "bool \<Rightarrow> cs \<Rightarrow> bool" where
  "queue_ok alive s \<longleftrightarrow>
     sorted_wrt (<) (map fst (message_queue s)) \<and> (\<forall>m \<in> queued s. fresh_ok alive s m)"

definition proofs_ok :: "bool \<Rightarrow> cs \<Rightarrow> bool" where
  "proofs_ok alive s \<longleftrightarrow>
     (\<forall>r < next_swap s. \<forall>p. sw_maker_commitment_proof (swap_objs s r) = Some p \<longrightarrow>
        proof_ok alive s (sw_offer_id (swap_objs s r)) p)"

definition msgs_ok :: "bool \<Rightarrow> cs \<Rightarrow> bool" where
  "msgs_ok alive s \<longleftrightarrow> queue_ok alive s \<and> proofs_ok alive s"

lemma same_msgs:
  assumes "msg_objs t = msg_objs s" "next_msg t = next_msg s" "message_queue t = message_queue s"
  shows "proof_ok alive t i p = proof_ok alive s i p" "fresh_ok alive t m = fresh_ok alive s m"
    "queue_ok alive t = queue_ok alive s"
  using assms by (simp_all add: proof_ok_def fresh_ok_def queue_ok_def queued_def cong: option.case_cong)

lemma msgs_ok_same: "same_swaps s t \<Longrightarrow> msgs_ok alive t = msgs_ok alive s"
  using same_msgs [of t s] by (simp add: msgs_ok_def proofs_ok_def same_swaps_def)

lemma msgs_ok_add_refund [simp]: "msgs_ok alive (add_refund rc fee s) = msgs_ok alive s"
  using same_msgs [of "add_refund rc fee s" s]
  by (simp add: msgs_ok_def proofs_ok_def add_refund_def)

lemma queue_ok_put [simp]:
  "queue_ok alive (put_swap r w s) = queue_ok alive s"
  "proof_ok alive (put_swap r w s) i p = proof_ok alive s i p"
  using same_msgs [of "put_swap r w s" s] by (simp_all add: put_swap_def)

text \<open>Posting a message keeps what is known of the others.\<close>

lemma queued_post [simp]: "queued (post m e topic s) = insert (next_msg s) (queued s)"
  by (simp add: queued_def post_def)

lemma proof_ok_post: "proof_ok alive s i p \<Longrightarrow> proof_ok alive (post m e topic s) i p"
  unfolding proof_ok_def queued_post by (auto simp: post_def)

lemma fresh_ok_post: "fresh_ok alive s q \<Longrightarrow> fresh_ok alive (post m e topic s) q"
  unfolding fresh_ok_def
  by (auto simp: post_def [of m e topic s, THEN arg_cong [of _ _ msg_objs]]
        post_def [of m e topic s, THEN arg_cong [of _ _ next_msg]] proof_ok_post split: option.splits)

definition postable :: "bool \<Rightarrow> cs \<Rightarrow> message \<Rightarrow> nat option \<Rightarrow> bool" where
  "postable alive s m e \<longleftrightarrow> is_instance m Signed \<and>
     (case e of
        None \<Rightarrow> class_of m \<noteq> C_CancellationProof
      | Some p \<Rightarrow> \<exists>i. m = CancellationProof i None None \<and> proof_ok alive s i p)"

lemma queue_ok_post:
  assumes "queue_ok alive s" and "postable alive s m e"
  shows "queue_ok alive (post m e topic s)"
proof -
  have "fresh_ok alive (post m e topic s) (next_msg s)"
    using assms(2) proof_ok_post [of alive s _ _ m e topic]
    by (auto simp: fresh_ok_def postable_def proof_ok_def post_def split: option.splits)
  then have "\<forall>q \<in> queued (post m e topic s). fresh_ok alive (post m e topic s) q"
    using assms(1) by (simp add: queue_ok_def fresh_ok_post)
  moreover have "\<forall>q \<in> queued s. q < next_msg s"
    using assms(1) by (simp add: queue_ok_def fresh_ok_def)
  then have "sorted_wrt (<) (map fst (message_queue (post m e topic s)))"
    using assms(1) by (auto simp: queue_ok_def queued_def post_def sorted_wrt_append)
  ultimately show ?thesis by (simp add: queue_ok_def)
qed

lemma proofs_ok_post: "proofs_ok alive s \<Longrightarrow> proofs_ok alive (post m e topic s)"
  by (simp add: proofs_ok_def proof_ok_post)

lemma msgs_ok_post:
  "msgs_ok alive s \<Longrightarrow> postable alive s m e \<Longrightarrow> msgs_ok alive (post m e topic s)"
  by (simp add: msgs_ok_def queue_ok_post proofs_ok_post)

lemma msgs_ok_put:
  assumes "msgs_ok alive s"
    and "\<And>p. sw_maker_commitment_proof w = Some p \<Longrightarrow> proof_ok alive s (sw_offer_id w) p"
  shows "msgs_ok alive (put_swap r w s)"
  using assms by (auto simp: msgs_ok_def proofs_ok_def)

lemma msgs_ok_put_same:
  assumes "msgs_ok alive s" and "r < next_swap s"
    and "sw_maker_commitment_proof w = sw_maker_commitment_proof (swap_objs s r)"
    and "sw_offer_id w = sw_offer_id (swap_objs s r)"
  shows "msgs_ok alive (put_swap r w s)"
  using assms by (intro msgs_ok_put) (auto simp: msgs_ok_def proofs_ok_def)

lemma msgs_ok_finish:
  assumes "msgs_ok alive s" and "r < next_swap s"
    and "sw_maker_commitment_proof w = sw_maker_commitment_proof (swap_objs s r)"
    and "sw_offer_id w = sw_offer_id (swap_objs s r)"
  shows "msgs_ok alive (finish r w how s)"
proof -
  let ?w = "w\<lparr>sw_state := Processed, sw_terminated_state := Some how\<rparr>"
  have "msgs_ok alive (put_swap r ?w s)" using assms by (intro msgs_ok_put_same) simp_all
  moreover have "swap_objs (finish r w how s) = swap_objs (put_swap r ?w s)"
    "next_swap (finish r w how s) = next_swap (put_swap r ?w s)"
    by (simp_all add: finish_def put_swap_def)
  moreover have "msg_objs (finish r w how s) = msg_objs (put_swap r ?w s)"
    "next_msg (finish r w how s) = next_msg (put_swap r ?w s)"
    "message_queue (finish r w how s) = message_queue (put_swap r ?w s)"
    by (simp_all add: finish_def put_swap_def)
  note same_msgs [OF this]
  ultimately show ?thesis by (simp add: msgs_ok_def proofs_ok_def)
qed

lemma msgs_ok_timers [simp]: "msgs_ok alive (s\<lparr>timers := ts\<rparr>) = msgs_ok alive s"
  using msgs_ok_same [of s "s\<lparr>timers := ts\<rparr>"] by simp

lemma postable_plain:
  "is_instance m Signed \<Longrightarrow> class_of m \<noteq> C_CancellationProof \<Longrightarrow> postable alive s m None"
  by (simp add: postable_def)

lemma effect_msgs:
  assumes "swap_effect C r s l t" and "cs_ok C s" and "r < next_swap s" and "msgs_ok alive s"
  shows "msgs_ok alive t"
  using assms(1)
proof cases
  case (ef_untraded rc)
  let ?m = "CancellationProof (sw_offer_id (swap_objs s r)) None None"
  have "maker_paid C (swap_objs s r)"
    using cs_ok_swap [OF assms(2,3)] ef_untraded(3) by (simp add: swap_ok_def)
  then obtain p where p: "sw_maker_commitment_proof (swap_objs s r) = Some p"
    by (auto simp: maker_paid_def)
  then have "proof_ok alive s (sw_offer_id (swap_objs s r)) p"
    using assms(3,4) by (simp add: msgs_ok_def proofs_ok_def)
  then have "proof_ok alive (add_refund rc False s) (sw_offer_id (swap_objs s r)) p"
    by (simp add: proof_ok_def queued_def add_refund_def)
  then have "postable alive (add_refund rc False s) ?m (Some p)"
    by (simp add: postable_def is_instance_def)
  then have "msgs_ok alive (post ?m (Some p) (Some (tr_initiator rc)) (add_refund rc False s))"
    using assms(4) by (intro msgs_ok_post) simp_all
  then show ?thesis using ef_untraded p assms(3) by (simp add: msgs_ok_finish)
next
  case (ef_maker_paid m rc)
  let ?w = "(swap_objs s r)\<lparr>sw_state := Wait_for_taker, sw_maker_transfer_receipt := Some rc,
    sw_maker_commitment_proof := Some (next_msg s)\<rparr>"
  let ?m = "CommitmentProof (m_signature m) (sw_secret (swap_objs s r))
    (sw_secret_hash (swap_objs s r)) (sw_offer_id (swap_objs s r)) None"
  have eq: "post ?m None a (put_swap r ?w s) = put_swap r ?w (post ?m None a s)" for a
    by (simp add: post_def put_swap_def)
  have "msgs_ok alive (post ?m None (Some (tr_initiator rc)) s)"
    using assms(4) by (intro msgs_ok_post postable_plain) (simp_all add: is_instance_def)
  then have "msgs_ok alive (put_swap r ?w (post ?m None (Some (tr_initiator rc)) s))"
    by (rule msgs_ok_put) (auto simp: proof_ok_def post_def queued_def)
  then show ?thesis using ef_maker_paid(2) eq by simp
next
  case (ef_taker_paid rc m)
  then show ?thesis using assms(3,4)
    by (auto intro!: msgs_ok_post postable_plain msgs_ok_put_same simp: is_instance_def)
next
  case (ef_traded rm rt m w t')
  then have "msgs_ok alive (add_refund rt True (add_refund rm True
       (post (SwapCompleted (sw_offer_id w) t' None) None None s)))"
    using assms(4) by (simp add: msgs_ok_post postable_plain is_instance_def)
  then show ?thesis using ef_traded assms(3) unfolding traded_def
    by (auto intro!: msgs_ok_finish)
qed (use assms(3,4) in \<open>simp_all add: msgs_ok_finish msgs_ok_put_same\<close>)

lemma cs_step_msgs:
  assumes "cs_step C s l t" and "cs_ok C s" and "msgs_ok alive s" shows "msgs_ok alive t"
  using assms(1)
proof cases
  case (cs_swap u r)
  then show ?thesis using assms(3) by (auto simp: msgs_ok_same intro: effect_msgs)
next
  case cs_idle
  then show ?thesis using assms(3) by (simp add: msgs_ok_same)
next
  case (cs_make i secret)
  let ?u = "snd (make_swap C secret i s)"
  note f = make_swap_fields [OF cs_make(2), of C secret]
  have m: "msg_objs ?u = msg_objs s" "next_msg ?u = next_msg s" "message_queue ?u = message_queue s"
    by (simp_all add: make_swap_def)
  have "msgs_ok alive ?u" using assms(3) same_msgs [OF m]
    by (simp add: msgs_ok_def proofs_ok_def f less_Suc_eq swap_init_def)
  then show ?thesis using make_swap_ok [OF assms(2)]
    by (intro effect_msgs [OF cs_make(3)]) (simp_all add: f)
qed

section \<open>Sending\<close>

text \<open>What the outbox holds: signed messages, cancellation proofs with their signed proof.\<close>

definition sent_ok :: "service_config \<Rightarrow> message \<Rightarrow> bool" where
  "sent_ok K m \<longleftrightarrow>
     (\<exists>h. hash_without_signature (cf_crypto K) m = Inr h \<and>
        m_signature m = Some (sign_msg (cf_crypto K) (cf_privkey K) h)) \<and>
     (class_of m = C_CancellationProof \<longrightarrow>
        (\<exists>p. m_cancellation_proof m = Some p \<and> class_of p = C_CommitmentProof \<and>
             m_signature p \<noteq> None \<and> m_offer_id p = m_offer_id m))"

lemma sign_result:
  assumes "sign C key ob = Inr ob'"
  shows "content ob' = with_signature (content ob) (m_signature (content ob'))"
    "\<exists>h. hash_without_signature C (content ob') = Inr h \<and>
         m_signature (content ob') = Some (sign_msg C key h)"
    "class_of (content ob') = class_of (content ob)"
proof -
  obtain h where h: "hash_without_signature C (content ob) = Inr h"
      "content ob' = with_signature (content ob) (Some (sign_msg C key h))"
      "is_instance (content ob) Signed"
    using assms by (auto simp: sign_def bind_res_Inr_iff split: if_splits)
  then have "m_signature (content ob') = Some (sign_msg C key h)"
    by (simp add: signature_with_signature)
  with h show "content ob' = with_signature (content ob) (m_signature (content ob'))"
    "\<exists>h. hash_without_signature C (content ob') = Inr h \<and>
         m_signature (content ob') = Some (sign_msg C key h)"
    "class_of (content ob') = class_of (content ob)" by simp_all
qed

lemma sender_process_cases:
  "sender_process C key (m, topic) s =
     (case sign C key \<lparr>content = msg_content s m, is_mutable = is_mutable (msg_objs s m)\<rparr> of
        Inl e \<Rightarrow> (Inl e, s)
      | Inr ob \<Rightarrow>
          let s' = s\<lparr>msg_objs := (msg_objs s)(m := \<lparr>content = content ob,
                       is_mutable = is_mutable ob, embedded = embedded (msg_objs s m)\<rparr>)\<rparr>
          in (Inr (msg_content s' m, topic), s'))"
  by (simp add: sender_process_def sign_obj_def prog_simps Let_def split: sum.split)

lemma offer_id_with_signature:
  "class_of m = C_CommitmentProof \<Longrightarrow> m_offer_id (with_signature m sg) = m_offer_id m"
  by (cases m) simp_all

lemma msg_content_cong: "msg_objs t = msg_objs s \<Longrightarrow> msg_content t h = msg_content s h"
  unfolding msg_content_def by (erule ssubst) (rule refl)

text \<open>Taking the head off the queue and signing it.\<close>

definition signed_head :: "cs \<Rightarrow> nat \<Rightarrow> (nat \<times> bytes option) list \<Rightarrow> msg_obj \<Rightarrow> cs" where
  "signed_head s h rest ob =
     s\<lparr>message_queue := rest, msg_objs := (msg_objs s)(h := \<lparr>content = content ob,
         is_mutable = is_mutable ob, embedded = embedded (msg_objs s h)\<rparr>)\<rparr>"

lemma head_plain:
  assumes "msgs_ok True s" and "message_queue s = (h, topic) # rest"
  shows "fresh_ok True s h" "\<forall>m \<in> fst ` set rest. h < m \<and> fresh_ok True s m"
    "sorted_wrt (<) (map fst rest)" "queued s = insert h (fst ` set rest)"
  using assms by (auto simp: msgs_ok_def queue_ok_def queued_def)

lemma embedded_signed:
  assumes "msgs_ok True s" and "message_queue s = (h, topic) # rest"
    and "proof_ok True s i p" and "p < h"
  shows "m_signature (content (msg_objs s p)) \<noteq> None"
  using head_plain [OF assms(1,2)] assms(3,4) by (auto simp: proof_ok_def)

lemma head_content:
  assumes "msgs_ok True s" and "message_queue s = (h, topic) # rest"
  shows "msg_content s h = content (msg_objs s h) \<and> embedded (msg_objs s h) = None \<and>
           class_of (content (msg_objs s h)) \<noteq> C_CancellationProof \<or>
         (\<exists>i p. embedded (msg_objs s h) = Some p \<and> p < h \<and> proof_ok True s i p \<and>
           content (msg_objs s h) = CancellationProof i None None \<and>
           msg_content s h = CancellationProof i (Some (content (msg_objs s p))) None \<and>
           m_signature (content (msg_objs s p)) \<noteq> None)"
  using head_plain(1) [OF assms] embedded_signed [OF assms]
  by (auto simp: fresh_ok_def msg_content_def split: option.splits)

lemma head_sent:
  assumes "msgs_ok True s" and "message_queue s = (h, topic) # rest"
    and sg: "sign (cf_crypto K) (cf_privkey K)
      \<lparr>content = msg_content s h, is_mutable = b\<rparr> = Inr ob"
  shows "sent_ok K (msg_content (signed_head s h rest ob) h)"
proof -
  note r = sign_result [OF sg, simplified]
  have "msg_content (signed_head s h rest ob) h = content ob \<and>
      (class_of (content ob) = C_CancellationProof \<longrightarrow>
        (\<exists>p. m_cancellation_proof (content ob) = Some p \<and> class_of p = C_CommitmentProof \<and>
             m_signature p \<noteq> None \<and> m_offer_id p = m_offer_id (content ob)))"
    using head_content [OF assms(1,2)]
  proof (elim disjE exE conjE)
    assume "msg_content s h = content (msg_objs s h)" "embedded (msg_objs s h) = None"
      "class_of (content (msg_objs s h)) \<noteq> C_CancellationProof"
    then show ?thesis using r(3) by (simp add: msg_content_def signed_head_def)
  next
    fix i p
    assume e: "embedded (msg_objs s h) = Some p" "p < h" "proof_ok True s i p"
      "msg_content s h = CancellationProof i (Some (content (msg_objs s p))) None"
      "m_signature (content (msg_objs s p)) \<noteq> None"
    then have "content ob = CancellationProof i (Some (content (msg_objs s p)))
        (m_signature (content ob))" using r(1) by simp
    then show ?thesis using e
      by (cases "content ob") (simp_all add: msg_content_def signed_head_def proof_ok_def)
  qed
  then show ?thesis using r(2) by (simp add: sent_ok_def)
qed

lemma head_msgs:
  assumes "msgs_ok True s" and q: "message_queue s = (h, topic) # rest"
    and sg: "sign C key \<lparr>content = msg_content s h, is_mutable = b\<rparr> = Inr ob"
  shows "msgs_ok True (signed_head s h rest ob)"
proof -
  let ?t = "signed_head s h rest ob"
  note r = sign_result [OF sg, simplified] and hp = head_plain [OF assms(1) q]
  have proofs: "proof_ok True ?t i p" if "proof_ok True s i p" for i p
  proof (cases "p = h")
    case True
    then have cls: "class_of (content (msg_objs s h)) = C_CommitmentProof"
      using that by (simp add: proof_ok_def)
    then have "msg_content s h = content (msg_objs s h)"
      using head_content [OF assms(1) q] by auto
    then obtain sg where "content ob = with_signature (content (msg_objs s h)) sg"
      "m_signature (content ob) \<noteq> None" using r(1,2) by fastforce
    then show ?thesis using that True cls offer_id_with_signature [OF cls]
      by (simp add: proof_ok_def signed_head_def)
  next
    case False
    then show ?thesis using that hp(4) by (simp add: proof_ok_def signed_head_def queued_def)
  qed
  have "fresh_ok True ?t m" if "m \<in> fst ` set rest" for m
  proof -
    have "m \<noteq> h" "fresh_ok True s m" using hp(2) that by auto
    moreover from this have "msg_objs ?t m = msg_objs s m" "next_msg ?t = next_msg s"
      by (simp_all add: signed_head_def)
    ultimately show ?thesis using proofs by (fastforce simp: fresh_ok_def split: option.splits)
  qed
  then have "queue_ok True ?t" using hp(3) by (simp add: queue_ok_def queued_def signed_head_def)
  moreover have "proofs_ok True ?t" using assms(1) proofs
    by (simp add: msgs_ok_def proofs_ok_def) (simp add: signed_head_def)
  ultimately show ?thesis by (simp add: msgs_ok_def)
qed

lemma dead_msgs:
  assumes "msgs_ok True s" and "message_queue s = (h, topic) # rest"
  shows "msgs_ok False (s\<lparr>message_queue := rest\<rparr>)"
proof -
  let ?t = "s\<lparr>message_queue := rest\<rparr>"
  have proofs: "proof_ok False ?t i p" if "proof_ok True s i p" for i p
    using that by (simp add: proof_ok_def)
  have "fresh_ok False ?t m" if "m \<in> fst ` set rest" for m
    using head_plain(2) [OF assms] that proofs
    by (fastforce simp: fresh_ok_def split: option.splits)
  then have "queue_ok False ?t" using head_plain(3) [OF assms] by (simp add: queue_ok_def queued_def)
  moreover have "proofs_ok False ?t" using assms(1) proofs by (simp add: msgs_ok_def proofs_ok_def)
  ultimately show ?thesis by (simp add: msgs_ok_def)
qed

lemma send_step_outbox:
  assumes "send_step K s t" and "msgs_ok (sv_sender_alive s) (sv_cs s)"
    and "\<forall>(m, topic) \<in> set (sv_outbox s). sent_ok K m"
  shows "msgs_ok (sv_sender_alive t) (sv_cs t) \<and> (\<forall>(m, topic) \<in> set (sv_outbox t). sent_ok K m)"
proof -
  obtain h topic rest x c where a: "sv_sender_alive s"
    and q: "message_queue (sv_cs s) = (h, topic) # rest"
    and p: "sender_process (cf_crypto K) (cf_privkey K) (h, topic)
          ((sv_cs s)\<lparr>message_queue := rest\<rparr>) = (x, c)"
    and t: "t = s\<lparr>sv_cs := c, sv_sender_alive := ok_result x,
           sv_outbox := sv_outbox s @ (case x of Inl _ \<Rightarrow> [] | Inr out \<Rightarrow> [out])\<rparr>"
    using assms(1) unfolding send_step_def by (metis surj_pair)
  have ok: "msgs_ok True (sv_cs s)" using assms(2) a by simp
  let ?u = "(sv_cs s)\<lparr>message_queue := rest\<rparr>"
  have "msg_objs ?u = msg_objs (sv_cs s)" by simp
  then have mc: "msg_content ?u h = msg_content (sv_cs s) h" by (rule msg_content_cong)
  show ?thesis
  proof (cases "sign (cf_crypto K) (cf_privkey K)
      \<lparr>content = msg_content (sv_cs s) h, is_mutable = is_mutable (msg_objs (sv_cs s) h)\<rparr>")
    case (Inl e)
    then have "x = Inl e" "c = ?u" using p mc by (simp_all add: sender_process_cases)
    then show ?thesis using dead_msgs [OF ok q] t assms(3) by (simp add: ok_result_def)
  next
    case (Inr ob)
    then have "x = Inr (msg_content (signed_head (sv_cs s) h rest ob) h, topic)"
      "c = signed_head (sv_cs s) h rest ob"
      using p mc by (auto simp: sender_process_cases Let_def signed_head_def)
    then show ?thesis using head_sent [OF ok q Inr] head_msgs [OF ok q Inr] t assms(3)
      by (simp add: ok_result_def)
  qed
qed

lemma service_step_outbox:
  assumes "service_step K s acc t" and "cs_ok (cf_crypto K) (sv_cs s)"
    and "msgs_ok (sv_sender_alive s) (sv_cs s)"
    and "\<forall>(m, topic) \<in> set (sv_outbox s). sent_ok K m"
  shows "msgs_ok (sv_sender_alive t) (sv_cs t) \<and> (\<forall>(m, topic) \<in> set (sv_outbox t). sent_ok K m)"
  using service_cs_step [OF assms(1,2)]
proof (elim disjE conjE exE)
  assume "swap_step K s acc t"
  then obtain l where "cs_step (cf_crypto K) (sv_cs s) l (sv_cs t)"
    "sv_sender_alive t = sv_sender_alive s" "sv_outbox t = sv_outbox s" by (auto simp: swap_step_def)
  then show ?thesis using cs_step_msgs [OF _ assms(2,3)] assms(4) by simp
next
  assume "send_step K s t"
  then show ?thesis using assms(3,4) by (rule send_step_outbox)
next
  fix u assume "t = put_refunds u s"
  moreover have "msgs_ok a (c\<lparr>refund_queue := q\<rparr>) = msgs_ok a c" for a c q
    using same_msgs [of "c\<lparr>refund_queue := q\<rparr>" c] by (simp add: msgs_ok_def proofs_ok_def)
  ultimately show ?thesis using assms(3,4) by (simp add: put_refunds_def)
qed

interpretation outbox_system: step_system service_start "\<lambda>s t. \<exists>acc. service_step K s acc t"
  "\<lambda>s. cs_ok (cf_crypto K) (sv_cs s) \<and> msgs_ok (sv_sender_alive s) (sv_cs s) \<and>
       (\<forall>(m, topic) \<in> set (sv_outbox s). sent_ok K m)" for K
proof unfold_locales
  show "cs_ok (cf_crypto K) (sv_cs service_start) \<and>
      msgs_ok (sv_sender_alive service_start) (sv_cs service_start) \<and>
      (\<forall>(m, topic) \<in> set (sv_outbox service_start). sent_ok K m)"
    using cs_start_ok [of "cf_crypto K"]
    by (simp add: service_start_def msgs_ok_def queue_ok_def proofs_ok_def queued_def)
       (simp add: cs_start_def)
next
  fix s t
  assume "\<exists>acc. service_step K s acc t"
    "cs_ok (cf_crypto K) (sv_cs s) \<and> msgs_ok (sv_sender_alive s) (sv_cs s) \<and>
       (\<forall>(m, topic) \<in> set (sv_outbox s). sent_ok K m)"
  then show "cs_ok (cf_crypto K) (sv_cs t) \<and> msgs_ok (sv_sender_alive t) (sv_cs t) \<and>
       (\<forall>(m, topic) \<in> set (sv_outbox t). sent_ok K m)"
    using service_step_ok service_step_outbox by blast
qed

lemma run_outbox:
  "service_run K rs s \<Longrightarrow> \<forall>(m, topic) \<in> set (sv_outbox s). sent_ok K m"
  using outbox_system.inv_reachable [OF run_reachable] by blast


section \<open>The transfers\<close>

text \<open>Every transfer in flight or done is the one its refund asks for.\<close>

definition refunds_ok :: "service_config \<Rightarrow> service \<Rightarrow> bool" where
  "refunds_ok K s \<longleftrightarrow>
     cs_ok (cf_crypto K) (sv_cs s) \<and> transfers_ok (cf_fee_rate K) (cf_token K) (sv_refunds s)"

lemma service_step_refunds:
  assumes "service_step K s acc t" and "refunds_ok K s" shows "refunds_ok K t"
proof -
  have ok: "cs_ok (cf_crypto K) (sv_cs t)"
    using assms by (auto simp: refunds_ok_def intro: service_step_ok)
  have "cs_ok (cf_crypto K) (sv_cs s)" using assms(2) by (simp add: refunds_ok_def)
  from service_cs_step [OF assms(1) this]
  have "transfers_ok (cf_fee_rate K) (cf_token K) (sv_refunds t)"
  proof (elim disjE conjE exE)
    fix u assume u: "refund_step (cf_fee_rate K) (cf_token K) (refund_view s) u"
      and t: "t = put_refunds u s"
    have "transfers_ok (cf_fee_rate K) (cf_token K) (refund_view s)"
      using assms(2) by (simp add: refunds_ok_def refund_view_def transfers_ok_def)
    then have "transfers_ok (cf_fee_rate K) (cf_token K) u" using transfers_ok_step [OF u] by simp
    then show ?thesis using t by (simp add: put_refunds_def transfers_ok_def)
  qed (use assms(2) in \<open>auto simp: refunds_ok_def send_fields swap_step_def\<close>)
  with ok show ?thesis by (simp add: refunds_ok_def)
qed

interpretation refunds_system: step_system service_start "\<lambda>s t. \<exists>acc. service_step K s acc t"
  "refunds_ok K" for K
proof unfold_locales
  show "refunds_ok K service_start"
    by (simp add: refunds_ok_def service_start_def cs_start_ok transfers_ok_def refund_start_def)
qed (blast intro: service_step_refunds)

lemma run_refunds: "service_run K rs s \<Longrightarrow> refunds_ok K s"
  by (rule refunds_system.inv_reachable [OF run_reachable])

text \<open>The fee is claimed for the deposits of swaps that were traded, and for no others.\<close>

definition traded_receipt :: "cs \<Rightarrow> transfer_receipt \<Rightarrow> bool" where
  "traded_receipt s rc \<longleftrightarrow> (\<exists>r < next_swap s. sw_state (swap_objs s r) = Processed \<and>
     sw_terminated_state (swap_objs s r) = Some Traded \<and>
     Some rc \<in> {sw_maker_transfer_receipt (swap_objs s r), sw_taker_transfer_receipt (swap_objs s r)})"

definition fees_ok :: "service \<Rightarrow> bool" where
  "fees_ok s \<longleftrightarrow> (\<forall>rf \<in># refund_account (refund_view s).
     rf_claim_fee rf \<longrightarrow> traded_receipt (sv_cs s) (rf_receipt rf))"

lemma traded_receipt_same:
  "swap_objs t = swap_objs s \<Longrightarrow> next_swap t = next_swap s \<Longrightarrow> traded_receipt t rc = traded_receipt s rc"
  by (simp add: traded_receipt_def)

lemma effect_ended_kept:
  "swap_effect C r s l t \<Longrightarrow> sw_state (swap_objs s q) = Processed \<Longrightarrow> swap_objs t q = swap_objs s q"
  by (erule swap_effect_E) (auto simp: effect_defs traded_def)

lemma effect_traded_kept:
  assumes "swap_effect C r s l t" and "traded_receipt s rc" shows "traded_receipt t rc"
proof -
  obtain q where "q < next_swap s" "sw_state (swap_objs s q) = Processed"
      "sw_terminated_state (swap_objs s q) = Some Traded"
      "Some rc \<in> {sw_maker_transfer_receipt (swap_objs s q), sw_taker_transfer_receipt (swap_objs s q)}"
    using assms(2) by (auto simp: traded_receipt_def)
  then show ?thesis using effect_ended_kept [OF assms(1)] effect_next [OF assms(1)]
    unfolding traded_receipt_def by metis
qed

lemma effect_fees:
  assumes "swap_effect C r s l t" and "r < next_swap s"
    and "\<forall>rf \<in># refund_queue s. rf_claim_fee rf \<longrightarrow> traded_receipt s (rf_receipt rf)"
    and "rf \<in># refund_queue t" and "rf_claim_fee rf"
  shows "traded_receipt t (rf_receipt rf)"
proof (cases "rf \<in># refund_queue s")
  case True
  then show ?thesis using assms(3,5) effect_traded_kept [OF assms(1)] by blast
next
  case False
  from assms(1) show ?thesis
  proof cases
    case (ef_traded rm rt m w now)
    then have "rf_receipt rf \<in> {rm, rt}" "sw_state (swap_objs t r) = Processed"
        "sw_terminated_state (swap_objs t r) = Some Traded"
        "sw_maker_transfer_receipt (swap_objs t r) = Some rm"
        "sw_taker_transfer_receipt (swap_objs t r) = Some rt" "next_swap t = next_swap s"
      using assms(4) False by (auto simp: traded_def effect_defs)
    then show ?thesis using assms(2) by (auto simp: traded_receipt_def)
  qed (use assms(4,5) False in \<open>auto simp: effect_defs\<close>)
qed

lemma cs_step_fees:
  assumes "cs_step C s l t" and "cs_ok C s"
    and "\<forall>rf \<in># refund_queue s. rf_claim_fee rf \<longrightarrow> traded_receipt s (rf_receipt rf)"
  shows "(\<forall>rf \<in># refund_queue t. rf_claim_fee rf \<longrightarrow> traded_receipt t (rf_receipt rf)) \<and>
    (\<forall>rc. traded_receipt s rc \<longrightarrow> traded_receipt t rc)"
  using assms(1)
proof cases
  case (cs_swap u r)
  have same: "traded_receipt u = traded_receipt s" "refund_queue u = refund_queue s"
    using cs_swap(1) by (auto simp: same_swaps_def intro!: ext traded_receipt_same)
  show ?thesis
    using effect_fees [OF cs_swap(4,3)] effect_traded_kept [OF cs_swap(4)] assms(3) by (simp add: same)
next
  case cs_idle
  then show ?thesis using assms(3) traded_receipt_same [of t s] by (simp add: same_swaps_def)
next
  case (cs_make i secret)
  let ?u = "snd (make_swap C secret i s)"
  note f = make_swap_fields [OF cs_make(2), of C secret]
  have kept: "traded_receipt ?u rc" if "traded_receipt s rc" for rc
  proof -
    obtain q where "q < next_swap s" "sw_state (swap_objs s q) = Processed"
        "sw_terminated_state (swap_objs s q) = Some Traded"
        "Some rc \<in> {sw_maker_transfer_receipt (swap_objs s q), sw_taker_transfer_receipt (swap_objs s q)}"
      using \<open>traded_receipt s rc\<close> by (auto simp: traded_receipt_def)
    then show ?thesis unfolding traded_receipt_def f by (intro exI [of _ q]) simp
  qed
  then have "\<forall>rf \<in># refund_queue ?u. rf_claim_fee rf \<longrightarrow> traded_receipt ?u (rf_receipt rf)"
    using assms(3) by (simp add: f)
  from effect_fees [OF cs_make(3) _ this] show ?thesis
    using effect_traded_kept [OF cs_make(3)] kept by (simp add: f)
qed

lemma service_step_fees:
  assumes "service_step K s acc t" and "cs_ok (cf_crypto K) (sv_cs s)" and "fees_ok s"
  shows "fees_ok t"
  using service_cs_step [OF assms(1,2)]
proof (elim disjE conjE exE)
  assume "swap_step K s acc t"
  then obtain l where step: "cs_step (cf_crypto K) (sv_cs s) l (sv_cs t)" and same: "sv_refunds t = sv_refunds s"
    by (auto simp: swap_step_def)
  have "\<forall>rf \<in># refund_queue (sv_cs s). rf_claim_fee rf \<longrightarrow> traded_receipt (sv_cs s) (rf_receipt rf)"
    using assms(3) by (simp add: fees_ok_def refund_account_def refund_view_def)
  from cs_step_fees [OF step assms(2) this] show ?thesis
    using assms(3) by (auto simp: fees_ok_def refund_account_def refund_view_def same)
next
  assume "send_step K s t"
  then show ?thesis using assms(3) traded_receipt_same [of "sv_cs t" "sv_cs s"]
    by (simp add: fees_ok_def refund_view_def send_fields)
next
  fix u assume u: "refund_step (cf_fee_rate K) (cf_token K) (refund_view s) u" and t: "t = put_refunds u s"
  have "refund_view t = u" by (simp add: t refund_view_def put_refunds_def)
  then show ?thesis using assms(3) account_step [OF u] traded_receipt_same [of "sv_cs t" "sv_cs s"]
    by (simp add: fees_ok_def t put_refunds_def)
qed

interpretation fees_system: step_system service_start "\<lambda>s t. \<exists>acc. service_step K s acc t"
  "\<lambda>s. cs_ok (cf_crypto K) (sv_cs s) \<and> fees_ok s" for K
proof unfold_locales
  show "cs_ok (cf_crypto K) (sv_cs service_start) \<and> fees_ok service_start"
    by (simp add: cs_start_ok fees_ok_def service_start_def refund_view_def refund_account_def
        refund_start_def) (simp add: cs_start_def)
qed (blast intro: service_step_ok service_step_fees)

lemma run_fees: "service_run K rs s \<Longrightarrow> fees_ok s"
  using fees_system.inv_reachable [OF run_reachable] by blast

end
