(* ===== verification/Service_Properties.thy ===== *)
theory Service_Properties
  imports Outbox
begin

text \<open>
  The properties of the commitment service, each with a concrete instance: a service whose
  cryptography is a simple function, which takes a commitment and the maker's deposit.
\<close>

section \<open>A concrete service\<close>

definition demo_crypto :: crypto where
  "demo_crypto = \<lparr>keccak = (\<lambda>b. b), rlp_encode = (\<lambda>_. Inr [1]), sign_msg = (\<lambda>k h. k),
     recover_address = (\<lambda>s h. Inr s)\<rparr>"

definition demo_config :: service_config where
  "demo_config = \<lparr>cf_crypto = demo_crypto, cf_privkey = replicate 32 1,
     cf_fee_rate = Some (PFloat (1/4)), cf_token = [7]\<rparr>"

definition demo_commitment :: message where
  "demo_commitment = Commitment 7 [] 1000 1 (Some [1])"

definition demo_receipt :: transfer_receipt where
  "demo_receipt = \<lparr>tr_initiator = [1], tr_amount = 4, tr_identifier = 7, tr_timestamp = 0\<rparr>"

text \<open>The swap and the service state after the commitment, and after the deposit.\<close>

definition demo_swap1 :: swap where
  "demo_swap1 = (swap_init demo_crypto 7 (Some 7) True [9])
     \<lparr>sw_state := Wait_for_maker, sw_maker_commitment_msg := Some demo_commitment\<rparr>"

definition demo_swap2 :: swap where
  "demo_swap2 = demo_swap1\<lparr>sw_state := Wait_for_taker,
     sw_maker_transfer_receipt := Some demo_receipt, sw_maker_commitment_proof := Some 0\<rparr>"

definition demo_cs1 :: cs where
  "demo_cs1 = cs_start\<lparr>swap_objs := (\<lambda>_. blank_swap)(0 := demo_swap1), next_swap := 1,
     swaps := [(7, 0)], timers := [(1, 0)]\<rparr>"

definition demo_cs2 :: cs where
  "demo_cs2 = post (CommitmentProof (Some [1]) [9] [9] 7 None) None (Some [1])
     (put_swap 0 demo_swap2 demo_cs1)"

definition demo_committed :: service where
  "demo_committed = service_start\<lparr>sv_cs := demo_cs1\<rparr>"

definition demo_paid :: service where
  "demo_paid = demo_committed\<lparr>sv_cs := demo_cs2\<rparr>"

definition demo_sent :: service where
  "demo_sent = demo_paid\<lparr>sv_cs := signed_head demo_cs2 0 []
       \<lparr>content = CommitmentProof (Some [1]) [9] [9] 7 (Some (replicate 32 1)), is_mutable = False\<rparr>,
     sv_outbox := [(CommitmentProof (Some [1]) [9] [9] 7 (Some (replicate 32 1)), Some [1])]\<rparr>"

lemma demo_clock: "clock_ok 0"
  by (simp add: clock_ok_def datetime_min_def datetime_max_def)

lemma demo_seconds: "seconds_to_timeout 0 1000 = Inr 1"
  using to_double_of_int [of 1]
  by (simp add: seconds_to_timeout_def ms_timestamp_to_dt_def mk_datetime_def datetime_min_def
      datetime_max_def total_seconds_def int_truediv_def)

lemma demo_made:
  "make_swap demo_crypto [9] 7 cs_start =
     (Inr (Some 0), cs_start\<lparr>swap_objs := (\<lambda>_. blank_swap)(0 := swap_init demo_crypto 7 (Some 7) True [9]),
        next_swap := 1, swaps := [(7, 0)]\<rparr>)"
  by (simp add: make_swap_def id_collides_def cs_start_def dict_set_new)

lemma demo_commit:
  "commitment_process demo_crypto 0 [9] demo_commitment cs_start = (Inr (), demo_cs1)"
proof -
  have "dict_get 7 (swaps cs_start) = None" "next_swap cs_start = 0" by (simp_all add: cs_start_def)
  then show ?thesis
    by (simp add: commitment_new demo_commitment_def demo_made seq_unit maker_commitment_step
        swap_init_def demo_seconds Let_def put_swap_def demo_cs1_def demo_swap1_def)
       (simp add: cs_start_def)
qed

lemma demo_deposit:
  "transfer_received_process demo_crypto 0 demo_receipt demo_cs1 = (Inr (), demo_cs2)"
proof -
  have w: "swap_objs demo_cs1 0 = demo_swap1" "swaps demo_cs1 = [(7, 0)]" "next_msg demo_cs1 = 0"
    by (simp_all add: demo_cs1_def cs_start_def)
  have s: "sw_state demo_swap1 = Wait_for_maker"
    "sw_maker_commitment_msg demo_swap1 = Some demo_commitment"
    "sw_secret demo_swap1 = [9]" "sw_secret_hash demo_swap1 = [9]" "sw_offer_id demo_swap1 = 7"
    by (simp_all add: demo_swap1_def swap_init_def demo_crypto_def)
  have "sender demo_crypto demo_commitment = Inr [1]"
    by (simp add: sender_def demo_commitment_def demo_crypto_def hash_without_signature_def)
  then have "hand_transfer_receipt demo_crypto 0 demo_receipt 0 demo_cs1 = (Inr True, demo_cs2)"
    using receipt_maker_step [of demo_cs1 0 demo_commitment demo_crypto 0 demo_receipt] w s
    by (simp add: demo_receipt_def demo_cs2_def demo_swap2_def)
       (simp add: demo_commitment_def)
  then show ?thesis
    by (simp add: transfer_received_process_def prog_simps w dict_get_def demo_receipt_def)
qed

lemma demo_run_committed: "service_run demo_config {#} demo_committed"
proof -
  have "service_step demo_config service_start {#} demo_committed"
    using st_commitment [of service_start 0 demo_config "[9]" demo_commitment "Inr ()" demo_cs1]
    by (simp add: demo_committed_def service_start_def demo_config_def demo_clock demo_commit
        ok_result_def)
  then show ?thesis using run_step [OF run_start] by fastforce
qed

lemma demo_step_paid: "service_step demo_config demo_committed {#demo_receipt#} demo_paid"
proof -
  have "{#demo_receipt#} = (if dict_mem (tr_identifier demo_receipt) (swaps (sv_cs demo_committed))
      then {#demo_receipt#} else {#})"
    by (simp add: demo_receipt_def demo_committed_def demo_cs1_def dict_mem_def dict_get_def)
  then show ?thesis
    using st_transfer [of demo_committed 0 demo_config demo_receipt "Inr ()" demo_cs2] demo_clock
      demo_deposit
    by (simp add: demo_paid_def demo_committed_def service_start_def ok_result_def)
       (simp add: demo_config_def)
qed

lemma demo_run_paid: "service_run demo_config {#demo_receipt#} demo_paid"
  using run_step [OF demo_run_committed demo_step_paid] by simp

lemma demo_sign:
  "sign demo_crypto (replicate 32 1)
     \<lparr>content = CommitmentProof (Some [1]) [9] [9] 7 None, is_mutable = True\<rparr> =
   Inr \<lparr>content = CommitmentProof (Some [1]) [9] [9] 7 (Some (replicate 32 1)), is_mutable = False\<rparr>"
  by (simp add: sign_def is_instance_def hash_without_signature_def demo_crypto_def)

lemma demo_run_sent: "service_run demo_config {#demo_receipt#} demo_sent"
proof -
  have "service_step demo_config demo_paid {#} demo_sent"
    using st_send [of demo_paid "(0, Some [1])" "[]" demo_config
      "Inr (CommitmentProof (Some [1]) [9] [9] 7 (Some (replicate 32 1)), Some [1])"
      "sv_cs demo_sent"]
    by (simp add: demo_sent_def demo_paid_def demo_committed_def demo_cs2_def demo_cs1_def cs_start_def
        service_start_def post_def put_swap_def sender_process_cases msg_content_def Let_def
        signed_head_def ok_result_def demo_config_def demo_sign)
  then show ?thesis using run_step [OF demo_run_paid] by fastforce
qed

section \<open>The service over its whole life\<close>

text \<open>C1: no deposit goes missing and none is paid twice: at every moment of every run, the receipts that
  swaps were handed are, each as often as it was handed, those held by running or failed swaps together with
  those of the refunds that are queued, in flight, paid or dropped by a failing transfer, as long as the task that
  hands over the receipts lives. When it has died, at most one receipt is missing, a deposit for an offer
  whose commitment has no sender that can be recovered.\<close>

theorem deposits_conserved:
  assumes "service_run K rs s"
  shows "\<exists>d. held_by_swaps (sv_cs s) + image_mset rf_receipt (refund_account (refund_view s)) + d = rs \<and>
    (sv_transfer_alive s \<longrightarrow> d = {#}) \<and> size d \<le> 1 \<and>
    (\<forall>rc \<in># d. no_sender (cf_crypto K) (sv_cs s) (tr_identifier rc))"
  using run_account [OF assms] by (fastforce simp: service_account_def lost_deposit_def)

theorem deposits_conserved_witness:
  "held_by_swaps (sv_cs demo_paid) + image_mset rf_receipt (refund_account (refund_view demo_paid))
     = {#demo_receipt#}"
proof -
  have "sv_transfer_alive demo_paid" by (simp add: demo_paid_def demo_committed_def service_start_def)
  then show ?thesis using deposits_conserved [OF demo_run_paid] by auto
qed

text \<open>The missing receipt: an unsigned commitment opens a swap, and the next deposit for its offer, whoever
  made it, raises in the swap; it is neither kept nor refunded.\<close>

theorem unsigned_deposit_lost:
  assumes "dict_get (tr_identifier rc) (swaps s) = Some r" and "sw_state (swap_objs s r) = Wait_for_maker"
    and "sw_maker_commitment_msg (swap_objs s r) = Some m" and "sender C m = Inl e"
  shows "transfer_received_process C now rc s = (Inl e, s)"
  using assms(1,4) receipt_maker_step [OF assms(2,3), of C now rc]
  by (simp add: transfer_received_process_def prog_simps)

theorem unsigned_deposit_lost_witness:
  "\<exists>s. commitment_process demo_crypto 0 [9] (Commitment 7 [] 1000 1 None) cs_start = (Inr (), s) \<and>
     transfer_received_process demo_crypto 0 demo_receipt s = (Inl SignatureMissingError, s)"
proof -
  let ?m = "Commitment 7 [] 1000 1 None"
  let ?w = "(swap_init demo_crypto 7 (Some 7) True [9])\<lparr>sw_state := Wait_for_maker, sw_maker_commitment_msg := Some ?m\<rparr>"
  let ?s = "cs_start\<lparr>swap_objs := (\<lambda>_. blank_swap)(0 := ?w), next_swap := 1, swaps := [(7, 0)], timers := [(1, 0)]\<rparr>"
  have "dict_get 7 (swaps cs_start) = None" "next_swap cs_start = 0" by (simp_all add: cs_start_def)
  then have "commitment_process demo_crypto 0 [9] ?m cs_start = (Inr (), ?s)"
    by (simp add: commitment_new demo_made seq_unit maker_commitment_step swap_init_def demo_seconds Let_def put_swap_def)
       (simp add: cs_start_def)
  moreover have "transfer_received_process demo_crypto 0 demo_receipt ?s = (Inl SignatureMissingError, ?s)"
    by (rule unsigned_deposit_lost [of _ _ 0 ?m]) (simp_all add: demo_receipt_def dict_get_def sender_def)
  ultimately show ?thesis by blast
qed

text \<open>C8: in every reachable state each swap has what its state says (who committed, who paid,
  who executed, how it ended), the dictionary of swaps holds exactly those that have not ended,
  each under its own offer id, and timers refer to swaps that exist.\<close>

theorem swaps_invariant:
  assumes "service_run K rs s" shows "cs_ok (cf_crypto K) (sv_cs s)"
  using assms by (rule run_cs_ok)

theorem swaps_invariant_witness: "cs_ok demo_crypto (sv_cs demo_paid)"
  using swaps_invariant [OF demo_run_paid] by (simp add: demo_config_def)

text \<open>C15: the service refines the abstract deal: in every step of a run each swap stays where it
  is or makes one step of the deal (nobody paid, maker paid, both paid, one executed, ended), so
  that an ended deal never changes again.\<close>

theorem deal_refined:
  assumes "service_run K rs s" and "service_step K s acc t" and "q < next_swap (sv_cs s)"
  shows "deal_of (swap_objs (sv_cs t) q) = deal_of (swap_objs (sv_cs s) q) \<or>
         deal_step (deal_of (swap_objs (sv_cs s) q)) (deal_of (swap_objs (sv_cs t) q))"
  using service_deal_step [OF assms(2) run_cs_ok [OF assms(1)] assms(3)]
  by (auto simp: deal_moves_def)

theorem deal_refined_witness:
  "deal_of (swap_objs (sv_cs demo_paid) 0) = deal_of (swap_objs (sv_cs demo_committed) 0) \<or>
   deal_step (deal_of (swap_objs (sv_cs demo_committed) 0)) (deal_of (swap_objs (sv_cs demo_paid) 0))"
  using deal_refined [OF demo_run_committed demo_step_paid, of 0]
  by (simp add: demo_committed_def demo_cs1_def)

text \<open>C16: whatever the service has handed to the message broker is signed with its key over the
  content sent, and every cancellation proof among it carries a signed commitment proof for the
  same offer.\<close>

theorem outbox_signed:
  assumes "service_run K rs s" and "(m, topic) \<in> set (sv_outbox s)"
  shows "(\<exists>h. hash_without_signature (cf_crypto K) m = Inr h \<and>
            m_signature m = Some (sign_msg (cf_crypto K) (cf_privkey K) h)) \<and>
         (class_of m = C_CancellationProof \<longrightarrow>
           (\<exists>p. m_cancellation_proof m = Some p \<and> class_of p = C_CommitmentProof \<and>
                m_signature p \<noteq> None \<and> m_offer_id p = m_offer_id m))"
  using run_outbox [OF assms(1)] assms(2) by (auto simp: sent_ok_def)


theorem outbox_signed_witness:
  "\<exists>h. hash_without_signature demo_crypto
         (CommitmentProof (Some [1]) [9] [9] 7 (Some (replicate 32 1))) = Inr h \<and>
       Some (replicate 32 1) = Some (sign_msg demo_crypto (replicate 32 1) h)"
  using outbox_signed [OF demo_run_sent,
    of "CommitmentProof (Some [1]) [9] [9] 7 (Some (replicate 32 1))" "Some [1]"]
  by (simp add: demo_config_def demo_sent_def)


section \<open>Single steps\<close>

definition timeout_result :: "nat \<Rightarrow> cs \<Rightarrow> cs \<Rightarrow> bool" where
  "timeout_result r s t \<longleftrightarrow> sw_state (swap_objs t r) = Processed \<and>
    sw_terminated_state (swap_objs t r) =
      Some (if sw_state (swap_objs s r) \<in> {Initializing, Wait_for_maker} then Uncommitted
            else if sw_state (swap_objs s r) = Wait_for_taker then Untraded else Failed) \<and>
    (\<forall>q. q \<noteq> r \<longrightarrow> swap_objs t q = swap_objs s q) \<and>
    swaps t = dict_del (sw_offer_id (swap_objs s r)) (swaps s) \<and>
    refund_queue t =
      (case sw_maker_transfer_receipt (swap_objs s r) of
         Some rc \<Rightarrow>
           if sw_state (swap_objs s r) = Wait_for_taker
           then add_mset \<lparr>rf_receipt = rc, rf_priority = 1, rf_claim_fee = False\<rparr> (refund_queue s)
           else refund_queue s
       | None \<Rightarrow> refund_queue s)"

lemma timeout_ended:
  assumes "cs_ok C s" and "r < next_swap s" and "sw_state (swap_objs s r) \<noteq> Processed"
  shows "\<exists>t. trigger_timeout C now r s = (Inr True, t) \<and> timeout_result r s t"
proof -
  note f = live_facts [OF assms]
  from f(2) assms(3) show ?thesis
  proof (cases rule: swap_state_cases)
    case 3
    then have "maker_paid C (swap_objs s r)" using f(2) by (simp add: swap_ok_def)
    then obtain rc where "sw_maker_transfer_receipt (swap_objs s r) = Some rc"
      "maker_address C (swap_objs s r) = Inr (Some (tr_initiator rc))"
      using maker_paid_address by blast
    then show ?thesis using f(1) 3
      by (simp add: trigger_timeout_def timeout_untraded effect_defs timeout_result_def)
  qed (simp_all add: trigger_timeout_def timeout_uncommitted [OF f(1)] timeout_failed [OF f(1)]
        effect_defs timeout_result_def split: option.split)
qed

lemma live_entry:
  "cs_ok C s \<Longrightarrow> r < next_swap s \<Longrightarrow> sw_state (swap_objs s r) \<noteq> Processed \<Longrightarrow>
    dict_get (sw_offer_id (swap_objs s r)) (swaps s) = Some r"
  by (auto simp: cs_ok_def entry_ok_def)

lemma cancellation_is_timeout:
  assumes "cs_ok C s"
  shows "cancellation_request_process C now (Cancellation i sg) s =
    (Inr (), case dict_get i (swaps s) of None \<Rightarrow> s | Some q \<Rightarrow> snd (trigger_timeout C now q s))"
proof (cases "dict_get i (swaps s)")
  case None
  then show ?thesis
    by (simp add: cancellation_request_process_def has_offer_id_def is_instance_def prog_simps)
next
  case (Some q)
  then have "q < next_swap s" "sw_state (swap_objs s q) \<noteq> Processed"
    using cs_ok_lookup [OF assms] by simp_all
  then obtain t where "trigger_timeout C now q s = (Inr True, t)" using timeout_ended [OF assms] by blast
  then show ?thesis using Some
    by (simp add: cancellation_request_process_def has_offer_id_def is_instance_def prog_simps
        hand_cancellation_msg_def trigger_timeout_def)
qed

text \<open>C26: a timeout, or a cancellation for the offer of a swap, whoever signed it, ends a running swap at
  once: it is taken from the dictionary and marked processed; before the maker's deposit it ends uncommitted,
  before the taker's untraded with the whole deposit of the maker queued for refund, later failed with both
  deposits kept. Other swaps are not touched. It raises nothing; a cancellation for an offer without a swap does nothing.\<close>

theorem timeout_outcome:
  assumes "cs_ok C s" and "r < next_swap s" and "sw_state (swap_objs s r) \<noteq> Processed"
  shows "\<exists>t. trigger_timeout C now r s = (Inr True, t) \<and>
    (\<forall>i sg. cancellation_request_process C now (Cancellation i sg) s =
      (Inr (), if i = sw_offer_id (swap_objs s r) then t
        else case dict_get i (swaps s) of None \<Rightarrow> s | Some q \<Rightarrow> snd (trigger_timeout C now q s))) \<and>
    sw_state (swap_objs t r) = Processed \<and>
    sw_terminated_state (swap_objs t r) =
      Some (if sw_state (swap_objs s r) \<in> {Initializing, Wait_for_maker} then Uncommitted
            else if sw_state (swap_objs s r) = Wait_for_taker then Untraded else Failed) \<and>
    (\<forall>q. q \<noteq> r \<longrightarrow> swap_objs t q = swap_objs s q) \<and>
    swaps t = dict_del (sw_offer_id (swap_objs s r)) (swaps s) \<and>
    refund_queue t =
      (case sw_maker_transfer_receipt (swap_objs s r) of
         Some rc \<Rightarrow>
           if sw_state (swap_objs s r) = Wait_for_taker
           then add_mset \<lparr>rf_receipt = rc, rf_priority = 1, rf_claim_fee = False\<rparr> (refund_queue s)
           else refund_queue s
       | None \<Rightarrow> refund_queue s)"
proof -
  obtain t where t: "trigger_timeout C now r s = (Inr True, t)" "timeout_result r s t"
    using timeout_ended [OF assms] by blast
  have "cancellation_request_process C now (Cancellation i sg) s =
      (Inr (), if i = sw_offer_id (swap_objs s r) then t
        else case dict_get i (swaps s) of None \<Rightarrow> s | Some q \<Rightarrow> snd (trigger_timeout C now q s))" for i sg
    using cancellation_is_timeout [OF assms(1), of now i sg] live_entry [OF assms] t(1) by auto
  then show ?thesis using t by (intro exI [of _ t]) (auto simp: timeout_result_def)
qed

lemma demo_cs2_ok: "cs_ok demo_crypto demo_cs2"
  using run_cs_ok [OF demo_run_paid] by (simp add: demo_paid_def demo_config_def)

lemma demo_cs2_swap: "swap_objs demo_cs2 0 = demo_swap2" "next_swap demo_cs2 = 1"
  by (simp_all add: demo_cs2_def demo_cs1_def)

lemma demo_swap2_fields:
  "sw_state demo_swap2 = Wait_for_taker" "sw_maker_transfer_receipt demo_swap2 = Some demo_receipt"
  by (simp_all add: demo_swap2_def)

theorem timeout_outcome_witness:
  "\<exists>t. trigger_timeout demo_crypto 0 0 demo_cs2 = (Inr True, t) \<and>
     cancellation_request_process demo_crypto 0 (Cancellation 7 None) demo_cs2 = (Inr (), t) \<and>
     sw_terminated_state (swap_objs t 0) = Some Untraded \<and>
     refund_queue t =
       {#\<lparr>rf_receipt = demo_receipt, rf_priority = 1, rf_claim_fee = False\<rparr>#}"
proof -
  have "sw_offer_id (swap_objs demo_cs2 0) = 7" "refund_queue demo_cs2 = {#}"
    by (simp add: demo_cs2_swap demo_swap2_def demo_swap1_def swap_init_def)
       (simp add: demo_cs2_def demo_cs1_def cs_start_def post_def put_swap_def)
  then show ?thesis
    using timeout_outcome [OF demo_cs2_ok, of 0 0] by (auto simp: demo_cs2_swap demo_swap2_fields)
qed

text \<open>The sender the swap still waits for.\<close>

definition awaited :: "swap \<Rightarrow> bytes" where
  "awaited w = payer (if sw_state w = Wait_for_taker_execution then sw_taker_transfer_receipt w
     else sw_maker_transfer_receipt w)"

text \<open>C27: in the last waiting states the execution message of the awaited party, and of nobody else,
  ends the swap as traded: both deposits are queued for refund, each with the fee claimed. From
  anybody else it changes nothing and reports that.\<close>

theorem execution_outcome:
  assumes "cs_ok C s" and "r < next_swap s" and "clock_ok now" and "msg_party C m = Inr a"
    and "sw_state (swap_objs s r) \<in> {Wait_for_taker_execution, Wait_for_maker_execution}"
  shows "\<exists>t. hand_swap_execution_msg C now m r s =
      (if a = awaited (swap_objs s r) then (Inr True, t) else (Inr False, s)) \<and>
    sw_terminated_state (swap_objs t r) = Some Traded \<and>
    swaps t = dict_del (sw_offer_id (swap_objs s r)) (swaps s) \<and>
    refund_queue t = refund_queue s +
      {#\<lparr>rf_receipt = the (sw_maker_transfer_receipt (swap_objs s r)), rf_priority = 1, rf_claim_fee = True\<rparr>,
        \<lparr>rf_receipt = the (sw_taker_transfer_receipt (swap_objs s r)), rf_priority = 1, rf_claim_fee = True\<rparr>#}"
proof -
  let ?w = "swap_objs s r"
  have np: "sw_state ?w \<noteq> Processed" using assms(5) by auto
  note f = live_facts [OF assms(1,2) np]
  have mp: "maker_paid C ?w" and tp: "taker_paid C ?w"
    using f(2) assms(5) by (auto simp: swap_ok_def)
  obtain rm where rm: "sw_maker_transfer_receipt ?w = Some rm"
      "maker_address C ?w = Inr (Some (tr_initiator rm))" using maker_paid_address [OF mp] by blast
  obtain rt where rt: "sw_taker_transfer_receipt ?w = Some rt"
      "taker_address C ?w = Inr (Some (tr_initiator rt))" using taker_paid_address [OF tp] by blast
  obtain t where t: "time_now now = Inr t" using clock_time [OF assms(3)] by blast
  have aw: "sw_state ?w = Wait_for_taker_execution \<Longrightarrow> awaited ?w = tr_initiator rt"
    "sw_state ?w = Wait_for_maker_execution \<Longrightarrow> awaited ?w = tr_initiator rm"
    by (simp_all add: awaited_def payer_def rm rt)
  from assms(5) consider "sw_state ?w = Wait_for_taker_execution" | "sw_state ?w = Wait_for_maker_execution"
    by auto
  then show ?thesis
  proof cases
    case 1
    show ?thesis
      by (rule exI [of _ "traded t r (?w\<lparr>sw_taker_swap_execution_msg := Some m\<rparr>) rm rt s"])
         (use 1 in \<open>simp add: execution_taker_step [OF f(1) 1 rt(2) rm(1) rt(1) t] assms(4) aw traded_def
           effect_defs rm(1) rt(1)\<close>)
  next
    case 2
    show ?thesis
      by (rule exI [of _ "traded t r (?w\<lparr>sw_maker_swap_execution_msg := Some m\<rparr>) rm rt s"])
         (use 2 in \<open>simp add: execution_maker_step [OF f(1) 2 rm(2) rm(1) rt(1) t] assms(4) aw traded_def
           effect_defs rm(1) rt(1)\<close>)
  qed
qed

text \<open>A swap whose maker has executed.\<close>

definition demo_execution :: "bytes \<Rightarrow> message" where
  "demo_execution who = SwapExecution 7 0 (Some who)"

definition demo_taker_receipt :: transfer_receipt where
  "demo_taker_receipt = \<lparr>tr_initiator = [2], tr_amount = 4, tr_identifier = 7, tr_timestamp = 0\<rparr>"

definition demo_swap3 :: swap where
  "demo_swap3 = demo_swap2\<lparr>sw_state := Wait_for_taker_execution,
     sw_taker_commitment_msg := Some (Commitment 7 [] 1000 1 (Some [2])),
     sw_taker_transfer_receipt := Some demo_taker_receipt,
     sw_maker_swap_execution_msg := Some (demo_execution [1])\<rparr>"

definition demo_cs3 :: cs where
  "demo_cs3 = put_swap 0 demo_swap3 demo_cs2"

lemma demo_sender:
  "sender demo_crypto demo_commitment = Inr [1]"
  "sender demo_crypto (Commitment 7 [] 1000 1 (Some [2])) = Inr [2]"
  "who \<noteq> [] \<Longrightarrow> sender demo_crypto (demo_execution who) = Inr who"
  "who \<noteq> [] \<Longrightarrow> msg_party demo_crypto (demo_execution who) = Inr who"
  by (simp_all add: sender_def demo_commitment_def demo_execution_def demo_crypto_def
      hash_without_signature_def msg_party_def msg_truth_def is_instance_def)

lemma demo_swap3_ok: "swap_ok demo_crypto demo_swap3"
  by (simp add: swap_ok_defs demo_swap3_def demo_swap2_def demo_swap1_def swap_init_def demo_sender
      demo_receipt_def demo_taker_receipt_def)

lemma demo_cs2_live: "live 0 demo_cs2"
  using cs_ok_live [OF demo_cs2_ok, of 0] by (simp add: demo_cs2_swap demo_swap2_fields)

lemma demo_cs3_ok: "cs_ok demo_crypto demo_cs3"
  unfolding demo_cs3_def
  by (rule cs_ok_put [OF demo_cs2_ok demo_cs2_live demo_swap3_ok])
     (simp_all add: demo_cs2_swap demo_swap3_def demo_swap2_def demo_swap1_def swap_init_def)

lemma demo_cs3_swap:
  "swap_objs demo_cs3 0 = demo_swap3" "next_swap demo_cs3 = 1" "swaps demo_cs3 = [(7, 0)]"
  by (simp_all add: demo_cs3_def demo_cs2_def demo_cs1_def) (simp add: post_def)

lemma demo_swap3_fields:
  "sw_state demo_swap3 = Wait_for_taker_execution" "awaited demo_swap3 = [2]"
  "sw_offer_id demo_swap3 = 7"
  by (simp_all add: demo_swap3_def demo_swap2_def demo_swap1_def swap_init_def awaited_def payer_def
      demo_taker_receipt_def)

theorem execution_outcome_witness:
  "(\<exists>t. hand_swap_execution_msg demo_crypto 0 (demo_execution [2]) 0 demo_cs3 = (Inr True, t) \<and>
        sw_terminated_state (swap_objs t 0) = Some Traded) \<and>
   hand_swap_execution_msg demo_crypto 0 (demo_execution [1]) 0 demo_cs3 = (Inr False, demo_cs3)"
  using execution_outcome [OF demo_cs3_ok _ demo_clock demo_sender(4), of 0 "[2]"]
    execution_outcome [OF demo_cs3_ok _ demo_clock demo_sender(4), of 0 "[1]"]
  by (auto simp: demo_cs3_swap demo_swap3_fields)

text \<open>A cancellation is not authenticated: whatever its signature, even with none, it ends a
  swap in which both parties have deposited as failed, and both deposits are kept.\<close>

theorem cancellation_unauthenticated:
  assumes "cs_ok C s" and "dict_get i (swaps s) = Some r"
    and "sw_state (swap_objs s r) \<in>
      {Wait_for_execution, Wait_for_taker_execution, Wait_for_maker_execution}"
  shows "cancellation_request_process C now (Cancellation i signature) s =
    (Inr (), finish r (swap_objs s r) Failed s)"
proof -
  have "r < next_swap s" "sw_state (swap_objs s r) \<noteq> Processed"
    using cs_ok_lookup [OF assms(1,2)] by simp_all
  then have "live r s" by (rule cs_ok_live [OF assms(1)])
  then show ?thesis
    using timeout_failed [OF _ assms(3)] assms(2)
    by (simp add: cancellation_request_process_def has_offer_id_def is_instance_def
        hand_cancellation_msg_def prog_simps)
qed

theorem cancellation_unauthenticated_witness:
  "\<exists>t. cancellation_request_process demo_crypto 0 (Cancellation 7 None) demo_cs3 = (Inr (), t) \<and>
       sw_terminated_state (swap_objs t 0) = Some Failed \<and> refund_queue t = {#}"
  using cancellation_unauthenticated [OF demo_cs3_ok, of 7 0 0 None]
  by (simp add: demo_cs3_swap demo_swap3_fields dict_get_def finish_def put_swap_def)
     (simp add: demo_cs3_def demo_cs2_def demo_cs1_def cs_start_def post_def put_swap_def)

text \<open>A second commitment for an offer whose maker has not deposited yet, or whose taker has
  deposited, raises in the task that handles commitments; the state is unchanged.\<close>

theorem commitment_unexpected:
  assumes "class_of m = C_Commitment" and "dict_get (m_offer_id m) (swaps s) = Some r"
    and "sw_state (swap_objs s r) \<noteq> Wait_for_taker"
  shows "commitment_process C now secret m s = (Inl MachineError, s)"
  using assms
  by (simp add: commitment_known seq_unit hand_taker_commitment_msg_def not_accepted accepts_def)

theorem commitment_unexpected_witness:
  "commitment_process demo_crypto 0 [9] (Commitment 7 [] 1000 1 (Some [2])) demo_cs1 =
     (Inl MachineError, demo_cs1)"
  by (rule commitment_unexpected [of _ _ 0])
     (simp_all add: demo_cs1_def dict_get_def demo_swap1_def)

section \<open>Refunds\<close>

text \<open>C32: nobody is paid back what was not deposited, and nothing is paid back twice: in every run, the
  deposits that the transfers of the refund task in flight or done pay back are, each as often as there is a transfer,
  among the receipts that swaps were handed. Each transfer goes to the one who deposited, under the identifier of
  the deposit, with the whole amount; only for the deposits of a swap that ended as traded the fee is kept.\<close>

theorem refund_transfers:
  assumes "service_run K rs s"
  shows "image_mset (\<lambda>(r, t). rf_receipt r) (in_flight (sv_refunds s) + refunded (sv_refunds s)) \<subseteq># rs \<and>
    (\<forall>(r, t) \<in># in_flight (sv_refunds s) + refunded (sv_refunds s).
       rt_target t = tr_initiator (rf_receipt r) \<and> rt_identifier t = tr_identifier (rf_receipt r) \<and>
       (if rf_claim_fee r
        then refund_amount (cf_fee_rate K) r = Inr (rt_amount t) \<and> traded_receipt (sv_cs s) (rf_receipt r)
        else rt_amount t = PInt (tr_amount (rf_receipt r))))"
proof
  let ?P = "in_flight (sv_refunds s) + refunded (sv_refunds s)"
  have account: "image_mset fst ?P \<subseteq># refund_account (refund_view s)"
    by (simp add: refund_account_def refund_view_def)
  obtain d where "service_account s + d = rs" using run_account [OF assms] by blast
  then have "image_mset rf_receipt (refund_account (refund_view s)) \<subseteq># rs"
    by (metis service_account_def mset_subset_eq_add_left mset_subset_eq_add_right subset_mset.order_trans)
  moreover have "image_mset (\<lambda>(r, t). rf_receipt r) ?P = image_mset rf_receipt (image_mset fst ?P)"
    by (simp add: case_prod_unfold image_mset.compositionality o_def)
  ultimately show "image_mset (\<lambda>(r, t). rf_receipt r) ?P \<subseteq># rs"
    using image_mset_subseteq_mono [OF account, of rf_receipt] by (metis subset_mset.order_trans)
  show "\<forall>(r, t) \<in># ?P. rt_target t = tr_initiator (rf_receipt r) \<and> rt_identifier t = tr_identifier (rf_receipt r) \<and>
       (if rf_claim_fee r
        then refund_amount (cf_fee_rate K) r = Inr (rt_amount t) \<and> traded_receipt (sv_cs s) (rf_receipt r)
        else rt_amount t = PInt (tr_amount (rf_receipt r)))"
  proof clarify
    fix r t assume p: "(r, t) \<in># ?P"
    then have "refund_process (cf_fee_rate K) (cf_token K) r = Inr t"
      using run_refunds [OF assms] by (auto simp: refunds_ok_def transfers_ok_def)
    then have t: "rt_target t = tr_initiator (rf_receipt r)" "rt_identifier t = tr_identifier (rf_receipt r)"
        "refund_amount (cf_fee_rate K) r = Inr (rt_amount t)"
      by (auto simp: refund_process_def bind_res_Inr_iff)
    have "r \<in># refund_account (refund_view s)" using p account by (force dest: mset_subset_eqD)
    then have "rf_claim_fee r \<longrightarrow> traded_receipt (sv_cs s) (rf_receipt r)"
      using run_fees [OF assms] by (simp add: fees_ok_def)
    then show "rt_target t = tr_initiator (rf_receipt r) \<and> rt_identifier t = tr_identifier (rf_receipt r) \<and>
       (if rf_claim_fee r
        then refund_amount (cf_fee_rate K) r = Inr (rt_amount t) \<and> traded_receipt (sv_cs s) (rf_receipt r)
        else rt_amount t = PInt (tr_amount (rf_receipt r)))"
      using t refund_amount_plain [of "cf_fee_rate K" r] by auto
  qed
qed

text \<open>The service after the timeout of the swap, and with the refund of the maker in flight.\<close>

definition demo_refund :: refund where
  "demo_refund = \<lparr>rf_receipt = demo_receipt, rf_priority = 1, rf_claim_fee = False\<rparr>"

definition demo_cs4 :: cs where
  "demo_cs4 = finish 0 demo_swap2 Untraded
     (post (CancellationProof 7 None None) (Some 0) (Some [1])
       (add_refund demo_receipt False (demo_cs2\<lparr>timers := []\<rparr>)))"

definition demo_timed_out :: service where
  "demo_timed_out = demo_paid\<lparr>sv_cs := demo_cs4\<rparr>"

definition demo_transfer :: refund_transfer where
  "demo_transfer = \<lparr>rt_token = [7], rt_target = [1], rt_amount = PInt 4, rt_identifier = 7\<rparr>"

definition demo_in_flight :: service where
  "demo_in_flight = put_refunds
     ((refund_view demo_timed_out)\<lparr>rq := {#}, in_flight := {#(demo_refund, demo_transfer)#}\<rparr>)
     demo_timed_out"

lemma demo_run_timed_out: "service_run demo_config {#demo_receipt#} demo_timed_out"
proof -
  let ?s = "demo_cs2\<lparr>timers := []\<rparr>"
  have "live 0 ?s" using demo_cs2_live by (simp add: live_def)
  moreover have "swap_objs ?s 0 = demo_swap2" by (simp add: demo_cs2_swap)
  moreover have "maker_address demo_crypto demo_swap2 = Inr (Some [1])"
    by (simp add: maker_address_def demo_swap2_def demo_swap1_def demo_sender)
  moreover have "sw_offer_id demo_swap2 = 7" "sw_maker_commitment_proof demo_swap2 = Some 0"
    by (simp_all add: demo_swap2_def demo_swap1_def swap_init_def)
  ultimately have "trigger_timeout demo_crypto 0 0 ?s = (Inr True, demo_cs4)"
    using timeout_untraded [of 0 ?s demo_receipt demo_crypto "Some [1]"]
    by (simp add: trigger_timeout_def demo_swap2_fields demo_cs4_def)
  moreover have "timers demo_cs2 = [(1, 0)]"
    by (simp add: demo_cs2_def demo_cs1_def post_def put_swap_def)
  ultimately have "service_step demo_config demo_paid {#} demo_timed_out"
    using st_timer [of demo_paid "[]" 1 0 "[]" 0 demo_config "Inr True" demo_cs4] demo_clock
    by (simp add: demo_timed_out_def demo_paid_def) (simp add: demo_config_def)
  then show ?thesis using run_step [OF demo_run_paid] by fastforce
qed

lemma demo_run_in_flight: "service_run demo_config {#demo_receipt#} demo_in_flight"
proof -
  have q: "rq (refund_view demo_timed_out) = {#demo_refund#}" "task_alive (refund_view demo_timed_out)"
    "in_flight (refund_view demo_timed_out) = {#}"
    by (simp_all add: refund_view_def demo_timed_out_def demo_paid_def demo_committed_def
        service_start_def refund_start_def demo_cs4_def finish_def)
       (simp add: demo_refund_def demo_cs2_def demo_cs1_def cs_start_def put_swap_def post_def
        add_refund_def)
  have "refund_process (Some (PFloat (1/4))) [7] demo_refund = Inr demo_transfer"
    by (simp add: refund_process_def refund_amount_def demo_refund_def demo_receipt_def
        demo_transfer_def)
  then have "refund_step (Some (PFloat (1/4))) [7] (refund_view demo_timed_out)
      ((refund_view demo_timed_out)\<lparr>rq := {#}, in_flight := {#(demo_refund, demo_transfer)#}\<rparr>)"
    using rs_process [of "refund_view demo_timed_out" demo_refund "{#}"] q
    by (simp add: pq_get_def refund_lt_def)
  then have "service_step demo_config demo_timed_out {#} demo_in_flight"
    using st_refund [of demo_config demo_timed_out] by (simp add: demo_config_def demo_in_flight_def)
  then show ?thesis using run_step [OF demo_run_timed_out] by fastforce
qed

theorem refund_transfers_witness:
  "rt_target demo_transfer = tr_initiator demo_receipt \<and> rt_amount demo_transfer = PInt 4 \<and>
   {#demo_receipt#} \<subseteq># image_mset (\<lambda>(r, t). rf_receipt r) (in_flight (sv_refunds demo_in_flight))"
proof -
  have "in_flight (sv_refunds demo_in_flight) = {#(demo_refund, demo_transfer)#}"
    by (simp add: demo_in_flight_def put_refunds_def)
  then show ?thesis using refund_transfers [OF demo_run_in_flight]
    by (auto simp: demo_refund_def demo_receipt_def)
qed

text \<open>C33: a refund that claims the fee returns at least nothing and at most the deposit, for every
  fee rate between 0 and 1 and every deposit up to 2^53, in spite of the two roundings.\<close>

theorem refund_fee_bounds:
  assumes "rf_claim_fee r" and "0 \<le> f" "f \<le> 1"
    and "0 \<le> tr_amount (rf_receipt r)" "tr_amount (rf_receipt r) \<le> 2 ^ 53"
  shows "\<exists>a. refund_amount (Some (PFloat f)) r = Inr (PFloat a) \<and> 0 \<le> a \<and>
             a \<le> of_int (tr_amount (rf_receipt r))"
  using assms by (rule refund_amount_float_fee)

theorem refund_fee_bounds_witness:
  "\<exists>a. refund_amount (Some (PFloat (1/4)))
         \<lparr>rf_receipt = demo_receipt, rf_priority = 1, rf_claim_fee = True\<rparr> = Inr (PFloat a) \<and>
       0 \<le> a \<and> a \<le> 4"
  using refund_fee_bounds [of "\<lparr>rf_receipt = demo_receipt, rf_priority = 1, rf_claim_fee = True\<rparr>" "1/4"]
  by (simp add: demo_receipt_def)

text \<open>The refund task takes refunds by priority: the one it takes has at least the priority
  of every refund that stays, and with a refund queued the task can always take one.\<close>

theorem refund_by_priority:
  "(\<forall>r q'. pq_get refund_lt q r q' \<longrightarrow> (\<forall>r' \<in># q'. rf_priority r' \<le> rf_priority r)) \<and>
   (q \<noteq> {#} \<longrightarrow> (\<exists>r q'. pq_get refund_lt q r q'))"
  using refund_order.get_possible [of q] by (auto simp: pq_get_def refund_lt_def not_less)

theorem refund_by_priority_witness:
  "\<exists>r q'. pq_get refund_lt {#\<lparr>rf_receipt = demo_receipt, rf_priority = 1, rf_claim_fee = True\<rparr>#} r q'"
  using refund_by_priority [of "{#\<lparr>rf_receipt = demo_receipt, rf_priority = 1, rf_claim_fee = True\<rparr>#}"]
  by simp

end
