(* ===== verification/Deadlines.thy ===== *)
theory Deadlines
  imports Service_Properties
begin

text \<open>
  How swaps come to an end. A swap makes few changes in any run, and every running swap has a timer
  that ends it, as long as the task that hears commitments is alive. A commitment whose timeout is
  no date of the calendar breaks this: the task dies and leaves a swap without a timer.
\<close>

section \<open>A swap changes a few times\<close>

fun deal_rank :: "deal \<Rightarrow> nat" where
  "deal_rank Nobody_paid = 0"
| "deal_rank (Maker_paid m) = 1"
| "deal_rank (Both_paid m t) = 2"
| "deal_rank (Waiting_for m t p) = 3"
| "deal_rank (Ended x) = 4"

lemma deal_rank_le: "deal_rank d \<le> 4"
  by (cases d) simp_all

lemma deal_step_rank: "deal_step d e \<Longrightarrow> deal_rank d < deal_rank e"
  by (cases d) auto

abbreviation step_of :: "service_config \<Rightarrow> service \<Rightarrow> service \<Rightarrow> bool" where
  "step_of K s t \<equiv> \<exists>acc. service_step K s acc t"

interpretation deals: ranked_system
  "\<lambda>s. cs_ok (cf_crypto K) (sv_cs s) \<and> q < next_swap (sv_cs s)" "step_of K"
  "\<lambda>s. deal_of (swap_objs (sv_cs s) q)" deal_rank for K q
proof
  fix s t
  assume ok: "cs_ok (cf_crypto K) (sv_cs s) \<and> q < next_swap (sv_cs s)" and "step_of K s t"
  then obtain acc where step: "service_step K s acc t" by blast
  show "cs_ok (cf_crypto K) (sv_cs t) \<and> q < next_swap (sv_cs t)"
    using service_step_ok [OF step] service_deal_step [OF step] ok by blast
  show "deal_of (swap_objs (sv_cs s) q) = deal_of (swap_objs (sv_cs t) q) \<or>
      deal_rank (deal_of (swap_objs (sv_cs s) q)) < deal_rank (deal_of (swap_objs (sv_cs t) q))"
    using service_deal_step [OF step, of q] ok by (auto simp: deal_moves_def deal_step_rank)
qed

text \<open>C9: a swap comes to rest: however long a run goes on and whatever it receives, the deal of a
  swap changes at most four times.\<close>

theorem deal_changes_bounded:
  assumes "service_run K rs s" and "successively (step_of K) (s # ss)" and "q < next_swap (sv_cs s)"
  shows "changes (map (\<lambda>u. deal_of (swap_objs (sv_cs u) q)) (s # ss)) \<le> 4"
proof -
  have "changes (map (\<lambda>u. deal_of (swap_objs (sv_cs u) q)) (s # ss)) \<le>
      deal_rank (deal_of (swap_objs (sv_cs (last (s # ss))) q))"
    using deals.changes_climb [OF assms(2)] run_cs_ok [OF assms(1)] assms(3) by force
  then show ?thesis using deal_rank_le order.trans by blast
qed

theorem deal_changes_bounded_witness:
  "changes [deal_of (swap_objs (sv_cs demo_committed) 0), deal_of (swap_objs (sv_cs demo_paid) 0)] \<le> 4"
proof -
  have "successively (step_of demo_config) [demo_committed, demo_paid]"
    using demo_step_paid by auto
  then show ?thesis
    using deal_changes_bounded [OF demo_run_committed, of "[demo_paid]" 0]
    by (simp add: demo_committed_def demo_cs1_def)
qed

section \<open>Every running swap has a timer\<close>

definition timed :: "cs \<Rightarrow> bool" where
  "timed s \<longleftrightarrow>
     (\<forall>r < next_swap s. sw_state (swap_objs s r) = Processed \<or> (\<exists>sec. (sec, r) \<in> set (timers s)))"

lemma effect_timers: "swap_effect C r s l t \<Longrightarrow> set (timers s) \<subseteq> set (timers t)"
  by (erule swap_effect_E) (auto simp: effect_defs traded_def)

lemma effect_processed:
  "swap_effect C r s l t \<Longrightarrow> sw_state (swap_objs s q) = Processed \<Longrightarrow>
   sw_state (swap_objs t q) = Processed"
  by (erule swap_effect_E) (auto simp: effect_defs traded_def)

lemma effect_timed:
  assumes "swap_effect C r s l t" and "timed s" shows "timed t"
  using assms effect_timers [OF assms(1)] effect_processed [OF assms(1)] effect_next [OF assms(1)]
  unfolding timed_def by (metis subsetD)

lemma touches_timed: "touches C s l t \<Longrightarrow> timed s \<Longrightarrow> timed t"
  using effect_timed by (auto simp: touches_def)

lemma timeout_ends:
  assumes "cs_ok C s" and "r < next_swap s"
  shows "sw_state (swap_objs (snd (trigger_timeout C now r s)) r) = Processed"
proof (cases "sw_state (swap_objs s r) = Processed")
  case True
  then show ?thesis by (simp add: trigger_timeout_def not_accepted accepts_def)
next
  case False
  note f = live_facts [OF assms False]
  from f(2) False show ?thesis
  proof (cases rule: swap_state_cases)
    case 3
    then have "maker_paid C (swap_objs s r)" using f(2) by (simp add: swap_ok_def)
    then show ?thesis using maker_paid_address f(1) 3
      by (fastforce simp: trigger_timeout_def timeout_untraded effect_defs)
  qed (simp_all add: trigger_timeout_def timeout_uncommitted [OF f(1)] timeout_failed [OF f(1)]
        effect_defs)
qed

lemma timer_timed:
  assumes "cs_ok C s" and "timed s" and "timers s = before @ (sec, r) # after"
    and "trigger_timeout C now r (s\<lparr>timers := before @ after\<rparr>) = (x, c)"
  shows "timed c"
proof -
  let ?s = "s\<lparr>timers := before @ after\<rparr>"
  have r: "r < next_swap ?s" using assms(1,3) by (simp add: cs_ok_def)
  have ok: "cs_ok C ?s" using assms(1,3) by (intro timers_subset_ok) auto
  have eff: "swap_effect C r ?s {#} c"
    using timeout_effect [OF ok r, of now] assms(4) by (simp add: trigger_timeout_def)
  have "sw_state (swap_objs c r) = Processed" using timeout_ends [OF ok r, of now] assms(4) by simp
  moreover have "sw_state (swap_objs c q) = Processed \<or> (\<exists>d. (d, q) \<in> set (timers c))"
    if "q < next_swap s" "q \<noteq> r" for q
    using assms(2,3) that effect_processed [OF eff, of q] effect_timers [OF eff]
    by (fastforce simp: timed_def)
  ultimately show ?thesis using effect_next [OF eff] unfolding timed_def by auto
qed

lemma commitment_timed:
  assumes "cs_ok C s" and "timed s" and "commitment_process C now secret m s = (Inr y, c)"
  shows "timed c"
proof (cases "class_of m = C_Commitment")
  case False
  then show ?thesis using assms(3) by (simp add: commitment_wrong)
next
  case cls: True
  show ?thesis
  proof (cases "dict_get (m_offer_id m) (swaps s)")
    case (Some r)
    then show ?thesis using taker_commitment_touches touches_timed assms cls by blast
  next
    case None
    let ?u = "snd (make_swap C secret (m_offer_id m) s)" and ?n = "next_swap s"
    note f = make_swap_fields [OF None, of C secret]
    have t: "timers ?u = timers s" using None by (simp add: make_swap_def)
    obtain x where h: "hand_maker_commitment_msg C now m ?n ?u = (x, c)" and x: "ok_result x"
      using assms(3) None cls
      by (cases "hand_maker_commitment_msg C now m ?n ?u")
         (auto simp: commitment_new seq_def return_def ok_result_def split: sum.splits)
    have "sw_auto_spawn_timeout (swap_objs ?u ?n)" "sw_state (swap_objs ?u ?n) = Initializing"
      by (simp_all add: f swap_init_def)
    from maker_commitment_step [OF this, of C now m] h x
    obtain d where "c = (put_swap ?n ((swap_objs ?u ?n)\<lparr>sw_state := Wait_for_maker,
        sw_maker_commitment_msg := Some m\<rparr>) ?u)\<lparr>timers := timers ?u @ [(d, ?n)]\<rparr>"
      by (auto simp: Let_def ok_result_def split: sum.splits)
    then show ?thesis using assms(2) by (auto simp: timed_def f t put_swap_def less_Suc_eq)
  qed
qed

lemma service_step_timed:
  assumes "service_step K s acc t" and "cs_ok (cf_crypto K) (sv_cs s)"
    and "sv_commitment_alive s \<Longrightarrow> timed (sv_cs s)" and "sv_commitment_alive t"
  shows "timed (sv_cs t)"
  using assms(1)
proof (cases rule: service_step.cases)
  case (st_commitment now secret m x c)
  then show ?thesis using commitment_timed assms(2-4)
    by (cases x) (auto simp: ok_result_def)
next
  case (st_timer before sec r after now x c)
  then show ?thesis using timer_timed [OF assms(2)] assms(3,4) by simp
next
  case (st_send entry rest x c)
  then show ?thesis using assms(3,4) sender_fields [OF st_send(5)] by (simp add: timed_def)
next
  case (st_transfer now rc x c)
  then obtain l where "touches (cf_crypto K) (sv_cs s) l c" using transfer_touches [OF assms(2)] by blast
  then show ?thesis using st_transfer assms(3,4) touches_timed by simp
qed (use assms(2-4) in \<open>auto simp: put_refunds_def timed_def [of "_ \<lparr>refund_queue := _\<rparr>"] timed_def
  dest: touches_timed [OF cancellation_touches, unfolded timed_def]
    touches_timed [OF execution_touches, unfolded timed_def]\<close>)

lemma run_timed: "service_run K rs s \<Longrightarrow> sv_commitment_alive s \<Longrightarrow> timed (sv_cs s)"
proof (induction rule: service_run.induct)
  case run_start
  show ?case by (simp add: timed_def service_start_def cs_start_def)
next
  case (run_step rs s acc t)
  then show ?case using service_step_timed run_cs_ok by blast
qed

text \<open>C7: no swap is forgotten: as long as the task that hears commitments has not died, every swap
  that has not ended, whatever it waits for, has a timer of its own, and when that timer fires, at
  whatever time, the swap ends.\<close>

theorem no_swap_forgotten:
  assumes "service_run K rs s" and "sv_commitment_alive s" and "clock_ok now"
    and "r < next_swap (sv_cs s)" and "sw_state (swap_objs (sv_cs s) r) \<noteq> Processed"
  shows "\<exists>before sec after x c.
    timers (sv_cs s) = before @ (sec, r) # after \<and>
    trigger_timeout (cf_crypto K) now r ((sv_cs s)\<lparr>timers := before @ after\<rparr>) = (x, c) \<and>
    service_step K s {#} (s\<lparr>sv_cs := c\<rparr>) \<and>
    sw_state (swap_objs c r) = Processed"
proof -
  obtain sec where "(sec, r) \<in> set (timers (sv_cs s))"
    using run_timed [OF assms(1,2)] assms(4,5) unfolding timed_def by blast
  then obtain before after where split: "timers (sv_cs s) = before @ (sec, r) # after"
    by (meson split_list)
  let ?s = "(sv_cs s)\<lparr>timers := before @ after\<rparr>"
  obtain x c where fired: "trigger_timeout (cf_crypto K) now r ?s = (x, c)" by fastforce
  have "cs_ok (cf_crypto K) ?s"
    using run_cs_ok [OF assms(1)] split by (intro timers_subset_ok) auto
  then have "sw_state (swap_objs c r) = Processed"
    using timeout_ends [of "cf_crypto K" ?s r now] assms(4) fired by simp
  then show ?thesis using st_timer [OF split assms(3) fired] split fired by blast
qed

theorem no_swap_forgotten_witness:
  "\<exists>before sec after. timers demo_cs2 = before @ (sec, 0) # after"
  using no_swap_forgotten [OF demo_run_paid _ demo_clock, of 0]
  by (fastforce simp: demo_paid_def demo_committed_def service_start_def demo_cs2_swap demo_swap2_fields)

text \<open>C28: a commitment whose timeout is no date is the exception: handling it raises, which ends the
  task that hears commitments, after the swap has been entered under its offer id, where it
  waits for the maker's deposit with no timer.\<close>

theorem far_commitment_forgotten:
  assumes "ms_timestamp_to_dt (m_timeout m) = Inl e" and "class_of m = C_Commitment"
    and "dict_get (m_offer_id m) (swaps s) = None"
  shows "\<exists>c. commitment_process C now secret m s = (Inl e, c) \<and>
    dict_get (m_offer_id m) (swaps c) = Some (next_swap s) \<and>
    sw_state (swap_objs c (next_swap s)) = Wait_for_maker \<and> timers c = timers s"
proof -
  let ?u = "snd (make_swap C secret (m_offer_id m) s)" and ?n = "next_swap s"
  note f = make_swap_fields [OF assms(3), of C secret]
  have late: "seconds_to_timeout now (m_timeout m) = Inl e"
    using assms(1) by (simp add: seconds_to_timeout_def)
  have "sw_auto_spawn_timeout (swap_objs ?u ?n)" "sw_state (swap_objs ?u ?n) = Initializing"
    by (simp_all add: f swap_init_def)
  note step = maker_commitment_step [OF this, of C now m]
  have "swaps ?u = dict_set (m_offer_id m) ?n (swaps s)" "timers ?u = timers s"
    using assms(3) by (simp_all add: make_swap_def id_collides_def dict_mem_def)
  then show ?thesis
    using assms(2,3) late step by (simp add: commitment_new seq_apply put_swap_def)
qed

theorem far_commitment_forgotten_witness:
  "\<exists>c. commitment_process demo_crypto 0 [9] (Commitment 7 [5] (10 ^ 15) 3 None) cs_start =
      (Inl OverflowError, c) \<and> dict_get 7 (swaps c) = Some 0"
  using far_commitment_forgotten [of "Commitment 7 [5] (10 ^ 15) 3 None" OverflowError cs_start]
  by (fastforce simp: ms_timestamp_to_dt_def mk_datetime_def datetime_max_def datetime_min_def
      cs_start_def dict_get_def)

end
