(* ===== verification/Sorted_Dict.thy ===== *)
theory Sorted_Dict
  imports Prelude "HOL-Library.Product_Lexorder"
begin

text \<open>
  \<open>SortedDict\<close> of the package \<open>sortedcontainers\<close>, as the program uses it: a dictionary that iterates
  in the order of its keys. The locale states its documented contract on top of the one of a
  dictionary; it determines the items, so that the sorted association list used here is the
  only model of it.
\<close>

section \<open>The contract\<close>

locale sorted_dict = dictionary lookup store remove void wf
  for lookup :: "'k::linorder \<Rightarrow> 'd \<Rightarrow> 'v option"
    and store :: "'k \<Rightarrow> 'v \<Rightarrow> 'd \<Rightarrow> 'd"
    and remove :: "'k \<Rightarrow> 'd \<Rightarrow> 'd"
    and void :: "'d"
    and wf :: "'d \<Rightarrow> bool" +
  fixes items :: "'d \<Rightarrow> ('k \<times> 'v) list"
  assumes items_sorted: "wf d \<Longrightarrow> sorted_wrt (<) (map fst (items d))"
    and items_lookup: "wf d \<Longrightarrow> map_of (items d) k = lookup k d"
begin

lemma items_unique:
  assumes "wf d" and "sorted_wrt (<) (map fst xs)" and "\<And>k. map_of xs k = lookup k d"
  shows "xs = items d"
proof -
  have dx: "distinct (map fst xs)" and di: "distinct (map fst (items d))"
    using assms(2) items_sorted [OF assms(1)] strict_sorted_iff by blast+
  have "(k, v) \<in> set xs \<longleftrightarrow> (k, v) \<in> set (items d)" for k v
    using map_of_eq_Some_iff [OF dx] map_of_eq_Some_iff [OF di] assms(1,3) items_lookup by metis
  then have eq: "set xs = set (items d)" by auto
  have "sorted (map fst xs)" "sorted (map fst (items d))"
    using assms(2) items_sorted [OF assms(1)] by (simp_all add: strict_sorted_iff)
  moreover have "inj_on fst (set xs \<union> set (items d))" using dx eq by (simp add: distinct_map)
  ultimately show ?thesis using dx di eq by (intro map_sorted_distinct_set_unique)
qed

lemma items_mem: "wf d \<Longrightarrow> (k, v) \<in> set (items d) \<longleftrightarrow> lookup k d = Some v"
  using items_lookup [of d k] map_of_eq_Some_iff [of "items d" k v] items_sorted [of d]
  by (auto simp: strict_sorted_iff)

end

section \<open>The sorted association list\<close>

fun sd_set :: "'k::linorder \<Rightarrow> 'v \<Rightarrow> ('k \<times> 'v) list \<Rightarrow> ('k \<times> 'v) list" where
  "sd_set k v [] = [(k, v)]"
| "sd_set k v ((k', v') # d) =
     (if k < k' then (k, v) # (k', v') # d
      else if k = k' then (k, v) # d
      else (k', v') # sd_set k v d)"

fun sd_del :: "'k::linorder \<Rightarrow> ('k \<times> 'v) list \<Rightarrow> ('k \<times> 'v) list" where
  "sd_del k [] = []"
| "sd_del k ((k', v') # d) = (if k = k' then d else (k', v') # sd_del k d)"

definition sd_get :: "'k::linorder \<Rightarrow> ('k \<times> 'v) list \<Rightarrow> 'v option" where
  "sd_get k d = map_of d k"

definition sd_delitem :: "'k::linorder \<Rightarrow> ('k \<times> 'v) list \<Rightarrow> ('k \<times> 'v) list res" where
  "sd_delitem k d = (case sd_get k d of None \<Rightarrow> Inl KeyError | Some _ \<Rightarrow> Inr (sd_del k d))"

definition sd_values :: "('k \<times> 'v) list \<Rightarrow> 'v list" where
  "sd_values d = map snd d"

definition sd_wf :: "('k::linorder \<times> 'v) list \<Rightarrow> bool" where
  "sd_wf d \<longleftrightarrow> sorted_wrt (<) (map fst d)"

text \<open>\<open>irange(minimum, maximum, inclusive=(True, False))\<close>; a bound that is \<open>None\<close> does not bound.\<close>

definition sd_irange ::
  "'k::linorder option \<Rightarrow> 'k option \<Rightarrow> ('k \<times> 'v) list \<Rightarrow> 'k list" where
  "sd_irange lo hi d =
     filter (\<lambda>k. (case lo of None \<Rightarrow> True | Some a \<Rightarrow> a \<le> k) \<and>
                 (case hi of None \<Rightarrow> True | Some b \<Rightarrow> k < b)) (map fst d)"

lemma sd_set_keys: "set (map fst (sd_set k v d)) = insert k (set (map fst d))"
  by (induction d rule: sd_set.induct) auto

lemma sd_del_subset: "set (sd_del k d) \<subseteq> set d"
  by (induction d rule: sd_del.induct) auto

lemma sd_wf_Nil [simp]: "sd_wf []"
  by (simp add: sd_wf_def)

lemma sd_wf_set: "sd_wf d \<Longrightarrow> sd_wf (sd_set k v d)"
proof (induction k v d rule: sd_set.induct)
  case (2 k v k' v' d)
  then show ?case
    using sd_set_keys [of k v d] by (auto simp: sd_wf_def simp del: set_map)
qed (simp add: sd_wf_def)

lemma sd_wf_del: "sd_wf d \<Longrightarrow> sd_wf (sd_del k d)"
proof (induction k d rule: sd_del.induct)
  case (2 k k' v' d)
  then show ?case using sd_del_subset [of k d] by (auto simp: sd_wf_def)
qed simp

lemma sd_get_set: "sd_wf d \<Longrightarrow> sd_get j (sd_set k v d) = (if j = k then Some v else sd_get j d)"
  by (induction k v d rule: sd_set.induct) (auto simp: sd_get_def sd_wf_def)

lemma sd_get_del: "sd_wf d \<Longrightarrow> sd_get j (sd_del k d) = (if j = k then None else sd_get j d)"
proof (induction k d rule: sd_del.induct)
  case (2 k k' v' d)
  have "k' \<notin> set (map fst d)" using 2(2) by (auto simp: sd_wf_def)
  then have "map_of d k' = None" by (simp add: map_of_eq_None_iff)
  then show ?case using 2 by (auto simp: sd_get_def sd_wf_def)
qed (simp add: sd_get_def)

interpretation sdict: sorted_dict sd_get sd_set sd_del "[]" sd_wf "\<lambda>d. d"
  by unfold_locales (simp_all add: sd_get_set sd_get_del sd_wf_set sd_wf_del, simp_all add: sd_get_def sd_wf_def)

lemma sd_values_mem: "sd_wf d \<Longrightarrow> x \<in> set (sd_values d) \<longleftrightarrow> (\<exists>k. sd_get k d = Some x)"
  by (force simp: sd_values_def sdict.items_mem [symmetric])

end
