(* ===== verification/Offers.thy ===== *)
theory Offers
  imports Py_Float Messages Sorted_Dict
begin

text \<open>
  \<open>raidex_node/order/offer.py\<close>, \<open>raidex_node/market.py\<close> and the two places where offers meet the
  wire: \<open>_create_offer_msg\<close> of \<open>transport/events.py\<close> and \<open>OfferListener\<close> of
  \<open>message_broker/listeners.py\<close>.
\<close>

section \<open>Offers\<close>

datatype trader_role = MAKER | TAKER

datatype offer_type = BUY | SELL

fun type_value :: "offer_type \<Rightarrow> int" where
  "type_value BUY = 0"
| "type_value SELL = 1"

definition offer_type_of :: "int \<Rightarrow> offer_type res" where
  "offer_type_of n = (if n = 0 then Inr BUY else if n = 1 then Inr SELL else Inl ValueError)"

definition opposite :: "offer_type \<Rightarrow> offer_type res" where
  "opposite t = offer_type_of ((type_value t + 1) mod 2)"

record basic_offer =
  o_id :: int
  o_type :: offer_type
  o_base :: int
  o_quote :: int
  o_timeout :: int

definition price :: "basic_offer \<Rightarrow> rat res" where
  "price b = bind_res (float_of_int (o_quote b)) (\<lambda>q.
     bind_res (float_of_int (o_base b)) (\<lambda>x. float_div q x))"

definition offer_eq :: "basic_offer \<Rightarrow> basic_offer \<Rightarrow> bool" where
  "offer_eq a b \<longleftrightarrow> \<not> (o_id a \<noteq> o_id b) \<and> \<not> (o_type a \<noteq> o_type b) \<and> \<not> (o_base a \<noteq> o_base b) \<and>
     \<not> (o_quote a \<noteq> o_quote b) \<and> \<not> (o_timeout a \<noteq> o_timeout b)"

definition is_buy :: "basic_offer \<Rightarrow> bool" where
  "is_buy b \<longleftrightarrow> o_type b = BUY"

definition is_sell :: "basic_offer \<Rightarrow> bool" where
  "is_sell b \<longleftrightarrow> \<not> is_buy b"

definition buy_amount :: "basic_offer \<Rightarrow> int" where
  "buy_amount b = (if is_buy b then o_base b else o_quote b)"

definition sell_amount :: "basic_offer \<Rightarrow> int" where
  "sell_amount b = (if is_buy b then o_quote b else o_base b)"

section \<open>The market\<close>

record token_pair =
  tp_base :: bytes
  tp_base_decimal :: int
  tp_quote :: bytes
  tp_quote_decimal :: int

definition is_binary_address :: "bytes \<Rightarrow> bool" where
  "is_binary_address a \<longleftrightarrow> length a = 20"

definition mk_token_pair :: "bytes \<Rightarrow> int \<Rightarrow> bytes \<Rightarrow> int \<Rightarrow> token_pair res" where
  "mk_token_pair base base_decimal quot quote_decimal =
     (if \<not> is_binary_address base \<or> \<not> is_binary_address quot then Inl ValueError
      else Inr \<lparr>tp_base = base, tp_base_decimal = base_decimal, tp_quote = quot,
                tp_quote_decimal = quote_decimal\<rparr>)"

definition get_offer_type :: "token_pair \<Rightarrow> bytes \<Rightarrow> bytes \<Rightarrow> offer_type option" where
  "get_offer_type m ask_token bid_token =
     (if ask_token = tp_base m \<and> bid_token = tp_quote m then Some BUY
      else if ask_token = tp_quote m \<and> bid_token = tp_base m then Some SELL
      else None)"

definition token_pair_eq :: "token_pair \<Rightarrow> token_pair \<Rightarrow> bool" where
  "token_pair_eq a b \<longleftrightarrow> tp_base a = tp_base b \<and> tp_quote a = tp_quote b"

section \<open>Offers on the wire\<close>

record book_entry =
  e_offer :: basic_offer
  e_initiator :: bytes
  e_commitment_proof :: "message option"

definition create_offer_msg :: "basic_offer \<Rightarrow> token_pair \<Rightarrow> message" where
  "create_offer_msg b m =
     (if o_type b = SELL
      then SwapOffer (tp_quote m) (o_quote b) (tp_base m) (o_base b) (o_id b) (o_timeout b)
      else SwapOffer (tp_base m) (o_base b) (tp_quote m) (o_quote b) (o_id b) (o_timeout b))"

text \<open>\<open>OfferListener._transform\<close>: \<open>None\<close> is a message the listener is not interested in.\<close>

definition offer_listener_transform :: "crypto \<Rightarrow> token_pair \<Rightarrow> message \<Rightarrow> book_entry option res" where
  "offer_listener_transform C m x =
     (if \<not> is_instance x C_ProvenOffer then Inr None
      else let y = m_offer x in
        case get_offer_type m (m_ask_token y) (m_bid_token y) of
          None \<Rightarrow> Inl AssertionError
        | Some t \<Rightarrow>
            let (base, quot) = (case t of BUY \<Rightarrow> (m_ask_amount y, m_bid_amount y)
                                        | SELL \<Rightarrow> (m_bid_amount y, m_ask_amount y)) in
            bind_res (sender C x) (\<lambda>who.
              Inr (Some \<lparr>e_offer = \<lparr>o_id = m_offer_id y, o_type = t, o_base = base, o_quote = quot,
                           o_timeout = m_timeout y\<rparr>,
                         e_initiator = who, e_commitment_proof = m_commitment_proof x\<rparr>)))"

section \<open>Facts\<close>

lemma opposite_eval [simp]: "opposite BUY = Inr SELL" "opposite SELL = Inr BUY"
  by (simp_all add: opposite_def offer_type_of_def)

lemma offer_eq_iff: "offer_eq a b \<longleftrightarrow> a = b"
  by (cases a; cases b) (auto simp: offer_eq_def)

lemma price_zero_base: "\<bar>o_quote b\<bar> \<le> 2 ^ 53 \<Longrightarrow> o_base b = 0 \<Longrightarrow> price b = Inl ZeroDivisionError"
  by (simp add: price_def float_of_int_small float_of_int_small [of 0] float_div_def)

lemma float_div_mono:
  "float_div a c = Inr x \<Longrightarrow> float_div b c = Inr y \<Longrightarrow> 0 \<le> c \<Longrightarrow> a \<le> b \<Longrightarrow> x \<le> y"
  by (auto simp: float_div_def divide_right_mono elim!: to_double_mono split: if_splits)

lemma float_div_antimono:
  "float_div a c = Inr x \<Longrightarrow> float_div a d = Inr y \<Longrightarrow> 0 < c \<Longrightarrow> c \<le> d \<Longrightarrow> 0 \<le> a \<Longrightarrow> y \<le> x"
  by (auto simp: float_div_def frac_le elim!: to_double_mono split: if_splits)

lemma price_mono_aux:
  assumes "price a = Inr p" and "price b = Inr q"
    and "0 \<le> o_quote a" "o_quote a \<le> o_quote b" "0 < o_base b" "o_base b \<le> o_base a"
  shows "p \<le> q"
proof -
  obtain qa xa where a: "float_of_int (o_quote a) = Inr qa" "float_of_int (o_base a) = Inr xa"
      "float_div qa xa = Inr p" using assms(1) by (auto simp: price_def bind_res_Inr_iff)
  obtain qb xb where b: "float_of_int (o_quote b) = Inr qb" "float_of_int (o_base b) = Inr xb"
      "float_div qb xb = Inr q" using assms(2) by (auto simp: price_def bind_res_Inr_iff)
  have n: "0 \<le> qa" "qa \<le> qb" "xb \<le> xa" "0 \<le> xb"
    using float_of_int_nonneg [OF a(1)] float_of_int_mono [OF a(1) b(1)] float_of_int_mono [OF b(2) a(2)]
      float_of_int_nonneg [OF b(2)] assms by simp_all
  have "xb \<noteq> 0" "xa \<noteq> 0" using a(3) b(3) by (auto simp: float_div_def split: if_splits)
  with n have pos: "0 < xb" "0 < xa" by simp_all
  have le: "qa / xa \<le> qb / xb" using n pos by (intro frac_le) simp_all
  show ?thesis
    using a(3) b(3) pos le by (auto simp: float_div_def elim!: to_double_mono split: if_splits)
qed

lemma offer_roundtrip:
  assumes "tp_base m \<noteq> tp_quote m" and "x = ProvenOffer (create_offer_msg b m) proof_msg sg"
    and "sender C x = Inr who"
  shows "offer_listener_transform C m x =
    Inr (Some \<lparr>e_offer = b, e_initiator = who, e_commitment_proof = proof_msg\<rparr>)"
  using assms
  by (cases b; cases "o_type b")
     (auto simp: offer_listener_transform_def create_offer_msg_def get_offer_type_def
        is_instance_def Let_def)

section \<open>Properties\<close>

text \<open>An offer survives its broadcast: what a node makes of a signed proven offer that carries
  the message of an offer in the same market is that offer, with the signer as its initiator and
  the commitment proof that came with it.\<close>

theorem offer_broadcast_roundtrip:
  assumes "tp_base m \<noteq> tp_quote m" and "x = ProvenOffer (create_offer_msg b m) proof_msg sg"
    and "sender C x = Inr who"
  shows "offer_listener_transform C m x =
    Inr (Some \<lparr>e_offer = b, e_initiator = who, e_commitment_proof = proof_msg\<rparr>)"
  using assms by (rule offer_roundtrip)

theorem offer_broadcast_roundtrip_witness:
  "\<exists>x. offer_listener_transform example_crypto
         \<lparr>tp_base = [1], tp_base_decimal = 18, tp_quote = [2], tp_quote_decimal = 18\<rparr> x =
       Inr (Some \<lparr>e_offer = \<lparr>o_id = 5, o_type = SELL, o_base = 3, o_quote = 6, o_timeout = 9\<rparr>,
                  e_initiator = [7], e_commitment_proof = None\<rparr>)"
proof -
  let ?m = "\<lparr>tp_base = [1], tp_base_decimal = 18, tp_quote = [2], tp_quote_decimal = 18\<rparr>"
  let ?b = "\<lparr>o_id = 5, o_type = SELL, o_base = 3, o_quote = 6, o_timeout = 9\<rparr>"
  have "sender example_crypto (ProvenOffer (create_offer_msg ?b ?m) None (Some [7])) = Inr [7]"
    by (simp add: sender_def example_crypto_def hash_without_signature_def)
  then show ?thesis
    using offer_broadcast_roundtrip [of ?m _ ?b None "Some [7]" example_crypto "[7]"] by force
qed

text \<open>The price is monotone in spite of its three roundings: with a larger quote amount and a
  smaller base amount it is not lower.\<close>

theorem price_monotone:
  assumes "price a = Inr p" and "price b = Inr q"
    and "0 \<le> o_quote a" "o_quote a \<le> o_quote b" "0 < o_base b" "o_base b \<le> o_base a"
  shows "p \<le> q"
  using assms by (rule price_mono_aux)

theorem price_monotone_witness:
  "\<exists>p q. price \<lparr>o_id = 1, o_type = BUY, o_base = 4, o_quote = 8, o_timeout = 0\<rparr> = Inr p \<and>
         price \<lparr>o_id = 1, o_type = BUY, o_base = 2, o_quote = 8, o_timeout = 0\<rparr> = Inr q \<and> p \<le> q"
proof -
  have "price \<lparr>o_id = 1, o_type = BUY, o_base = 4, o_quote = 8, o_timeout = 0\<rparr> = Inr 2"
    "price \<lparr>o_id = 1, o_type = BUY, o_base = 2, o_quote = 8, o_timeout = 0\<rparr> = Inr 4"
    using to_double_of_int [of 2] to_double_of_int [of 4]
    by (simp_all add: price_def float_of_int_small [of 8] float_of_int_small [of 4]
        float_of_int_small [of 2] float_div_def)
  then show ?thesis using price_monotone by fastforce
qed

end
