(* ===== verification/Offer_Book.thy ===== *)
theory Offer_Book
  imports Offers
begin

text \<open>
  \<open>raidex_node/offer_book.py\<close>: the view of one side of the market, a sorted dictionary by
  \<open>(price, offer_id)\<close> together with a dictionary by \<open>offer_id\<close>, and the book of both sides.
\<close>

section \<open>Offers of the deprecated class\<close>

definition offer_deprecated ::
  "offer_type \<Rightarrow> int \<Rightarrow> int \<Rightarrow> int \<Rightarrow> int \<Rightarrow> basic_offer res" where
  "offer_deprecated t base quot i timeout_date =
     (if \<not> 0 < base then Inl AssertionError
      else if \<not> 0 < quot then Inl AssertionError
      else Inr \<lparr>o_id = i, o_type = t, o_base = base, o_quote = quot, o_timeout = timeout_date\<rparr>)"

section \<open>One side of the market\<close>

definition e_id :: "book_entry \<Rightarrow> int" where
  "e_id e = o_id (e_offer e)"

definition e_base :: "book_entry \<Rightarrow> int" where
  "e_base e = o_base (e_offer e)"

definition e_price :: "book_entry \<Rightarrow> rat res" where
  "e_price e = price (e_offer e)"

record offer_view =
  offer_entries :: "((rat \<times> int) \<times> book_entry) list"
  offer_entries_by_id :: "(int, book_entry) dict"

definition empty_view :: offer_view where
  "empty_view = \<lparr>offer_entries = [], offer_entries_by_id = []\<rparr>"

definition view_add :: "book_entry \<Rightarrow> offer_view \<Rightarrow> offer_view res" where
  "view_add e v = bind_res (e_price e) (\<lambda>p.
     Inr (v\<lparr>offer_entries := sd_set (p, e_id e) e (offer_entries v),
            offer_entries_by_id := dict_set (e_id e) e (offer_entries_by_id v)\<rparr>))"

definition view_remove :: "int \<Rightarrow> offer_view \<Rightarrow> offer_view res" where
  "view_remove i v =
     (case dict_get i (offer_entries_by_id v) of
        None \<Rightarrow> Inr v
      | Some e \<Rightarrow> bind_res (e_price e) (\<lambda>p.
          bind_res (sd_delitem (p, e_id e) (offer_entries v)) (\<lambda>es.
          bind_res (dict_delitem i (offer_entries_by_id v)) (\<lambda>ids.
            Inr (v\<lparr>offer_entries := es, offer_entries_by_id := ids\<rparr>)))))"

definition view_get :: "int \<Rightarrow> offer_view \<Rightarrow> book_entry option" where
  "view_get i v = dict_get i (offer_entries_by_id v)"

text \<open>The loop of \<open>get_offers_by_price\<close>, which stops behind the price.\<close>

fun scan_price :: "rat \<Rightarrow> book_entry list \<Rightarrow> book_entry list res" where
  "scan_price p [] = Inr []"
| "scan_price p (e # es) = bind_res (e_price e) (\<lambda>q.
     let matched = (if q = p then [e] else []) in
     if q > p then Inr matched
     else bind_res (scan_price p es) (\<lambda>more. Inr (matched @ more)))"

definition view_by_price :: "rat \<Rightarrow> offer_view \<Rightarrow> book_entry list res" where
  "view_by_price p v = scan_price p (sd_values (offer_entries v))"

definition view_len :: "offer_view \<Rightarrow> nat" where
  "view_len v = length (offer_entries v)"

definition view_values :: "offer_view \<Rightarrow> book_entry list" where
  "view_values v = sd_values (offer_entries v)"

section \<open>The book\<close>

record offer_book =
  buys :: offer_view
  sells :: offer_view

definition empty_book :: offer_book where
  "empty_book = \<lparr>buys = empty_view, sells = empty_view\<rparr>"

definition insert_offer :: "book_entry \<Rightarrow> offer_book \<Rightarrow> offer_book res" where
  "insert_offer e b =
     (case o_type (e_offer e) of
        BUY \<Rightarrow> bind_res (view_add e (buys b)) (\<lambda>v. Inr (b\<lparr>buys := v\<rparr>))
      | SELL \<Rightarrow> bind_res (view_add e (sells b)) (\<lambda>v. Inr (b\<lparr>sells := v\<rparr>)))"

definition get_offer_by_id :: "int \<Rightarrow> offer_book \<Rightarrow> book_entry option" where
  "get_offer_by_id i b =
     (case view_get i (buys b) of None \<Rightarrow> view_get i (sells b) | Some e \<Rightarrow> Some e)"

definition book_contains :: "int \<Rightarrow> offer_book \<Rightarrow> bool" where
  "book_contains i b \<longleftrightarrow>
     dict_mem i (offer_entries_by_id (buys b)) \<or> dict_mem i (offer_entries_by_id (sells b))"

definition remove_offer :: "int \<Rightarrow> offer_book \<Rightarrow> offer_book res" where
  "remove_offer i b =
     (if dict_mem i (offer_entries_by_id (buys b))
      then bind_res (view_remove i (buys b)) (\<lambda>v. Inr (b\<lparr>buys := v\<rparr>))
      else if dict_mem i (offer_entries_by_id (sells b))
      then bind_res (view_remove i (sells b)) (\<lambda>v. Inr (b\<lparr>sells := v\<rparr>))
      else Inl PlainException)"

definition get_offers_by_price :: "rat \<Rightarrow> offer_type \<Rightarrow> offer_book \<Rightarrow> book_entry list res" where
  "get_offers_by_price p t b = view_by_price p (if t = SELL then buys b else sells b)"

section \<open>The invariant of a view\<close>

definition view_ok :: "offer_view \<Rightarrow> bool" where
  "view_ok v \<longleftrightarrow> sd_wf (offer_entries v) \<and> dict_wf (offer_entries_by_id v) \<and>
     (\<forall>p i e. sd_get (p, i) (offer_entries v) = Some e \<longleftrightarrow>
        dict_get i (offer_entries_by_id v) = Some e \<and> e_price e = Inr p) \<and>
     (\<forall>i e. dict_get i (offer_entries_by_id v) = Some e \<longrightarrow> e_id e = i \<and> (\<exists>p. e_price e = Inr p))"

lemma view_okD:
  assumes "view_ok v"
  shows "sd_wf (offer_entries v)" "dict_wf (offer_entries_by_id v)"
    "sd_get (p, i) (offer_entries v) = Some e \<longleftrightarrow>
       dict_get i (offer_entries_by_id v) = Some e \<and> e_price e = Inr p"
    "dict_get i (offer_entries_by_id v) = Some e \<Longrightarrow> e_id e = i \<and> (\<exists>p. e_price e = Inr p)"
  using assms by (simp_all add: view_ok_def)

lemma empty_view_ok [simp]: "view_ok empty_view"
  by (simp add: view_ok_def empty_view_def sd_get_def)

lemma view_add_ok:
  assumes "view_ok v" and "view_get (e_id e) v = None" and "view_add e v = Inr v'"
  shows "view_ok v'"
proof -
  obtain p where p: "e_price e = Inr p" and v': "v' = v\<lparr>offer_entries := sd_set (p, e_id e) e (offer_entries v),
            offer_entries_by_id := dict_set (e_id e) e (offer_entries_by_id v)\<rparr>"
    using assms(3) by (auto simp: view_add_def bind_res_Inr_iff)
  note ok = view_okD [OF assms(1)]
  have none: "dict_get (e_id e) (offer_entries_by_id v) = None" using assms(2) by (simp add: view_get_def)
  have ids: "dict_get i (offer_entries_by_id v') =
      (if i = e_id e then Some e else dict_get i (offer_entries_by_id v))" for i
    by (simp add: v')
  have "sd_get (q, i) (offer_entries v') = Some x \<longleftrightarrow>
      dict_get i (offer_entries_by_id v') = Some x \<and> e_price x = Inr q" for q i x
  proof (cases "i = e_id e")
    case True
    then have "sd_get (q, i) (offer_entries v) \<noteq> Some x" using ok(3) [of q i x] none by simp
    then show ?thesis using True p by (auto simp: ids v' sd_get_set [OF ok(1)] split: if_splits)
  next
    case False
    then show ?thesis using ok(3) [of q i x] by (simp add: ids) (simp add: v' sd_get_set [OF ok(1)])
  qed
  moreover have "dict_get i (offer_entries_by_id v') = Some x \<Longrightarrow> e_id x = i \<and> (\<exists>p. e_price x = Inr p)" for i x
    using ok(4) [of i x] p by (simp add: ids split: if_splits)
  moreover have "sd_wf (offer_entries v')" "dict_wf (offer_entries_by_id v')"
    using ok(1,2) by (simp_all add: v' sd_wf_set)
  ultimately show ?thesis unfolding view_ok_def by blast
qed

lemma view_remove_step:
  assumes "view_ok v"
  shows "\<exists>v'. view_remove i v = Inr v' \<and> view_ok v' \<and>
    offer_entries_by_id v' = (if view_get i v = None then offer_entries_by_id v
      else dict_del i (offer_entries_by_id v))"
proof (cases "dict_get i (offer_entries_by_id v)")
  case None
  then show ?thesis using assms by (simp add: view_remove_def view_get_def)
next
  case (Some e)
  note ok = view_okD [OF assms]
  obtain p where p: "e_price e = Inr p" "e_id e = i" using ok(4) [OF Some] by blast
  have get: "sd_get (p, i) (offer_entries v) = Some e" using ok(3) Some p(1) by blast
  let ?v = "v\<lparr>offer_entries := sd_del (p, i) (offer_entries v),
      offer_entries_by_id := dict_del i (offer_entries_by_id v)\<rparr>"
  have eq: "view_remove i v = Inr ?v"
    using Some p get by (simp add: view_remove_def sd_delitem_def dict_delitem_def dict_mem_def)
  have "sd_get (q, j) (offer_entries ?v) = Some x \<longleftrightarrow>
      dict_get j (offer_entries_by_id ?v) = Some x \<and> e_price x = Inr q" for q j x
    using ok(3) [of q j x] Some p by (auto simp: sd_get_del [OF ok(1)])
  moreover have "dict_get j (offer_entries_by_id ?v) = Some x \<Longrightarrow> e_id x = j \<and> (\<exists>p. e_price x = Inr p)" for j x
    using ok(4) [of j x] by (auto split: if_splits)
  moreover have "sd_wf (offer_entries ?v)" "dict_wf (offer_entries_by_id ?v)"
    using ok(1,2) by (simp_all add: sd_wf_del)
  ultimately have "view_ok ?v" unfolding view_ok_def by blast
  with eq Some show ?thesis by (simp add: view_get_def)
qed

text \<open>The scan finds every entry at the price although it stops early.\<close>

lemma scan_sorted:
  assumes "\<forall>e \<in> set es. \<exists>q. e_price e = Inr q"
    and "sorted (map (\<lambda>e. projr (e_price e)) es)"
  shows "scan_price p es = Inr (filter (\<lambda>e. e_price e = Inr p) es)"
  using assms
proof (induction es)
  case (Cons e es)
  then obtain q where q: "e_price e = Inr q" by auto
  have later: "p < q \<Longrightarrow> filter (\<lambda>e. e_price e = Inr p) es = []"
    using Cons.prems q by (auto simp: filter_empty_conv)
  show ?case using Cons q later by (auto simp: Let_def)
qed simp

text \<open>
  What holds of a view whatever is added to it: every entry stands under its own price and id, and
  the entry known under an id is one of them.
\<close>

definition view_keyed :: "offer_view \<Rightarrow> bool" where
  "view_keyed v \<longleftrightarrow> sd_wf (offer_entries v) \<and> dict_wf (offer_entries_by_id v) \<and>
     (\<forall>p i e. sd_get (p, i) (offer_entries v) = Some e \<longrightarrow> e_price e = Inr p \<and> e_id e = i) \<and>
     (\<forall>i e. dict_get i (offer_entries_by_id v) = Some e \<longrightarrow>
        e_id e = i \<and> (\<exists>p. sd_get (p, i) (offer_entries v) = Some e))"

lemma view_ok_keyed: "view_ok v \<Longrightarrow> view_keyed v"
  using view_okD [of v] unfolding view_keyed_def by metis

lemma empty_view_keyed [simp]: "view_keyed empty_view"
  by (simp add: view_ok_keyed)

lemma view_keyedD:
  assumes "view_keyed v"
  shows "sd_wf (offer_entries v)" "dict_wf (offer_entries_by_id v)"
    "sd_get (p, i) (offer_entries v) = Some e \<Longrightarrow> e_price e = Inr p \<and> e_id e = i"
    "view_get i v = Some e \<Longrightarrow> e_id e = i \<and> (\<exists>p. sd_get (p, i) (offer_entries v) = Some e)"
  using assms by (simp_all add: view_keyed_def view_get_def)

lemma view_entry:
  assumes "view_keyed v" and "((p, i), e) \<in> set (offer_entries v)"
  shows "e_price e = Inr p" "e_id e = i"
  using assms sdict.items_mem [of "offer_entries v" "(p, i)" e] view_keyedD [OF assms(1)] by auto

lemma view_prices_sorted:
  assumes "view_keyed v"
  shows "sorted (map (\<lambda>e. projr (e_price e)) (sd_values (offer_entries v)))"
proof -
  have "map (\<lambda>e. projr (e_price e)) (sd_values (offer_entries v)) =
      map fst (map fst (offer_entries v))"
    using view_entry(1) [OF assms] by (force simp: sd_values_def)
  moreover have "sorted (map fst xs)" if "sorted_wrt (<) xs" for xs :: "(rat \<times> int) list"
    using that by (induction xs) (auto simp: less_prod_def)
  then have "sorted (map fst (map fst (offer_entries v)))"
    using view_keyedD(1) [OF assms] by (simp only: sd_wf_def)
  ultimately show ?thesis by (simp only:)
qed

lemma view_values_keys:
  assumes "view_keyed v"
  shows "map (\<lambda>e. (projr (e_price e), e_id e)) (view_values v) = map fst (offer_entries v)"
    "distinct (map (\<lambda>e. (projr (e_price e), e_id e)) (view_values v))"
proof -
  show "map (\<lambda>e. (projr (e_price e), e_id e)) (view_values v) = map fst (offer_entries v)"
    using view_entry [OF assms] by (force simp: view_values_def sd_values_def)
  then show "distinct (map (\<lambda>e. (projr (e_price e), e_id e)) (view_values v))"
    using view_keyedD(1) [OF assms] by (simp only: sd_wf_def strict_sorted_iff)
qed

lemma view_known: "view_keyed v \<Longrightarrow> view_get i v = Some e \<Longrightarrow> e \<in> set (view_values v)"
  using view_keyedD(4) [of v i e] view_keyedD(1) [of v] by (auto simp: view_values_def sd_values_mem)

lemma view_by_price_eq:
  assumes "view_keyed v"
  shows "view_by_price p v = Inr (filter (\<lambda>e. e_price e = Inr p) (view_values v))"
  unfolding view_by_price_def view_values_def
proof (intro scan_sorted view_prices_sorted [OF assms] ballI)
  fix e assume "e \<in> set (sd_values (offer_entries v))"
  then obtain k where "(k, e) \<in> set (offer_entries v)" by (auto simp: sd_values_def)
  then show "\<exists>q. e_price e = Inr q" using view_entry(1) [OF assms] by (cases k) blast
qed

lemma view_values_iff:
  "view_ok v \<Longrightarrow> e \<in> set (sd_values (offer_entries v)) \<longleftrightarrow> view_get (e_id e) v = Some e"
  using view_okD [of v] by (auto simp: sd_values_mem view_get_def)

section \<open>The book refines a map\<close>

definition book_ok :: "offer_book \<Rightarrow> bool" where
  "book_ok b \<longleftrightarrow> view_ok (buys b) \<and> view_ok (sells b) \<and>
     (\<forall>i e. view_get i (buys b) = Some e \<longrightarrow> o_type (e_offer e) = BUY \<and> view_get i (sells b) = None) \<and>
     (\<forall>i e. view_get i (sells b) = Some e \<longrightarrow> o_type (e_offer e) = SELL)"

text \<open>What the book promises: a map from offer ids to entries.\<close>

definition book_map :: "offer_book \<Rightarrow> int \<Rightarrow> book_entry option" where
  "book_map b i = get_offer_by_id i b"

lemma contains_iff: "book_contains i b \<longleftrightarrow> book_map b i \<noteq> None"
  by (auto simp: book_contains_def book_map_def get_offer_by_id_def view_get_def dict_mem_def
      split: option.splits)

lemma book_map_id: "book_ok b \<Longrightarrow> book_map b i = Some e \<Longrightarrow> e_id e = i"
  by (auto simp: book_ok_def book_map_def get_offer_by_id_def view_get_def
      dest: view_okD(4) split: option.splits)

lemma empty_book_ok: "book_ok empty_book" "book_map empty_book = (\<lambda>_. None)"
  by (auto simp: book_ok_def empty_book_def book_map_def get_offer_by_id_def view_get_def empty_view_def
      view_ok_def sd_get_def)

lemma view_add_get:
  "view_add e v = Inr v' \<Longrightarrow> view_get i v' = (if i = e_id e then Some e else view_get i v)"
  by (auto simp: view_add_def view_get_def bind_res_Inr_iff)

lemma insert_refines:
  assumes "book_ok b" and "\<not> book_contains (e_id e) b" and "e_price e = Inr p"
  shows "\<exists>b'. insert_offer e b = Inr b' \<and> book_ok b' \<and> book_map b' = (book_map b)(e_id e \<mapsto> e)"
proof -
  have none: "view_get (e_id e) (buys b) = None" "view_get (e_id e) (sells b) = None"
    using assms(2) by (auto simp: book_contains_def view_get_def dict_mem_def)
  have "\<exists>v'. view_add e v = Inr v'" for v using assms(3) by (simp add: view_add_def)
  then obtain vb vs where add: "view_add e (buys b) = Inr vb" "view_add e (sells b) = Inr vs" by blast
  have ok: "view_ok vb" "view_ok vs"
    using assms(1) none add by (auto simp: book_ok_def intro: view_add_ok)
  note g = view_add_get [OF add(1)] view_add_get [OF add(2)]
  show ?thesis
  proof (cases "o_type (e_offer e)")
    case BUY
    then have "insert_offer e b = Inr (b\<lparr>buys := vb\<rparr>)" using add by (simp add: insert_offer_def)
    moreover have "book_ok (b\<lparr>buys := vb\<rparr>)"
      using assms(1) ok none BUY by (auto simp: book_ok_def g)
    moreover have "book_map (b\<lparr>buys := vb\<rparr>) = (book_map b)(e_id e \<mapsto> e)"
      by (rule ext) (auto simp: book_map_def get_offer_by_id_def g split: option.split)
    ultimately show ?thesis by blast
  next
    case SELL
    then have "insert_offer e b = Inr (b\<lparr>sells := vs\<rparr>)" using add by (simp add: insert_offer_def)
    moreover have "book_ok (b\<lparr>sells := vs\<rparr>)"
      using assms(1) ok none SELL by (auto simp: book_ok_def g)
    moreover have "book_map (b\<lparr>sells := vs\<rparr>) = (book_map b)(e_id e \<mapsto> e)"
      using none by - (rule ext, auto simp: book_map_def get_offer_by_id_def g split: option.split)
    ultimately show ?thesis by blast
  qed
qed

lemma view_remove_get:
  assumes "view_ok v" and "view_remove i v = Inr v'"
  shows "view_ok v'" "view_get j v' = (if j = i then None else view_get j v)"
proof -
  obtain u where u: "view_remove i v = Inr u" "view_ok u"
    "offer_entries_by_id u = (if view_get i v = None then offer_entries_by_id v
      else dict_del i (offer_entries_by_id v))" using view_remove_step [OF assms(1)] by blast
  then have "u = v'" using assms(2) by simp
  then show "view_ok v'" "view_get j v' = (if j = i then None else view_get j v)"
    using u(2,3) by (auto simp: view_get_def)
qed

lemma remove_refines:
  assumes "book_ok b" and "book_contains i b"
  shows "\<exists>b'. remove_offer i b = Inr b' \<and> book_ok b' \<and> book_map b' = (book_map b)(i := None)"
proof -
  have vo: "view_ok (buys b)" "view_ok (sells b)" using assms(1) by (simp_all add: book_ok_def)
  obtain vb vs where rm: "view_remove i (buys b) = Inr vb" "view_remove i (sells b) = Inr vs"
    using view_remove_step [OF vo(1)] view_remove_step [OF vo(2)] by blast
  note g = view_remove_get [OF vo(1) rm(1)] view_remove_get [OF vo(2) rm(2)]
  have excl: "view_get j (buys b) = Some e \<Longrightarrow> view_get j (sells b) = None" for j e
    using assms(1) by (auto simp: book_ok_def)
  show ?thesis
  proof (cases "dict_mem i (offer_entries_by_id (buys b))")
    case True
    then have "view_get i (sells b) = None" using excl by (auto simp: dict_mem_def view_get_def)
    then have "book_map (b\<lparr>buys := vb\<rparr>) = (book_map b)(i := None)"
      by - (rule ext, auto simp: book_map_def get_offer_by_id_def g split: option.split)
    moreover have "book_ok (b\<lparr>buys := vb\<rparr>)" using assms(1) g by (auto simp: book_ok_def split: if_splits)
    ultimately show ?thesis using True rm by (simp add: remove_offer_def)
  next
    case False
    then have nb: "view_get i (buys b) = None" by (simp add: dict_mem_def view_get_def)
    then have "book_map (b\<lparr>sells := vs\<rparr>) = (book_map b)(i := None)"
      by - (rule ext, auto simp: book_map_def get_offer_by_id_def g split: option.split)
    moreover have "book_ok (b\<lparr>sells := vs\<rparr>)" using assms(1) g by (auto simp: book_ok_def split: if_splits)
    ultimately show ?thesis using False rm assms(2) by (simp add: remove_offer_def book_contains_def)
  qed
qed

lemma price_query:
  assumes "book_ok b"
  shows "\<exists>es. get_offers_by_price p t b = Inr es \<and>
    set es = {e. book_map b (e_id e) = Some e \<and> o_type (e_offer e) \<noteq> t \<and> e_price e = Inr p} \<and>
    distinct es"
proof -
  let ?v = "if t = SELL then buys b else sells b"
  have ok: "view_ok ?v" using assms by (simp add: book_ok_def)
  have eq: "view_get (e_id e) ?v = Some e \<longleftrightarrow> book_map b (e_id e) = Some e \<and> o_type (e_offer e) \<noteq> t" for e
    using assms by (cases t; cases "o_type (e_offer e)")
      (auto simp: book_ok_def book_map_def get_offer_by_id_def split: option.splits)
  have "set (filter (\<lambda>e. e_price e = Inr p) (view_values ?v)) =
      {e. view_get (e_id e) ?v = Some e \<and> e_price e = Inr p}"
    using view_values_iff [OF ok] by (auto simp: view_values_def)
  then have "set (filter (\<lambda>e. e_price e = Inr p) (view_values ?v)) =
      {e. book_map b (e_id e) = Some e \<and> o_type (e_offer e) \<noteq> t \<and> e_price e = Inr p}"
    unfolding eq by simp
  moreover have "distinct (view_values ?v)"
    using view_values_keys(2) [OF view_ok_keyed [OF ok]] by (metis distinct_map)
  ultimately show ?thesis using view_by_price_eq [OF view_ok_keyed [OF ok], of p] by (simp add: get_offers_by_price_def)
qed

section \<open>Properties\<close>

text \<open>Inserting an entry whose id is not in the book, and whose price can be computed, succeeds
  and is exactly the insertion into the map from ids to entries that the book stands for.\<close>

theorem book_insert:
  assumes "book_ok b" and "\<not> book_contains (e_id e) b" and "e_price e = Inr p"
  shows "\<exists>b'. insert_offer e b = Inr b' \<and> book_ok b' \<and> book_map b' = (book_map b)(e_id e \<mapsto> e)"
  using assms by (rule insert_refines)

definition example_entry :: "int \<Rightarrow> int \<Rightarrow> book_entry" where
  "example_entry i base = \<lparr>e_offer = \<lparr>o_id = i, o_type = SELL, o_base = base, o_quote = 2 * base,
     o_timeout = 0\<rparr>, e_initiator = [1], e_commitment_proof = None\<rparr>"

lemma example_price:
  assumes "0 < base" and "base \<le> 2 ^ 50" shows "e_price (example_entry i base) = Inr 2"
proof -
  have "float_of_int (2 * base) = Inr (of_int (2 * base))" "float_of_int base = Inr (of_int base)"
    by (rule float_of_int_small, use assms in simp)+
  then show ?thesis
    using assms to_double_of_int [of 2]
    by (simp add: e_price_def example_entry_def price_def float_div_def)
qed

theorem book_insert_witness:
  "\<exists>b'. insert_offer (example_entry 3 5) empty_book = Inr b' \<and> book_ok b' \<and>
        book_map b' = [3 \<mapsto> example_entry 3 5]"
proof -
  have "e_id (example_entry 3 5) = 3" by (simp add: e_id_def example_entry_def)
  then show ?thesis
    using book_insert [of empty_book "example_entry 3 5" 2] empty_book_ok example_price [of 5 3]
    by (simp add: contains_iff)
qed

text \<open>Asking for a price returns, without repetition, exactly the offers of the other side of the
  market whose price is that price, although the scan stops at the first higher price.\<close>

theorem book_price_query:
  assumes "book_ok b"
  shows "\<exists>es. get_offers_by_price p t b = Inr es \<and>
    set es = {e. book_map b (e_id e) = Some e \<and> o_type (e_offer e) \<noteq> t \<and> e_price e = Inr p} \<and>
    distinct es"
  using assms by (rule price_query)

theorem book_price_query_witness: "get_offers_by_price 2 BUY empty_book = Inr []"
  using book_price_query [of empty_book 2 BUY] empty_book_ok by (simp add: book_map_def)

text \<open>Adding an entry under an id that is there with another price leaves the old entry in the
  sorted dictionary: it stays visible to a scan by price, while the lookup by id and a later
  removal only know the new one.\<close>

theorem stale_entry:
  assumes "view_ok v" and "view_get i v = Some e" and "e_price e = Inr p"
    and "e_id e' = i" and "e_price e' = Inr q" and "p \<noteq> q"
  shows "\<exists>v' v''. view_add e' v = Inr v' \<and> view_get i v' = Some e' \<and> e \<in> set (view_values v') \<and>
    view_remove i v' = Inr v'' \<and> view_get i v'' = None \<and> e \<in> set (view_values v'')"
proof -
  note ok = view_okD [OF assms(1)]
  have "e_id e = i" using ok(4) assms(2) by (auto simp: view_get_def)
  then have old: "sd_get (p, i) (offer_entries v) = Some e" using ok(3) assms(2,3) by (simp add: view_get_def)
  let ?es = "sd_set (q, i) e' (offer_entries v)"
  let ?v = "v\<lparr>offer_entries := ?es, offer_entries_by_id := dict_set i e' (offer_entries_by_id v)\<rparr>"
  let ?u = "?v\<lparr>offer_entries := sd_del (q, i) ?es,
    offer_entries_by_id := dict_del i (offer_entries_by_id ?v)\<rparr>"
  have wf: "sd_wf ?es" "sd_wf (sd_del (q, i) ?es)" using ok(1) by (simp_all add: sd_wf_set sd_wf_del)
  have "view_add e' v = Inr ?v" using assms(4,5) by (simp add: view_add_def)
  moreover have "view_remove i ?v = Inr ?u"
    using assms(4,5) by (simp add: view_remove_def sd_delitem_def sd_get_set [OF ok(1)] dict_delitem_def)
  moreover have "e \<in> set (view_values ?v)" "e \<in> set (view_values ?u)"
    using old assms(6) by (auto simp: view_values_def sd_values_mem wf sd_get_set [OF ok(1)]
        sd_get_del [OF wf(1)] intro!: exI [of _ p] exI [of _ i])
  ultimately show ?thesis by (fastforce simp: view_get_def)
qed

theorem stale_entry_witness:
  "\<exists>v v'. view_ok v \<and> view_get 3 v = Some (example_entry 3 5) \<and>
     view_add ((example_entry 3 5)\<lparr>e_offer := (e_offer (example_entry 3 5))\<lparr>o_quote := 5\<rparr>\<rparr>) v = Inr v' \<and>
     example_entry 3 5 \<in> set (view_values v')"
proof -
  let ?e = "example_entry 3 5" and ?e' = "(example_entry 3 5)\<lparr>e_offer := (e_offer (example_entry 3 5))\<lparr>o_quote := 5\<rparr>\<rparr>"
  have id: "e_id ?e = 3" "e_id ?e' = 3" by (simp_all add: e_id_def example_entry_def)
  have p: "e_price ?e = Inr 2" by (rule example_price) simp_all
  have q: "e_price ?e' = Inr 1"
    using to_double_of_int [of 1] float_of_int_small [of 5]
    by (simp add: e_price_def example_entry_def price_def float_div_def)
  obtain v where v: "view_add ?e empty_view = Inr v" using p by (simp add: view_add_def)
  have "view_ok v" using v by (rule view_add_ok [rotated 2]) (simp, simp add: view_get_def empty_view_def)
  moreover have "view_get 3 v = Some ?e" using view_add_get [OF v] id by simp
  ultimately show ?thesis using stale_entry [of v 3 ?e 2 ?e' 1] p q id by auto
qed

end
