(* ===== verification/Matching.thy ===== *)
theory Matching
  imports Offer_Book
begin

text \<open>
  \<open>raidex_node/matching/matching_algorithm.py\<close> and \<open>matching_engine.py\<close>: which offers of the book a
  new limit order takes.
\<close>

section \<open>The algorithm\<close>

text \<open>The loop over the offers, with the amount that is left.\<close>

fun take_matching :: "int \<Rightarrow> book_entry list \<Rightarrow> book_entry list \<times> int" where
  "take_matching amount_left [] = ([], amount_left)"
| "take_matching amount_left (e # es) =
     (if amount_left \<ge> e_base e
      then (case take_matching (amount_left - e_base e) es of (taken, left) \<Rightarrow> (e # taken, left))
      else take_matching amount_left es)"

text \<open>\<open>list.sort\<close> with \<open>reverse=True\<close> keeps the order of equal elements.\<close>

definition match_limit ::
  "rat \<Rightarrow> int \<Rightarrow> offer_type \<Rightarrow> offer_book \<Rightarrow> (book_entry list \<times> int) res" where
  "match_limit p amount t b =
     bind_res (get_offers_by_price p t b) (\<lambda>matching.
       Inr (take_matching amount (sort_key (\<lambda>e. - e_base e) matching)))"

definition match_new_order ::
  "(rat \<Rightarrow> int \<Rightarrow> offer_type \<Rightarrow> offer_book \<Rightarrow> (book_entry list \<times> int) res) \<Rightarrow>
   offer_book \<Rightarrow> rat \<Rightarrow> int \<Rightarrow> offer_type \<Rightarrow> (book_entry list \<times> int) res" where
  "match_new_order matcher b p amount t = matcher p amount t b"

section \<open>Facts\<close>

lemma take_sum: "take_matching a es = (taken, left) \<Longrightarrow> a = left + sum_list (map e_base taken)"
  by (induction a es arbitrary: taken left rule: take_matching.induct)
     (auto split: if_splits prod.splits)

lemma take_subset: "take_matching a es = (taken, left) \<Longrightarrow> set taken \<subseteq> set es"
  by (induction a es arbitrary: taken left rule: take_matching.induct)
     (fastforce split: if_splits prod.splits)+

lemma take_distinct: "take_matching a es = (taken, left) \<Longrightarrow> distinct es \<Longrightarrow> distinct taken"
proof (induction a es arbitrary: taken left rule: take_matching.induct)
  case (2 a e es)
  then show ?case using take_subset by (fastforce split: if_splits prod.splits)
qed simp

lemma take_left:
  "take_matching a es = (taken, left) \<Longrightarrow> 0 \<le> a \<Longrightarrow> \<forall>e \<in> set es. 0 \<le> e_base e \<Longrightarrow>
    0 \<le> left \<and> left \<le> a"
  by (induction a es arbitrary: taken left rule: take_matching.induct)
     (fastforce split: if_splits prod.splits)+

lemma take_maximal:
  "take_matching a es = (taken, left) \<Longrightarrow> 0 \<le> a \<Longrightarrow> \<forall>e \<in> set es. 0 \<le> e_base e \<Longrightarrow>
    e \<in> set es \<Longrightarrow> e \<notin> set taken \<Longrightarrow> left < e_base e"
proof (induction a es arbitrary: taken left rule: take_matching.induct)
  case (2 a x es)
  show ?case
  proof (cases "a \<ge> e_base x")
    case True
    obtain tk where tk: "take_matching (a - e_base x) es = (tk, left)" "taken = x # tk"
      using 2(3) True by (auto split: prod.splits)
    then show ?thesis using 2(1) [OF True tk(1)] 2(4-) True by auto
  next
    case False
    then have t: "take_matching a es = (taken, left)" using 2(3) by simp
    show ?thesis
    proof (cases "e \<in> set es")
      case True
      then show ?thesis using 2(2) [OF False t] 2(4-) by simp
    next
      case e: False
      have "left \<le> a" using take_left [OF t] 2(4,5) by simp
      then show ?thesis using e False 2(6) by simp
    qed
  qed
qed simp

lemma take_first:
  "e_base e \<le> a \<Longrightarrow> \<exists>tk left. take_matching a (e # es) = (e # tk, left)"
  by (simp split: prod.split)

lemma take_nonneg: "take_matching a es = (taken, left) \<Longrightarrow> 0 \<le> a \<Longrightarrow> 0 \<le> left"
  by (induction a es arbitrary: taken left rule: take_matching.induct)
     (auto split: if_splits prod.splits)

lemma match_limit_left:
  "match_limit p amount t b = Inr (taken, left) \<Longrightarrow> 0 \<le> amount \<Longrightarrow> 0 \<le> left"
  by (auto simp: match_limit_def bind_res_Inr_iff dest: take_nonneg)

lemma match_limit_facts:
  assumes "book_ok b"
  shows "\<exists>taken left. match_limit p amount t b = Inr (taken, left) \<and>
    amount = left + sum_list (map e_base taken) \<and> distinct taken \<and>
    (\<forall>e \<in> set taken. book_map b (e_id e) = Some e \<and> o_type (e_offer e) \<noteq> t \<and> e_price e = Inr p) \<and>
    (0 \<le> amount \<and> (\<forall>e. book_map b (e_id e) = Some e \<longrightarrow> 0 \<le> e_base e) \<longrightarrow>
       0 \<le> left \<and>
       (\<forall>e. book_map b (e_id e) = Some e \<and> o_type (e_offer e) \<noteq> t \<and> e_price e = Inr p \<and>
            e \<notin> set taken \<longrightarrow> left < e_base e))"
proof -
  obtain es where es: "get_offers_by_price p t b = Inr es" "distinct es"
    "set es = {e. book_map b (e_id e) = Some e \<and> o_type (e_offer e) \<noteq> t \<and> e_price e = Inr p}"
    using price_query [OF assms] by blast
  let ?s = "sort_key (\<lambda>e. - e_base e) es"
  obtain taken left where t: "take_matching amount ?s = (taken, left)" by fastforce
  have "match_limit p amount t b = Inr (taken, left)" using es t by (simp add: match_limit_def)
  moreover have "distinct taken" using take_distinct [OF t] es(2) by simp
  moreover have "\<forall>e \<in> set taken. e \<in> set es" using take_subset [OF t] by auto
  moreover have "0 \<le> amount \<Longrightarrow> \<forall>e \<in> set es. 0 \<le> e_base e \<Longrightarrow> 0 \<le> left" using take_left [OF t] by simp
  moreover have "0 \<le> amount \<Longrightarrow> \<forall>e \<in> set es. 0 \<le> e_base e \<Longrightarrow> e \<in> set es \<Longrightarrow> e \<notin> set taken \<Longrightarrow>
      left < e_base e" for e using take_maximal [OF t] by simp
  ultimately show ?thesis using take_sum [OF t] es(3)
    by (intro exI [of _ taken] exI [of _ left] conjI) auto
qed

section \<open>Properties\<close>

text \<open>C25: matching a limit order accounts for its whole amount: what is left and the base amounts of
  the offers taken sum up to it, and those are distinct offers of the other side of the book at
  exactly the price of the order. If no offer of the book has a negative amount, nothing negative
  is left, and no offer at that price that was not taken would still fit into what is left.\<close>

theorem match_limit_correct:
  assumes "book_ok b"
  shows "\<exists>taken left. match_limit p amount t b = Inr (taken, left) \<and>
    amount = left + sum_list (map e_base taken) \<and> distinct taken \<and>
    (\<forall>e \<in> set taken. book_map b (e_id e) = Some e \<and> o_type (e_offer e) \<noteq> t \<and> e_price e = Inr p) \<and>
    (0 \<le> amount \<and> (\<forall>e. book_map b (e_id e) = Some e \<longrightarrow> 0 \<le> e_base e) \<longrightarrow>
       0 \<le> left \<and>
       (\<forall>e. book_map b (e_id e) = Some e \<and> o_type (e_offer e) \<noteq> t \<and> e_price e = Inr p \<and>
            e \<notin> set taken \<longrightarrow> left < e_base e))"
  using assms by (rule match_limit_facts)

theorem match_limit_correct_witness:
  "\<exists>b. insert_offer (example_entry 3 5) empty_book = Inr b \<and>
       match_limit 2 9 BUY b = Inr ([example_entry 3 5], 4)"
proof -
  let ?e = "example_entry 3 5"
  have p: "e_price ?e = Inr 2" by (rule example_price) simp_all
  have i: "e_id ?e = 3" "e_base ?e = 5" "o_type (e_offer ?e) = SELL"
    by (simp_all add: e_id_def example_entry_def e_base_def)
  obtain b where b: "insert_offer ?e empty_book = Inr b" "book_ok b" "book_map b = [3 \<mapsto> ?e]"
    using insert_refines [OF empty_book_ok(1), of ?e 2] p i empty_book_ok(2)
    by (auto simp: contains_iff)
  obtain taken left where t: "match_limit 2 9 BUY b = Inr (taken, left)"
      "9 = left + sum_list (map e_base taken)" "distinct taken"
      "\<forall>e \<in> set taken. book_map b (e_id e) = Some e"
      "(\<forall>e. book_map b (e_id e) = Some e \<longrightarrow> 0 \<le> e_base e) \<longrightarrow> 0 \<le> left \<and>
       (\<forall>e. book_map b (e_id e) = Some e \<and> o_type (e_offer e) \<noteq> BUY \<and> e_price e = Inr 2 \<and>
            e \<notin> set taken \<longrightarrow> left < e_base e)"
    using match_limit_correct [OF b(2), of 2 9 BUY] by auto
  have "\<forall>e. book_map b (e_id e) = Some e \<longrightarrow> 0 \<le> e_base e" using b(3) i by (auto split: if_splits)
  then have m: "?e \<notin> set taken \<longrightarrow> left < 5" using t(5) b(3) p i by auto
  have sub: "set taken \<subseteq> {?e}" using t(4) b(3) by (auto split: if_splits)
  have "taken \<noteq> []" using m t(2) by auto
  moreover have "length taken \<le> 1" using sub t(3) card_mono [OF _ sub] by (simp add: distinct_card)
  ultimately have "taken = [?e]" using sub by (cases taken) auto
  then show ?thesis using t(1,2) b(1) i by auto
qed

end
