(* ===== verification/Offer_Fsm.thy ===== *)
theory Offer_Fsm
  imports Fsm Matching Refunds Timestamps
begin

text \<open>
  \<open>raidex_node/order/__init__.py\<close> and \<open>raidex_node/order/events.py\<close>: the state machine all offers of
  a node share, over the state of the node. The offers are objects that the offer manager, the
  orders and the matches share by reference. The events the callbacks dispatch go to the queues
  of other components; here they are the list of what was dispatched.
\<close>

section \<open>The state of a node\<close>

datatype offer_state =
    Open | Created | Unproved | Proved | Published | Cancellation_requested
  | Pending | Exchanging | Wait_for_refund | Completed | Canceled

record offer_obj = basic_offer +
  f_role :: trader_role
  f_proof :: "message option"
  f_state :: offer_state
  f_status :: offer_state

text \<open>A payment that the payment network reports (\<open>PaymentReceivedEvent\<close>).\<close>

record payment =
  pay_initiator :: bytes
  pay_amount :: int
  pay_identifier :: int

record match_rec =
  mt_offer :: "nat option"
  mt_role :: trader_role
  mt_target :: bytes
  mt_proof :: "message option"

datatype node_event =
    CommitEvent nat
  | CommitmentProvedEvent nat
  | ReceivedInboundEvent nat payment
  | CancellationRequestEvent nat
  | SendProvenOfferEvent nat "bytes option"
  | SwapInitEvent match_rec
  | ExpectInboundEvent bytes int
  | ChannelFilterEvent string
  | MakeChannelEvent string string int

record limit_order =
  lo_id :: int
  lo_type :: offer_type
  lo_amount :: int
  lo_price :: num
  lo_lifetime :: int
  lo_offers :: "(int, nat) dict"

text \<open>A spawned timeout: for which offer, when it was to fire, and whether it has finished.\<close>

record greenlet =
  g_offer_id :: int
  g_timeout :: int
  g_lifetime :: rat
  g_dead :: bool

record node =
  offer_objs :: "nat \<Rightarrow> offer_obj"
  next_offer :: nat
  manager_offers :: "(int, nat) dict"
  orders :: "(int, limit_order) dict"
  matches :: "(int, match_rec) dict"
  greenlets :: "nat \<Rightarrow> greenlet"
  next_greenlet :: nat
  timeout_greenlets :: "(int, nat) dict"
  book :: offer_book
  channels :: string
  dispatched :: "node_event list"

definition dispatch_events :: "node_event list \<Rightarrow> (node, unit) prog" where
  "dispatch_events evs = modify (\<lambda>s. s\<lparr>dispatched := dispatched s @ evs\<rparr>)"

definition upd_offer :: "nat \<Rightarrow> (offer_obj \<Rightarrow> offer_obj) \<Rightarrow> node \<Rightarrow> node" where
  "upd_offer r f s = s\<lparr>offer_objs := (offer_objs s)(r := f (offer_objs s r))\<rparr>"

definition the_offer :: "nat \<Rightarrow> (node, offer_obj) prog" where
  "the_offer r = get_state (\<lambda>s. offer_objs s r)"

section \<open>The machine\<close>

datatype offer_trigger =
    T_initiating | T_payment_failed | T_timeout | T_receive_cancellation_proof
  | T_receive_commitment_proof | T_received_offer | T_found_match | T_received_inbound

text \<open>The keyword arguments of a trigger.\<close>

record trigger_args =
  a_proof :: "message option"
  a_raiden_event :: "payment option"

definition no_args :: trigger_args where
  "no_args = \<lparr>a_proof = None, a_raiden_event = None\<rparr>"

fun parent :: "offer_state \<Rightarrow> offer_state option" where
  "parent Created = Some Open"
| "parent Unproved = Some Open"
| "parent Proved = Some Open"
| "parent Published = Some Open"
| "parent Cancellation_requested = Some Open"
| "parent Exchanging = Some Pending"
| "parent Wait_for_refund = Some Pending"
| "parent _ = None"

fun children :: "offer_state \<Rightarrow> offer_state list" where
  "children Open = [Created, Unproved, Proved, Published, Cancellation_requested]"
| "children Pending = [Exchanging, Wait_for_refund]"
| "children _ = []"

fun initial_child :: "offer_state \<Rightarrow> offer_state option" where
  "initial_child st = (case children st of [] \<Rightarrow> None | c # _ \<Rightarrow> Some c)"

definition status_of :: "offer_state \<Rightarrow> offer_state" where
  "status_of st = (case parent st of Some p \<Rightarrow> p | None \<Rightarrow> st)"

definition offer_transitions :: "(offer_trigger, offer_state, unit, unit) machine" where
  "offer_transitions =
    fold (\<lambda>f. f)
    [add_transition T_initiating [Created] (Some Unproved) [] [] [] [],
     add_transition T_payment_failed [Unproved] (Some Unproved) [] [] [] [],
     add_transition T_timeout [Open] (Some Cancellation_requested) [] [] [] [],
     add_transition T_receive_cancellation_proof [Open] (Some Canceled) [] [] [] [],
     add_transition T_receive_commitment_proof [Unproved] (Some Proved) [] [] [] [],
     add_transition T_received_offer [Proved] (Some Published) [] [] [] [],
     add_transition T_found_match [Published] (Some Exchanging) [] [] [] [],
     add_transition T_found_match [Proved] (Some Exchanging) [] [] [] [],
     add_transition T_received_inbound [Exchanging] (Some Wait_for_refund) [] [] [] [],
     add_transition T_received_inbound [Wait_for_refund] (Some Completed) [] [] [] []]
    []"

section \<open>Callbacks\<close>

definition set_proof :: "trigger_args \<Rightarrow> nat \<Rightarrow> (node, unit) prog" where
  "set_proof args r =
     (case a_proof args of
        Some p \<Rightarrow> modify (upd_offer r (\<lambda>w. w\<lparr>f_proof := Some p\<rparr>))
      | None \<Rightarrow> return ())"

definition on_enter_unproved :: "nat \<Rightarrow> (node, unit) prog" where
  "on_enter_unproved r = dispatch_events [CommitEvent r]"

definition on_enter_published :: "nat \<Rightarrow> (node, unit) prog" where
  "on_enter_published r = dispatch_events [CommitmentProvedEvent r]"

definition initiate_refund :: "trigger_args \<Rightarrow> nat \<Rightarrow> (node, unit) prog" where
  "initiate_refund args r =
     (case a_raiden_event args of
        Some e \<Rightarrow> dispatch_events [ReceivedInboundEvent r e]
      | None \<Rightarrow> throw KeyError)"

definition on_enter_cancellation :: "nat \<Rightarrow> (node, unit) prog" where
  "on_enter_cancellation r = dispatch_events [CancellationRequestEvent r]"

definition on_enter :: "trigger_args \<Rightarrow> nat \<Rightarrow> offer_state \<Rightarrow> (node, unit) prog" where
  "on_enter args r st =
     (case st of
        Unproved \<Rightarrow> on_enter_unproved r
      | Proved \<Rightarrow> set_proof args r
      | Published \<Rightarrow> on_enter_published r
      | Cancellation_requested \<Rightarrow> on_enter_cancellation r
      | Wait_for_refund \<Rightarrow> initiate_refund args r
      | _ \<Rightarrow> return ())"

text \<open>\<open>OfferMachine.set_state\<close> also keeps the status: the parent of the state, if it has one.\<close>

definition set_offer_state :: "offer_state \<Rightarrow> nat \<Rightarrow> (node, unit) prog" where
  "set_offer_state st r = modify (upd_offer r (\<lambda>w. w\<lparr>f_state := st, f_status := status_of st\<rparr>))"

text \<open>
  A trigger of the nested machine: the transitions are looked up for the state of the offer, and
  for its parent if it has none of its own.
\<close>

definition nested_source :: "offer_trigger \<Rightarrow> offer_state \<Rightarrow> offer_state" where
  "nested_source t st =
     (if candidates offer_transitions t st = []
      then (case parent st of Some p \<Rightarrow> p | None \<Rightarrow> st) else st)"

definition fire_offer :: "offer_trigger \<Rightarrow> trigger_args \<Rightarrow> nat \<Rightarrow> (node, bool) prog" where
  "fire_offer t args r s =
     trigger (\<lambda>s. nested_source t (f_state (offer_objs s r)))
       (execute (\<lambda>_. return True) (\<lambda>tr. seq (set_offer_state (t_dest tr) r) (\<lambda>_. on_enter args r (t_dest tr)))
         (\<lambda>_ _. return ()))
       (event_table offer_transitions t) s"

text \<open>A new offer enters the machine in the initial child of \<open>open\<close>.\<close>

definition new_offer :: "basic_offer \<Rightarrow> trader_role \<Rightarrow> (node, nat) prog" where
  "new_offer b role s =
     (Inr (next_offer s),
      s\<lparr>offer_objs := (offer_objs s)(next_offer s :=
          \<lparr>o_id = o_id b, o_type = o_type b, o_base = o_base b, o_quote = o_quote b,
           o_timeout = o_timeout b, f_role = role, f_proof = None,
           f_state = (case initial_child Open of Some c \<Rightarrow> c | None \<Rightarrow> Open),
           f_status = status_of (case initial_child Open of Some c \<Rightarrow> c | None \<Rightarrow> Open)\<rparr>),
        next_offer := next_offer s + 1\<rparr>)"

section \<open>The machine, state by state\<close>

text \<open>Where a trigger leads from a state; \<open>None\<close> if it is not accepted.\<close>

definition offer_dest :: "offer_trigger \<Rightarrow> offer_state \<Rightarrow> offer_state option" where
  "offer_dest t st =
     (case t of
        T_initiating \<Rightarrow> if st = Created then Some Unproved else None
      | T_payment_failed \<Rightarrow> if st = Unproved then Some Unproved else None
      | T_timeout \<Rightarrow> if status_of st = Open then Some Cancellation_requested else None
      | T_receive_cancellation_proof \<Rightarrow> if status_of st = Open then Some Canceled else None
      | T_receive_commitment_proof \<Rightarrow> if st = Unproved then Some Proved else None
      | T_received_offer \<Rightarrow> if st = Proved then Some Published else None
      | T_found_match \<Rightarrow> if st \<in> {Proved, Published} then Some Exchanging else None
      | T_received_inbound \<Rightarrow>
          if st = Exchanging then Some Wait_for_refund
          else if st = Wait_for_refund then Some Completed else None)"

lemma offer_candidates:
  "candidates offer_transitions t (nested_source t st) =
     (case offer_dest t st of
        None \<Rightarrow> []
      | Some d \<Rightarrow> [\<lparr>t_source = nested_source t st, t_dest = d, t_conditions = [], t_unless = [],
                   t_before = [], t_after = []\<rparr>])"
  by (cases t; cases st)
     (simp_all add: nested_source_def offer_dest_def candidates_def event_table_def
        offer_transitions_def add_transition_def status_of_def)

lemma fire_offer_eq:
  "fire_offer t args r s =
     (case offer_dest t (f_state (offer_objs s r)) of
        None \<Rightarrow> (Inl MachineError, s)
      | Some d \<Rightarrow>
          (case on_enter args r d (upd_offer r (\<lambda>w. w\<lparr>f_state := d, f_status := status_of d\<rparr>) s) of
             (Inl e, s') \<Rightarrow> (Inl e, s') | (Inr _, s') \<Rightarrow> (Inr True, s')))"
  by (simp add: fire_offer_def trigger_by_candidates offer_candidates execute_def set_offer_state_def
      prog_simps split: option.split prod.split sum.split)

lemma status_fields [simp]:
  "status_of Open = Open" "status_of Created = Open" "status_of Unproved = Open"
  "status_of Proved = Open" "status_of Published = Open" "status_of Cancellation_requested = Open"
  "status_of Pending = Pending" "status_of Exchanging = Pending" "status_of Wait_for_refund = Pending"
  "status_of Completed = Completed" "status_of Canceled = Canceled"
  by (simp_all add: status_of_def)

end
