(* ===== verification/Node.thy ===== *)
theory Node
  imports Offer_Fsm
begin

text \<open>
  The node: limit orders (\<open>order/limit_order.py\<close>), the offer manager (\<open>order/offer_manager.py\<close>),
  matches (\<open>matching/match.py\<close>), timeouts (\<open>utils/greenlet_helper.py\<close>), the data manager
  (\<open>architecture/data_manager.py\<close>), the handlers of state changes (\<open>handle_state_change.py\<close>) and
  of API calls (\<open>handle_api_call.py\<close>). Random numbers and the clock are arguments.
\<close>

section \<open>Limit orders\<close>

definition upd_order :: "int \<Rightarrow> (limit_order \<Rightarrow> limit_order) \<Rightarrow> node \<Rightarrow> node" where
  "upd_order i f s =
     (case dict_get i (orders s) of
        None \<Rightarrow> s
      | Some od \<Rightarrow> s\<lparr>orders := dict_set i (f od) (orders s)\<rparr>)"

text \<open>The data an order is made from; a missing key is \<open>None\<close>.\<close>

record order_data =
  od_order_id :: "int option"
  od_type :: "string option"
  od_amount :: "int option"
  od_price :: "num option"
  od_lifetime :: "int option"

definition default_offer_lifetime :: int where
  "default_offer_lifetime = 60"

definition required :: "'a option \<Rightarrow> 'a res" where
  "required x = (case x of None \<Rightarrow> Inl KeyError | Some y \<Rightarrow> Inr y)"

definition order_from_dict :: "int \<Rightarrow> order_data \<Rightarrow> limit_order res" where
  "order_from_dict random_id d =
     (let order_id = (case od_order_id d of None \<Rightarrow> random_id | Some i \<Rightarrow> i);
          lifetime = (case od_lifetime d of None \<Rightarrow> default_offer_lifetime | Some t \<Rightarrow> t) in
      bind_res (required (od_type d)) (\<lambda>t.
      bind_res (required (od_amount d)) (\<lambda>a.
      bind_res (required (od_price d)) (\<lambda>p.
        Inr \<lparr>lo_id = order_id, lo_type = (if t = ''BUY'' then BUY else SELL), lo_amount = a,
             lo_price = p, lo_lifetime = lifetime, lo_offers = []\<rparr>))))"

definition order_add_offer :: "int \<Rightarrow> nat \<Rightarrow> (node, unit) prog" where
  "order_add_offer i r =
     seq (modify (\<lambda>s. upd_order i
       (\<lambda>od. od\<lparr>lo_offers := dict_set (o_id (offer_objs s r)) r (lo_offers od)\<rparr>) s)) (\<lambda>_.
     seq (fire_offer T_initiating no_args r) (\<lambda>_. return ()))"

definition order_states :: "limit_order \<Rightarrow> node \<Rightarrow> offer_obj list" where
  "order_states od s = map (offer_objs s) (dict_values (lo_offers od))"

definition get_open_offers :: "limit_order \<Rightarrow> node \<Rightarrow> nat list" where
  "get_open_offers od s = filter (\<lambda>r. f_status (offer_objs s r) = Open) (dict_values (lo_offers od))"

definition order_open :: "limit_order \<Rightarrow> node \<Rightarrow> bool" where
  "order_open od s = list_ex (\<lambda>w. f_status w = Open) (order_states od s)"

definition order_completed :: "limit_order \<Rightarrow> node \<Rightarrow> bool" where
  "order_completed od s =
     (if order_open od s then False
      else list_ex (\<lambda>w. f_status w = Completed) (order_states od s))"

definition order_canceled :: "limit_order \<Rightarrow> node \<Rightarrow> bool" where
  "order_canceled od s = list_ex (\<lambda>w. f_status w = Canceled) (order_states od s)"

definition amount_traded :: "limit_order \<Rightarrow> node \<Rightarrow> int" where
  "amount_traded od s =
     fold (\<lambda>w acc. if f_state w = Completed then acc + o_base w else acc) (order_states od s) 0"

section \<open>The offer manager\<close>

definition manager_add_offer :: "nat \<Rightarrow> (node, unit) prog" where
  "manager_add_offer r =
     modify (\<lambda>s. s\<lparr>manager_offers := dict_set (o_id (offer_objs s r)) r (manager_offers s)\<rparr>)"

definition has_offer :: "int \<Rightarrow> node \<Rightarrow> bool" where
  "has_offer i s = dict_mem i (manager_offers s)"

definition get_offer :: "int \<Rightarrow> node \<Rightarrow> nat option" where
  "get_offer i s = (if dict_mem i (manager_offers s) then dict_get i (manager_offers s) else None)"

definition create_offer ::
  "datetime \<Rightarrow> int \<Rightarrow> offer_type \<Rightarrow> int \<Rightarrow> int \<Rightarrow> int \<Rightarrow> trader_role \<Rightarrow> (node, nat) prog" where
  "create_offer now random_id t base quot lifetime role =
     seq (lift_res (time_plus now lifetime)) (\<lambda>timeout_date.
       new_offer \<lparr>o_id = random_id, o_type = t, o_base = base, o_quote = quot,
                  o_timeout = timeout_date\<rparr> role)"

definition create_make_offer :: "datetime \<Rightarrow> int \<Rightarrow> limit_order \<Rightarrow> int \<Rightarrow> (node, nat) prog" where
  "create_make_offer now random_id od amount_left =
     seq (lift_res (num_mul (PInt amount_left) (lo_price od))) (\<lambda>q.
     seq (create_offer now random_id (lo_type od) amount_left (num_int q) (lo_lifetime od) MAKER) (\<lambda>r.
     seq (manager_add_offer r) (\<lambda>_. return r)))"

definition create_take_offer :: "basic_offer \<Rightarrow> (node, nat) prog" where
  "create_take_offer b =
     seq (new_offer b TAKER) (\<lambda>r. seq (manager_add_offer r) (\<lambda>_. return r))"

section \<open>Timeouts\<close>

definition future_timeout :: "datetime \<Rightarrow> int \<Rightarrow> int \<Rightarrow> int \<Rightarrow> (node, nat) prog" where
  "future_timeout now i timeout threshold =
     seq (lift_res (seconds_to_timeout now timeout)) (\<lambda>sec.
     seq (lift_res (bind_res (float_of_int threshold) (\<lambda>t. float_sub sec t))) (\<lambda>lifetime.
     (\<lambda>s. (Inr (next_greenlet s),
           s\<lparr>greenlets := (greenlets s)(next_greenlet s :=
                \<lparr>g_offer_id = i, g_timeout = timeout, g_lifetime = lifetime, g_dead = False\<rparr>),
             next_greenlet := next_greenlet s + 1\<rparr>))))"

definition has_greenlet :: "int \<Rightarrow> node \<Rightarrow> bool" where
  "has_greenlet i s = dict_mem i (timeout_greenlets s)"

definition is_still_alive :: "int \<Rightarrow> node \<Rightarrow> bool" where
  "is_still_alive i s =
     (case dict_get i (timeout_greenlets s) of None \<Rightarrow> False | Some g \<Rightarrow> \<not> g_dead (greenlets s g))"

definition kill_greenlet :: "nat \<Rightarrow> node \<Rightarrow> node" where
  "kill_greenlet g s = s\<lparr>greenlets := (greenlets s)(g := (greenlets s g)\<lparr>g_dead := True\<rparr>)\<rparr>"

definition clean_up_timeout :: "int \<Rightarrow> (node, unit) prog" where
  "clean_up_timeout i = modify (\<lambda>s.
     case dict_get i (timeout_greenlets s) of
       None \<Rightarrow> s
     | Some g \<Rightarrow> (kill_greenlet g s)\<lparr>timeout_greenlets := dict_del i (timeout_greenlets s)\<rparr>)"

definition create_new_timeout :: "datetime \<Rightarrow> int \<Rightarrow> int \<Rightarrow> int \<Rightarrow> (node, bool) prog" where
  "create_new_timeout now i timeout threshold =
     seq (get_state (\<lambda>s. has_greenlet i s \<and> \<not> is_still_alive i s)) (\<lambda>dead.
     if dead then throw AlreadyTimedOutException
     else seq (clean_up_timeout i) (\<lambda>_.
       seq (future_timeout now i timeout threshold) (\<lambda>g.
       seq (modify (\<lambda>s. s\<lparr>timeout_greenlets := dict_set i g (timeout_greenlets s)\<rparr>)) (\<lambda>_.
       return True))))"

section \<open>Matches\<close>

definition maker_match :: "nat option \<Rightarrow> bytes \<Rightarrow> message option \<Rightarrow> match_rec" where
  "maker_match r target cp = \<lparr>mt_offer = r, mt_role = MAKER, mt_target = target, mt_proof = cp\<rparr>"

definition taker_match :: "nat \<Rightarrow> book_entry \<Rightarrow> match_rec" where
  "taker_match r e =
     \<lparr>mt_offer = Some r, mt_role = TAKER, mt_target = e_initiator e, mt_proof = e_commitment_proof e\<rparr>"

definition is_maker_match :: "match_rec \<Rightarrow> bool" where
  "is_maker_match m \<longleftrightarrow> mt_role m = MAKER"

definition sends_quote :: "match_rec \<Rightarrow> offer_obj \<Rightarrow> bool" where
  "sends_quote m w \<longleftrightarrow>
     is_maker_match m \<and> o_type w = BUY \<or> \<not> is_maker_match m \<and> \<not> o_type w = BUY"

definition get_send_amount :: "match_rec \<Rightarrow> offer_obj \<Rightarrow> int" where
  "get_send_amount m w = (if sends_quote m w then o_quote w else o_base w)"

definition get_token_from_market :: "match_rec \<Rightarrow> offer_obj \<Rightarrow> token_pair \<Rightarrow> bytes" where
  "get_token_from_market m w p = (if sends_quote m w then tp_quote p else tp_base p)"

definition match_offer :: "match_rec \<Rightarrow> (node, nat) prog" where
  "match_offer m = (case mt_offer m of None \<Rightarrow> throw AttributeError | Some r \<Rightarrow> return r)"

definition on_enter_exchanging :: "match_rec \<Rightarrow> (node, unit) prog" where
  "on_enter_exchanging m =
     seq (match_offer m) (\<lambda>r. seq (the_offer r) (\<lambda>w.
     dispatch_events [SwapInitEvent m, ExpectInboundEvent (mt_target m) (o_id w)]))"

definition matched :: "match_rec \<Rightarrow> (node, unit) prog" where
  "matched m =
     seq (match_offer m) (\<lambda>r. seq (fire_offer T_found_match no_args r) (\<lambda>_. on_enter_exchanging m))"

definition match_received_inbound :: "match_rec \<Rightarrow> payment \<Rightarrow> (node, unit) prog" where
  "match_received_inbound m e =
     seq (match_offer m) (\<lambda>r.
     seq (fire_offer T_received_inbound \<lparr>a_proof = None, a_raiden_event = Some e\<rparr> r) (\<lambda>_. return ()))"

section \<open>The data manager\<close>

definition put_match :: "int \<Rightarrow> match_rec \<Rightarrow> (node, unit) prog" where
  "put_match i m = modify (\<lambda>s. s\<lparr>matches := dict_set i m (matches s)\<rparr>)"

definition book_drop :: "int \<Rightarrow> (node, unit) prog" where
  "book_drop i s =
     (case remove_offer i (book s) of Inl e \<Rightarrow> (Inl e, s) | Inr b \<Rightarrow> (Inr (), s\<lparr>book := b\<rparr>))"

definition timeout_offer :: "nat \<Rightarrow> (node, unit) prog" where
  "timeout_offer r =
     seq (fire_offer T_timeout no_args r) (\<lambda>_.
     seq (the_offer r) (\<lambda>w. clean_up_timeout (o_id w)))"

text \<open>
  \<open>cancel_order\<close> passes the offer itself to \<open>clean_up_timeout\<close>; offers define equality without a
  hash, so the dictionary lookup raises.
\<close>

definition cancel_order :: "int \<Rightarrow> (node, unit) prog" where
  "cancel_order i =
     seq (get_state (\<lambda>s. dict_get i (orders s))) (\<lambda>x.
     case x of
       None \<Rightarrow> throw KeyError
     | Some od \<Rightarrow>
         seq (get_state (get_open_offers od)) (\<lambda>rs.
         for_each (\<lambda>r. seq (fire_offer T_timeout no_args r) (\<lambda>_. throw TypeError)) rs))"

definition take_entry :: "datetime \<Rightarrow> int \<Rightarrow> book_entry \<Rightarrow> (node, unit) prog" where
  "take_entry now i e =
     seq (create_take_offer (e_offer e)) (\<lambda>r.
     seq (the_offer r) (\<lambda>w.
     seq (create_new_timeout now (o_id w) (o_timeout w) 0) (\<lambda>ok.
     if ok then
       seq (put_match (o_id w) (taker_match r e)) (\<lambda>_.
       seq (order_add_offer i r) (\<lambda>_.
       book_drop (o_id w)))
     else throw OfferTimedOutException)))"

definition make_rest :: "datetime \<Rightarrow> int \<Rightarrow> limit_order \<Rightarrow> int \<Rightarrow> (node, unit) prog" where
  "make_rest now random_id od amount_left =
     seq (create_make_offer now random_id od amount_left) (\<lambda>r.
     seq (the_offer r) (\<lambda>w.
     seq (create_new_timeout now (o_id w) (o_timeout w) 0) (\<lambda>_.
     order_add_offer (lo_id od) r)))"

definition num_value :: "num \<Rightarrow> rat" where
  "num_value x = (case x of PInt n \<Rightarrow> of_int n | PFloat q \<Rightarrow> q)"

definition process_order :: "datetime \<Rightarrow> int \<Rightarrow> limit_order \<Rightarrow> (node, unit) prog" where
  "process_order now random_id od =
     seq (modify (\<lambda>s. s\<lparr>orders := dict_set (lo_id od) od (orders s)\<rparr>)) (\<lambda>_.
     seq (get_state book) (\<lambda>b.
     seq (lift_res (match_new_order match_limit b (num_value (lo_price od)) (lo_amount od)
           (lo_type od))) (\<lambda>(entries, amount_left).
     seq (for_each (take_entry now (lo_id od)) entries) (\<lambda>_.
     if amount_left > 0 then make_rest now random_id od amount_left else return ()))))"

section \<open>State changes\<close>

datatype state_change =
    NewLimitOrderStateChange order_data
  | CancelLimitOrderStateChange "int option"
  | OfferTimeoutStateChange int int
  | CommitmentProofStateChange "bytes option" message
  | CancellationProofStateChange message
  | TakerCallStateChange int bytes "message option"
  | OfferPublishedStateChange book_entry
  | PaymentFailedStateChange int string
  | TransferReceivedStateChange payment
  | ChannelStatusStateChange string
  | MakeChannelStateChange string string int

definition offer_threshold_time :: int where
  "offer_threshold_time = 10"

definition handle_commitment_proof :: "nat option \<Rightarrow> message \<Rightarrow> (node, unit) prog" where
  "handle_commitment_proof offer proof_msg =
     (case offer of
        None \<Rightarrow> throw AttributeError
      | Some r \<Rightarrow>
          seq (fire_offer T_receive_commitment_proof \<lparr>a_proof = Some proof_msg, a_raiden_event = None\<rparr> r) (\<lambda>_.
          seq (the_offer r) (\<lambda>w.
          seq (get_state (\<lambda>s. dict_get (o_id w) (matches s))) (\<lambda>m.
          seq (case m of None \<Rightarrow> return () | Some mt \<Rightarrow> matched mt) (\<lambda>_.
          dispatch_events [SendProvenOfferEvent r (map_option mt_target m)])))))"

definition handle_cancellation_proof :: "nat option \<Rightarrow> (node, unit) prog" where
  "handle_cancellation_proof offer =
     (case offer of
        None \<Rightarrow> throw AttributeError
      | Some r \<Rightarrow> seq (fire_offer T_receive_cancellation_proof no_args r) (\<lambda>_. return ()))"

text \<open>
  \<open>handle_offer_state_change\<close>: a failed payment is no \<open>OfferStateChange\<close>, so its branch there is
  never reached.
\<close>

definition handle_offer_state_change :: "int \<Rightarrow> state_change \<Rightarrow> (node, unit) prog" where
  "handle_offer_state_change i ch =
     seq (get_state (get_offer i)) (\<lambda>offer.
     case ch of
       CommitmentProofStateChange _ proof_msg \<Rightarrow> handle_commitment_proof offer proof_msg
     | CancellationProofStateChange _ \<Rightarrow> handle_cancellation_proof offer
     | _ \<Rightarrow> return ())"

definition handle_offer_timeout :: "int \<Rightarrow> (node, unit) prog" where
  "handle_offer_timeout i =
     seq (seq (get_state (get_offer i)) (\<lambda>offer.
       case offer of
         Some r \<Rightarrow> seq (fire_offer T_timeout no_args r) (\<lambda>_. return ())
       | None \<Rightarrow>
           seq (get_state (\<lambda>s. book_contains i (book s))) (\<lambda>c.
           if c then book_drop i else return ()))) (\<lambda>_.
     clean_up_timeout i)"

definition handle_new_limit_order :: "datetime \<Rightarrow> int \<Rightarrow> int \<Rightarrow> order_data \<Rightarrow> (node, unit) prog" where
  "handle_new_limit_order now random_id random_id' d =
     seq (lift_res (order_from_dict random_id d)) (process_order now random_id')"

definition handle_cancel_limit_order :: "int option \<Rightarrow> (node, unit) prog" where
  "handle_cancel_limit_order order_id = seq (lift_res (required order_id)) cancel_order"

definition handle_offer_published :: "datetime \<Rightarrow> book_entry \<Rightarrow> (node, unit) prog" where
  "handle_offer_published now e =
     seq (get_state (get_offer (e_id e))) (\<lambda>offer.
     case offer of
       Some r \<Rightarrow> seq (fire_offer T_received_offer no_args r) (\<lambda>_. return ())
     | None \<Rightarrow>
         seq (get_state (\<lambda>s. insert_offer e (book s))) (\<lambda>x.
         seq (lift_res x) (\<lambda>b.
         seq (modify (\<lambda>s. s\<lparr>book := b\<rparr>)) (\<lambda>_.
         seq (create_new_timeout now (e_id e) (o_timeout (e_offer e)) offer_threshold_time) (\<lambda>_.
         return ())))))"

definition handle_taker_call :: "int \<Rightarrow> bytes \<Rightarrow> message option \<Rightarrow> (node, unit) prog" where
  "handle_taker_call i initiator cp =
     seq (get_state (get_offer i)) (\<lambda>offer.
     seq (put_match i (maker_match offer initiator cp)) (\<lambda>_.
     matched (maker_match offer initiator cp)))"

definition handle_transfer_received :: "payment \<Rightarrow> (node, unit) prog" where
  "handle_transfer_received e =
     seq (get_state (\<lambda>s. dict_item (pay_identifier e) (matches s))) (\<lambda>x.
     seq (lift_res x) (\<lambda>m.
     seq (match_received_inbound m e) (\<lambda>_.
     seq (match_offer m) (\<lambda>r. seq (the_offer r) (\<lambda>w.
     if f_state w = Completed then clean_up_timeout (pay_identifier e) else return ())))))"

definition set_channels :: "string \<Rightarrow> (node, unit) prog" where
  "set_channels raw =
     seq (modify (\<lambda>s. s\<lparr>channels := raw\<rparr>)) (\<lambda>_. dispatch_events [ChannelFilterEvent raw])"

definition handle_make_channel :: "string \<Rightarrow> string \<Rightarrow> int \<Rightarrow> (node, unit) prog" where
  "handle_make_channel partner token deposit =
     dispatch_events [MakeChannelEvent partner token deposit]"

text \<open>The dispatch over the classes; every state change has exactly one of them.\<close>

definition handle_state_change ::
  "datetime \<Rightarrow> int \<Rightarrow> int \<Rightarrow> state_change \<Rightarrow> (node, unit) prog" where
  "handle_state_change now rnd rnd' ch =
     (case ch of
        CommitmentProofStateChange _ m \<Rightarrow> handle_offer_state_change (m_offer_id m) ch
      | CancellationProofStateChange m \<Rightarrow> handle_offer_state_change (m_offer_id m) ch
      | OfferTimeoutStateChange i _ \<Rightarrow>
          seq (handle_offer_state_change i ch) (\<lambda>_. handle_offer_timeout i)
      | NewLimitOrderStateChange d \<Rightarrow> handle_new_limit_order now rnd rnd' d
      | CancelLimitOrderStateChange i \<Rightarrow> handle_cancel_limit_order i
      | OfferPublishedStateChange e \<Rightarrow> handle_offer_published now e
      | TakerCallStateChange i who cp \<Rightarrow> handle_taker_call i who cp
      | TransferReceivedStateChange e \<Rightarrow> handle_transfer_received e
      | ChannelStatusStateChange raw \<Rightarrow> set_channels raw
      | MakeChannelStateChange p t d \<Rightarrow> handle_make_channel p t d
      | PaymentFailedStateChange _ _ \<Rightarrow> return ())"

section \<open>API calls\<close>

text \<open>A call answers with an order id or nothing, and dispatches state changes.\<close>

datatype api_call =
    NewLimitOrder order_data
  | CancelLimitOrder "int option"
  | MakeChannel string string int
  | OtherCall string

definition on_api_call :: "int \<Rightarrow> api_call \<Rightarrow> node \<Rightarrow> (int option \<times> state_change list) res" where
  "on_api_call random_id call s =
     (case call of
        NewLimitOrder d \<Rightarrow>
          Inr (Some random_id, [NewLimitOrderStateChange (d\<lparr>od_order_id := Some random_id\<rparr>)])
      | CancelLimitOrder order_id \<Rightarrow>
          bind_res (required order_id) (\<lambda>i.
          case dict_get i (orders s) of
            None \<Rightarrow> Inl PlainException
          | Some od \<Rightarrow>
              if order_open od s then Inr (Some i, [CancelLimitOrderStateChange (Some i)])
              else Inl PlainException)
      | MakeChannel p t d \<Rightarrow> Inr (None, [MakeChannelStateChange p t d])
      | OtherCall _ \<Rightarrow> Inr (None, []))"

end
