(* ===== verification/Node_Contract.thy ===== *)
theory Node_Contract
  imports Node
begin

text \<open>
  The contract between what is kept of a node and the code that runs in it: a family of predicates,
  one for each set of references the code holds, that every basic operation keeps. Whatever meets
  it is kept by every handler of the node.
\<close>

lemma preserves_lift_dep:
  "(\<And>x. r = Inr x \<Longrightarrow> preserves I (f x)) \<Longrightarrow> preserves I (seq (lift_res r) f)"
  by (cases r) (auto simp: preserves_def seq_def lift_res_def)

lemma seq_lift: "seq (lift_res (Inl e)) f s = (Inl e, s)" "seq (lift_res (Inr x)) f s = f x s"
  by (simp_all add: seq_def lift_res_def)

lemma preserves_case_prod: "(\<And>x y. preserves I (f x y)) \<Longrightarrow> preserves I (case p of (x, y) \<Rightarrow> f x y)"
  by (cases p) simp

lemma preserves_the_offer [preserves_intros]: "preserves I (the_offer r)"
  unfolding the_offer_def by (rule preserves_get)

lemma preserves_match_offer [preserves_intros]: "preserves I (match_offer m)"
  by (cases m) (auto simp: match_offer_def split: option.split intro: preserves_intros)

lemma preserves_book_remove:
  "(\<And>s b. I s \<Longrightarrow> I (s\<lparr>book := b\<rparr>)) \<Longrightarrow> preserves I (book_drop i)"
  by (rule preservesI) (simp add: book_drop_def split: sum.split)

lemma order_from_dict_fields:
  assumes "order_from_dict rnd d = Inr od"
  shows "lo_offers od = []" "od_order_id d = Some i \<Longrightarrow> lo_id od = i"
    "od_order_id d = None \<Longrightarrow> lo_id od = rnd"
  using assms by (auto simp: order_from_dict_def Let_def bind_res_Inr_iff)

text \<open>
  A step of the node: its only consumer handles a state change, or a timeout fires and puts an
  \<open>OfferTimeoutStateChange\<close> in the queue, from which it comes as a state change later.
\<close>

inductive node_step :: "node \<Rightarrow> node \<Rightarrow> bool" where
  ns_handle: "node_step s (snd (handle_state_change now rnd rnd' ch s))"
| ns_timeout: "g < next_greenlet s \<Longrightarrow> \<not> g_dead (greenlets s g) \<Longrightarrow> node_step s (kill_greenlet g s)"

inductive_cases node_step_cases: "node_step s t"

text \<open>
  The triggers that keep the predicate are a parameter: all but \<open>T_received_inbound\<close> do, which only
  the handler of payments fires. \<open>tag r i\<close> stands for a reference to an offer with the id \<open>i\<close>.
\<close>

locale node_code =
  fixes triggers :: "offer_trigger set"
    and tag :: "nat \<Rightarrow> int \<Rightarrow> 'x"
    and kept :: "'x set \<Rightarrow> node \<Rightarrow> bool"
  assumes basic_triggers: "t \<noteq> T_received_inbound \<Longrightarrow> t \<in> triggers"
    and kept_insert: "kept (insert x R) s \<Longrightarrow> kept R s"
    and kept_get_offer: "kept R s \<Longrightarrow> get_offer i s = Some r \<Longrightarrow> kept (insert (tag r i) R) s"
    and keeps_book_remove: "preserves (kept R) (book_drop i)"
    and kept_book: "kept R s \<Longrightarrow> insert_offer e (book s) = Inr b \<Longrightarrow> kept R (s\<lparr>book := b\<rparr>)"
    and kept_channels: "kept R s \<Longrightarrow> kept R (s\<lparr>channels := c\<rparr>)"
    and kept_order: "kept R s \<Longrightarrow> lo_offers od = [] \<Longrightarrow>
      kept R (s\<lparr>orders := dict_set (lo_id od) od (orders s)\<rparr>)"
    and keeps_dispatch: "preserves (kept R) (dispatch_events evs)"
    and keeps_fire: "t \<in> triggers \<Longrightarrow> preserves (kept R) (fire_offer t args r)"
    and keeps_clean_up: "preserves (kept R) (clean_up_timeout i)"
    and keeps_new_timeout: "preserves (kept R) (create_new_timeout now i timeout threshold)"
    and kept_new_offer: "kept R s \<Longrightarrow> new_offer bo role s = (Inr r, s') \<Longrightarrow> kept (insert (tag r (o_id bo)) R) s'"
    and kept_read: "kept R s \<Longrightarrow> tag r i \<in> R \<Longrightarrow> tag r (o_id (offer_objs s r)) \<in> R"
    and keeps_manager_add: "tag r i \<in> R \<Longrightarrow> preserves (kept R) (manager_add_offer r)"
    and keeps_put_match: "(\<And>r. mt_offer m = Some r \<Longrightarrow> tag r i \<in> R) \<Longrightarrow> preserves (kept R) (put_match i m)"
    and kept_kill: "kept R s \<Longrightarrow> kept R (kill_greenlet g s)"
    and keeps_order_add: "tag r j \<in> R \<Longrightarrow> preserves (kept R) (order_add_offer i r)"
begin

lemma keeps_new_offer:
  assumes "\<And>r. preserves (kept (insert (tag r (o_id bo)) R)) (f r)"
  shows "preserves (kept R) (seq (new_offer bo role) f)"
proof (rule preservesI)
  fix s assume s: "kept R s"
  obtain t where t: "new_offer bo role s = (Inr (next_offer s), t)" by (simp add: new_offer_def)
  then have "kept (insert (tag (next_offer s) (o_id bo)) R) (snd (f (next_offer s) t))"
    using assms kept_new_offer [OF s t] by (simp add: preserves_def)
  then show "kept R (snd (seq (new_offer bo role) f s))" using t by (simp add: seq_Inr kept_insert)
qed

lemma keeps_the_offer:
  assumes "tag r i \<in> R" and "\<And>w. tag r (o_id w) \<in> R \<Longrightarrow> preserves (kept R) (f w)"
  shows "preserves (kept R) (seq (the_offer r) f)"
proof (rule preservesI)
  fix s assume s: "kept R s"
  then have "tag r (o_id (offer_objs s r)) \<in> R" using kept_read assms(1) by blast
  then show "kept R (snd (seq (the_offer r) f s))"
    using assms(2) s by (simp add: the_offer_def seq_Inr [OF get_state_apply] preserves_def)
qed

lemma keeps_basic_fire: "t \<noteq> T_received_inbound \<Longrightarrow> preserves (kept R) (fire_offer t args r)"
  by (intro keeps_fire basic_triggers)

lemmas keeps_basic = keeps_dispatch keeps_basic_fire keeps_clean_up keeps_new_timeout
  keeps_book_remove offer_trigger.distinct offer_trigger.simps

lemma keeps_matched: "preserves (kept R) (matched m)"
  unfolding matched_def on_enter_exchanging_def by (intro preserves_intros keeps_basic)

lemma keeps_match_received:
  "T_received_inbound \<in> triggers \<Longrightarrow> preserves (kept R) (match_received_inbound m e)"
  unfolding match_received_inbound_def by (intro preserves_intros keeps_fire)

lemma keeps_take_entry: "preserves (kept R) (take_entry now i e)"
  unfolding take_entry_def create_take_offer_def seq_assoc seq_return
proof (intro keeps_new_offer)
  fix r
  let ?R = "insert (tag r (o_id (e_offer e))) R"
  have add: "preserves (kept ?R) (manager_add_offer r)"
    by (rule keeps_manager_add [where i = "o_id (e_offer e)"]) simp
  have rest: "preserves (kept ?R)
      (seq (create_new_timeout now (o_id w) (o_timeout w) 0) (\<lambda>ok.
       if ok then seq (put_match (o_id w) (taker_match r e)) (\<lambda>_. seq (order_add_offer i r) (\<lambda>_. book_drop (o_id w)))
       else throw OfferTimedOutException))" if "tag r (o_id w) \<in> ?R" for w
    using that keeps_order_add [of r "o_id w" ?R i]
    by (intro preserves_intros keeps_new_timeout keeps_put_match keeps_book_remove) (simp_all add: taker_match_def)
  show "preserves (kept ?R) (seq (manager_add_offer r) (\<lambda>_. seq (the_offer r) (\<lambda>w.
      seq (create_new_timeout now (o_id w) (o_timeout w) 0) (\<lambda>ok.
       if ok then seq (put_match (o_id w) (taker_match r e)) (\<lambda>_. seq (order_add_offer i r) (\<lambda>_. book_drop (o_id w)))
       else throw OfferTimedOutException))))"
    by (intro preserves_seq [OF add] keeps_the_offer [where i = "o_id (e_offer e)"] rest) simp_all
qed

lemma keeps_make_rest: "preserves (kept R) (make_rest now i od a)"
  unfolding make_rest_def create_make_offer_def create_offer_def seq_assoc seq_return
  by (intro keeps_new_offer preserves_intros keeps_new_timeout keeps_manager_add keeps_order_add) (rule insertI1)+

lemma keeps_process_order:
  "lo_offers od = [] \<Longrightarrow> preserves (kept R) (process_order now rnd od)"
  unfolding process_order_def
  by (intro preserves_intros preserves_modify preserves_case_prod kept_order keeps_take_entry
      keeps_make_rest)

lemma keeps_cancel_order: "preserves (kept R) (cancel_order i)"
  unfolding cancel_order_def by (intro preserves_intros keeps_basic)

lemma keeps_offer_state_change: "preserves (kept R) (handle_offer_state_change i ch)"
  unfolding handle_offer_state_change_def handle_commitment_proof_def handle_cancellation_proof_def
  by (cases ch) (auto intro!: preserves_intros keeps_basic_fire keeps_dispatch keeps_matched)

lemma keeps_offer_timeout: "preserves (kept R) (handle_offer_timeout i)"
  unfolding handle_offer_timeout_def by (intro preserves_intros keeps_basic)

lemma keeps_new_limit_order: "preserves (kept R) (handle_new_limit_order now rnd rnd' d)"
  unfolding handle_new_limit_order_def
  by (intro preserves_lift_dep keeps_process_order) (rule order_from_dict_fields(1))

lemma keeps_offer_published: "preserves (kept R) (handle_offer_published now e)"
proof (rule preservesI)
  fix s assume s: "kept R s"
  have known: "preserves (kept R) (seq (fire_offer T_received_offer no_args r) (\<lambda>_. return ()))" for r
    by (intro preserves_intros keeps_basic)
  have new: "preserves (kept R) (seq (create_new_timeout now i timeout threshold) (\<lambda>_. return ()))" for i timeout threshold
    by (intro preserves_intros keeps_new_timeout)
  show "kept R (snd (handle_offer_published now e s))"
  proof (cases "get_offer (e_id e) s")
    case (Some r)
    then show ?thesis using known s by (simp add: handle_offer_published_def seq_Inr [OF get_state_apply] preserves_def)
  next
    case None
    then show ?thesis using new kept_book [OF s] s
      by (cases "insert_offer e (book s)")
        (simp_all add: handle_offer_published_def seq_Inr [OF get_state_apply] seq_lift
          seq_Inr [OF modify_apply] preserves_def)
  qed
qed

lemma keeps_taker_call: "preserves (kept R) (handle_taker_call i who cp)"
proof (rule preservesI)
  fix s assume s: "kept R s"
  let ?m = "maker_match (get_offer i s) who cp"
  have run: "handle_taker_call i who cp s = seq (put_match i ?m) (\<lambda>_. matched ?m) s"
    by (simp add: handle_taker_call_def seq_Inr [OF get_state_apply])
  show "kept R (snd (handle_taker_call i who cp s))"
  proof (cases "get_offer i s")
    case None
    then have "preserves (kept R) (seq (put_match i ?m) (\<lambda>_. matched ?m))"
      by (intro preserves_intros keeps_matched keeps_put_match) (simp add: maker_match_def)
    then show ?thesis using s run by (simp add: preserves_def)
  next
    case (Some r)
    then have "preserves (kept (insert (tag r i) R)) (seq (put_match i ?m) (\<lambda>_. matched ?m))"
      by (intro preserves_intros keeps_matched keeps_put_match) (simp add: maker_match_def)
    then show ?thesis using kept_get_offer [OF s Some] run kept_insert by (metis preserves_def)
  qed
qed

lemma keeps_transfer_received:
  "T_received_inbound \<in> triggers \<Longrightarrow> preserves (kept R) (handle_transfer_received e)"
  unfolding handle_transfer_received_def
  by (intro preserves_intros keeps_clean_up keeps_match_received)

lemma keeps_set_channels: "preserves (kept R) (set_channels raw)"
  unfolding set_channels_def
  by (intro preserves_intros preserves_modify keeps_dispatch) (rule kept_channels)

lemma keeps_state_change:
  "T_received_inbound \<in> triggers \<or> (\<forall>e. ch \<noteq> TransferReceivedStateChange e) \<Longrightarrow>
    preserves (kept R) (handle_state_change now rnd rnd' ch)"
  unfolding handle_state_change_def handle_cancel_limit_order_def handle_make_channel_def
  by (cases ch) (auto intro!: preserves_intros keeps_dispatch keeps_cancel_order
      keeps_offer_state_change keeps_offer_timeout keeps_new_limit_order keeps_offer_published
      keeps_taker_call keeps_transfer_received keeps_set_channels)

lemma keeps_step: "T_received_inbound \<in> triggers \<Longrightarrow> node_step s t \<Longrightarrow> kept R s \<Longrightarrow> kept R t"
  using keeps_state_change by (auto elim!: node_step_cases simp: preserves_def kept_kill)

lemma keeps_run:
  assumes "T_received_inbound \<in> triggers"
  shows "reachable_from node_step s t \<Longrightarrow> kept R s \<Longrightarrow> kept R t"
  by (induction rule: reachable_from.induct) (auto intro: keeps_step [OF assms])

end

end
