(* ===== verification/Node_Invariant.thy ===== *)
theory Node_Invariant
  imports Node_Contract
begin

text \<open>
  What holds of a node between two state changes, and that every handler and every timeout that
  fires keeps it, also when a handler raises: an offer has at most one live timeout and it is the
  registered one; references are to offers that exist, under their own id; the status of an offer
  is the parent of its state.
\<close>

section \<open>The invariant\<close>

definition timeouts_ok :: "node \<Rightarrow> bool" where
  "timeouts_ok s \<longleftrightarrow> dict_wf (timeout_greenlets s) \<and>
     (\<forall>i g. dict_get i (timeout_greenlets s) = Some g \<longrightarrow>
        g < next_greenlet s \<and> g_offer_id (greenlets s g) = i) \<and>
     (\<forall>g < next_greenlet s. \<not> g_dead (greenlets s g) \<longrightarrow>
        dict_get (g_offer_id (greenlets s g)) (timeout_greenlets s) = Some g)"

definition refs_ok :: "node \<Rightarrow> (int, nat) dict \<Rightarrow> bool" where
  "refs_ok s d \<longleftrightarrow> dict_wf d \<and>
     (\<forall>i r. dict_get i d = Some r \<longrightarrow> r < next_offer s \<and> o_id (offer_objs s r) = i)"

definition offers_ok :: "node \<Rightarrow> bool" where
  "offers_ok s \<longleftrightarrow> refs_ok s (manager_offers s) \<and>
     (\<forall>i od. dict_get i (orders s) = Some od \<longrightarrow> lo_id od = i \<and> refs_ok s (lo_offers od)) \<and>
     (\<forall>i m r. dict_get i (matches s) = Some m \<longrightarrow> mt_offer m = Some r \<longrightarrow>
        r < next_offer s \<and> o_id (offer_objs s r) = i) \<and>
     (\<forall>r < next_offer s. f_state (offer_objs s r) \<notin> {Open, Pending} \<and>
        f_status (offer_objs s r) = status_of (f_state (offer_objs s r)))"

definition node_ok :: "node \<Rightarrow> bool" where
  "node_ok s \<longleftrightarrow> timeouts_ok s \<and> offers_ok s"

lemma timeouts_ok_cong:
  "timeout_greenlets t = timeout_greenlets s \<Longrightarrow> greenlets t = greenlets s \<Longrightarrow>
   next_greenlet t = next_greenlet s \<Longrightarrow> timeouts_ok t = timeouts_ok s"
  by (simp add: timeouts_ok_def)

lemma offers_ok_cong:
  "offer_objs t = offer_objs s \<Longrightarrow> next_offer t = next_offer s \<Longrightarrow>
   manager_offers t = manager_offers s \<Longrightarrow> orders t = orders s \<Longrightarrow> matches t = matches s \<Longrightarrow>
   offers_ok t = offers_ok s"
  by (simp add: offers_ok_def refs_ok_def)

lemma node_ok_dispatched [simp]:
  "node_ok (s\<lparr>dispatched := d\<rparr>) = node_ok s" "node_ok (s\<lparr>book := b\<rparr>) = node_ok s"
  "node_ok (s\<lparr>channels := c\<rparr>) = node_ok s"
  by (simp_all add: node_ok_def timeouts_ok_def offers_ok_def refs_ok_def)

text \<open>Code that holds references runs in a node where they are to offers that exist, under their ids.\<close>

definition node_at :: "(nat \<times> int) set \<Rightarrow> node \<Rightarrow> bool" where
  "node_at R s \<longleftrightarrow> node_ok s \<and> (\<forall>(r, i) \<in> R. r < next_offer s \<and> o_id (offer_objs s r) = i)"

lemma node_at_empty [simp]: "node_at {} = node_ok"
  by (rule ext) (simp add: node_at_def)

lemma node_at_insert:
  "node_at (insert (r, i) R) s \<longleftrightarrow> node_at R s \<and> r < next_offer s \<and> o_id (offer_objs s r) = i"
  by (auto simp: node_at_def)

lemma node_at_ok: "node_at R s \<Longrightarrow> node_ok s"
  by (simp add: node_at_def)

lemma node_at_fields [simp]:
  "node_at R (s\<lparr>dispatched := d\<rparr>) = node_at R s" "node_at R (s\<lparr>book := b\<rparr>) = node_at R s"
  "node_at R (s\<lparr>channels := c\<rparr>) = node_at R s"
  by (simp_all add: node_at_def)

lemma offers_ok_upd:
  assumes ok: "offers_ok s" and ids: "\<And>w. o_id (f w) = o_id w"
    and st: "f_state (offer_objs s r) \<notin> {Open, Pending} \<longrightarrow> f_state (f (offer_objs s r)) \<notin> {Open, Pending}"
    and status: "f_status (offer_objs s r) = status_of (f_state (offer_objs s r)) \<longrightarrow>
         f_status (f (offer_objs s r)) = status_of (f_state (f (offer_objs s r)))"
  shows "offers_ok (upd_offer r f s)"
proof -
  have "o_id (offer_objs (upd_offer r f s) x) = o_id (offer_objs s x)" for x
    using ids by (simp add: upd_offer_def)
  moreover have "f_state (offer_objs (upd_offer r f s) x) \<notin> {Open, Pending} \<and>
      f_status (offer_objs (upd_offer r f s) x) = status_of (f_state (offer_objs (upd_offer r f s) x))"
    if "x < next_offer s" for x
    using that ok st status by (cases "x = r") (simp_all add: upd_offer_def offers_ok_def)
  ultimately show ?thesis
    using ok by (simp add: offers_ok_def refs_ok_def) (simp add: upd_offer_def)
qed

lemma node_at_upd:
  assumes "node_at R s" and "\<And>w. o_id (f w) = o_id w"
    and "f_state (offer_objs s r) \<notin> {Open, Pending} \<longrightarrow> f_state (f (offer_objs s r)) \<notin> {Open, Pending}"
    and "f_status (offer_objs s r) = status_of (f_state (offer_objs s r)) \<longrightarrow>
         f_status (f (offer_objs s r)) = status_of (f_state (f (offer_objs s r)))"
  shows "node_at R (upd_offer r f s)"
proof -
  have "o_id (offer_objs (upd_offer r f s) q) = o_id (offer_objs s q)" for q
    using assms(2) by (simp add: upd_offer_def)
  then show ?thesis
    using assms offers_ok_upd [of s f r] timeouts_ok_cong [of "upd_offer r f s" s]
    by (simp add: node_at_def node_ok_def) (simp add: upd_offer_def)
qed

section \<open>The operations\<close>

lemma preserves_dispatch [preserves_intros]: "preserves (node_at R) (dispatch_events evs)"
  unfolding dispatch_events_def by (rule preserves_modify) simp

lemma preserves_on_enter [preserves_intros]: "preserves (node_at R) (on_enter args r st)"
  by (cases st)
     (auto simp: on_enter_def on_enter_unproved_def on_enter_published_def on_enter_cancellation_def
        initiate_refund_def set_proof_def split: option.split
        intro!: preserves_intros preserves_modify node_at_upd)

lemma preserves_fire [preserves_intros]: "preserves (node_at R) (fire_offer t args r)"
proof (rule preservesI)
  fix s assume ok: "node_at R s"
  show "node_at R (snd (fire_offer t args r s))"
  proof (cases "offer_dest t (f_state (offer_objs s r))")
    case None
    then show ?thesis using ok by (simp add: fire_offer_eq)
  next
    case (Some d)
    then have d: "d \<notin> {Open, Pending}" by (cases t) (auto simp: offer_dest_def split: if_splits)
    obtain x u where u: "on_enter args r d
        (upd_offer r (\<lambda>w. w\<lparr>f_state := d, f_status := status_of d\<rparr>) s) = (x, u)" by fastforce
    have "node_at R (upd_offer r (\<lambda>w. w\<lparr>f_state := d, f_status := status_of d\<rparr>) s)"
      using ok d by (intro node_at_upd) simp_all
    then have "node_at R u" by (rule preservesD [OF preserves_on_enter _ u])
    then show ?thesis using Some u by (simp add: fire_offer_eq split: sum.split)
  qed
qed

subsection \<open>Timeouts\<close>

lemma timeouts_ok_clean:
  assumes "timeouts_ok s"
  shows "timeouts_ok (snd (clean_up_timeout i s))"
proof (cases "dict_get i (timeout_greenlets s)")
  case None
  then show ?thesis using assms by (simp add: clean_up_timeout_def modify_def)
next
  case (Some g)
  have g: "g_offer_id (greenlets s g) = i" using Some assms by (simp add: timeouts_ok_def)
  have result: "snd (clean_up_timeout i s) =
      (kill_greenlet g s)\<lparr>timeout_greenlets := dict_del i (timeout_greenlets s)\<rparr>"
    using Some by (simp add: clean_up_timeout_def modify_def)
  have wf: "dict_wf (timeout_greenlets s)"
    and reg: "\<And>j h. dict_get j (timeout_greenlets s) = Some h \<Longrightarrow>
        h < next_greenlet s \<and> g_offer_id (greenlets s h) = j"
    and live: "\<And>h. h < next_greenlet s \<Longrightarrow> \<not> g_dead (greenlets s h) \<Longrightarrow>
        dict_get (g_offer_id (greenlets s h)) (timeout_greenlets s) = Some h"
    using assms by (simp_all add: timeouts_ok_def)
  have other: "g_offer_id (greenlets s h) \<noteq> i"
    if "h < next_greenlet s" "\<not> g_dead (greenlets s h)" "h \<noteq> g" for h
    using live [OF that(1,2)] Some that(3) by auto
  have dead: "g_dead (greenlets (kill_greenlet g s) h) \<longleftrightarrow> h = g \<or> g_dead (greenlets s h)"
    and ids: "g_offer_id (greenlets (kill_greenlet g s) h) = g_offer_id (greenlets s h)" for h
    by (simp_all add: kill_greenlet_def)
  have next_same: "next_greenlet (kill_greenlet g s) = next_greenlet s" by (simp add: kill_greenlet_def)
  show ?thesis
    unfolding timeouts_ok_def result
    by (simp add: dead ids next_same wf reg live other)
qed

lemma clean_up_get [simp]:
  "dict_get j (timeout_greenlets (snd (clean_up_timeout i s))) =
     (if j = i then None else dict_get j (timeout_greenlets s))"
  by (simp add: clean_up_timeout_def modify_def kill_greenlet_def split: option.split)

lemma clean_up_result [simp]: "fst (clean_up_timeout i s) = Inr ()"
  by (simp add: clean_up_timeout_def modify_def)

lemma clean_up_seq: "seq (clean_up_timeout i) f s = f () (snd (clean_up_timeout i s))"
  by (simp add: clean_up_timeout_def modify_def seq_def)

lemma clean_up_offers [simp]:
  "offers_ok (snd (clean_up_timeout i s)) = offers_ok s"
  "next_offer (snd (clean_up_timeout i s)) = next_offer s"
  "offer_objs (snd (clean_up_timeout i s)) = offer_objs s"
  by (simp_all add: clean_up_timeout_def modify_def kill_greenlet_def offers_ok_def refs_ok_def
      split: option.split)

lemma preserves_clean_up [preserves_intros]: "preserves (node_at R) (clean_up_timeout i)"
  by (rule preservesI) (simp add: node_at_def node_ok_def timeouts_ok_clean)
lemma future_timeout_effect:
  "future_timeout now i timeout threshold s = (Inr g, t) \<Longrightarrow>
     g = next_greenlet s \<and> (\<exists>lifetime. t = s\<lparr>greenlets := (greenlets s)(g :=
         \<lparr>g_offer_id = i, g_timeout = timeout, g_lifetime = lifetime, g_dead = False\<rparr>),
       next_greenlet := g + 1\<rparr>)"
  "future_timeout now i timeout threshold s = (Inl e, t) \<Longrightarrow> t = s"
  by (auto simp: future_timeout_def prog_simps split: sum.splits)

lemma timeouts_ok_register:
  assumes ok: "timeouts_ok s" and free: "dict_get i (timeout_greenlets s) = None"
  shows "timeouts_ok (s\<lparr>greenlets := (greenlets s)(next_greenlet s :=
      \<lparr>g_offer_id = i, g_timeout = timeout, g_lifetime = lifetime, g_dead = False\<rparr>),
    next_greenlet := next_greenlet s + 1,
    timeout_greenlets := dict_set i (next_greenlet s) (timeout_greenlets s)\<rparr>)" (is "timeouts_ok ?t")
proof -
  let ?n = "next_greenlet s"
  have wf: "dict_wf (timeout_greenlets ?t)" using ok by (simp add: timeouts_ok_def)
  have old: "greenlets ?t h = greenlets s h" if "h < ?n" for h using that by simp
  have new: "greenlets ?t ?n =
      \<lparr>g_offer_id = i, g_timeout = timeout, g_lifetime = lifetime, g_dead = False\<rparr>" by simp
  have reg: "h < next_greenlet ?t \<and> g_offer_id (greenlets ?t h) = j"
    if j: "dict_get j (timeout_greenlets ?t) = Some h" for j h
  proof (cases "j = i")
    case True
    then show ?thesis using j new by simp
  next
    case False
    then have "dict_get j (timeout_greenlets s) = Some h" using j by simp
    then have "h < ?n \<and> g_offer_id (greenlets s h) = j" using ok by (simp add: timeouts_ok_def)
    then show ?thesis using old by simp
  qed
  have live: "dict_get (g_offer_id (greenlets ?t h)) (timeout_greenlets ?t) = Some h"
    if h: "h < next_greenlet ?t" "\<not> g_dead (greenlets ?t h)" for h
  proof (cases "h = ?n")
    case True
    then show ?thesis using new by simp
  next
    case False
    then have "h < ?n" using h by simp
    moreover from this have "dict_get (g_offer_id (greenlets s h)) (timeout_greenlets s) = Some h"
      using ok h(2) old by (simp add: timeouts_ok_def)
    ultimately show ?thesis using old free by auto
  qed
  show ?thesis unfolding timeouts_ok_def using wf reg live by blast
qed

text \<open>A new timeout: the state, whether the registered one was alive, finished or absent.\<close>

lemma create_new_timeout_cases:
  assumes "create_new_timeout now i timeout threshold s = (r, t)"
  obtains (dead) "has_greenlet i s" "\<not> is_still_alive i s" "r = Inl AlreadyTimedOutException" "t = s"
  | (overflow) e where "\<not> (has_greenlet i s \<and> \<not> is_still_alive i s)" "r = Inl e"
      "t = snd (clean_up_timeout i s)"
  | (spawned) lifetime where "\<not> (has_greenlet i s \<and> \<not> is_still_alive i s)" "r = Inr True"
      "t = (snd (clean_up_timeout i s))\<lparr>greenlets := (greenlets (snd (clean_up_timeout i s)))(next_greenlet s :=
         \<lparr>g_offer_id = i, g_timeout = timeout, g_lifetime = lifetime, g_dead = False\<rparr>),
       next_greenlet := next_greenlet s + 1,
       timeout_greenlets := dict_set i (next_greenlet s) (timeout_greenlets (snd (clean_up_timeout i s)))\<rparr>"
proof (cases "has_greenlet i s \<and> \<not> is_still_alive i s")
  case True
  then have "(r, t) = (Inl AlreadyTimedOutException, s)"
    using assms by (simp add: create_new_timeout_def prog_simps)
  then show ?thesis using dead True by blast
next
  case False
  let ?u = "snd (clean_up_timeout i s)"
  have run: "(r, t) = seq (future_timeout now i timeout threshold) (\<lambda>g.
      seq (modify (\<lambda>s. s\<lparr>timeout_greenlets := dict_set i g (timeout_greenlets s)\<rparr>)) (\<lambda>_.
      return True)) ?u"
    using assms False by (simp add: create_new_timeout_def seq_Inr [OF get_state_apply] clean_up_seq)
  have n: "next_greenlet ?u = next_greenlet s"
    by (simp add: clean_up_timeout_def modify_def kill_greenlet_def split: option.split)
  obtain x v where x: "future_timeout now i timeout threshold ?u = (x, v)" by fastforce
  show ?thesis
  proof (cases x)
    case (Inl e)
    then have "(r, t) = (Inl e, ?u)"
      using run x future_timeout_effect(2) [of now i timeout threshold ?u e v] by (simp add: seq_Inl)
    then show ?thesis using overflow False by blast
  next
    case (Inr g)
    then obtain lifetime where "g = next_greenlet s" "v = ?u\<lparr>greenlets := (greenlets ?u)(g :=
         \<lparr>g_offer_id = i, g_timeout = timeout, g_lifetime = lifetime, g_dead = False\<rparr>),
       next_greenlet := g + 1\<rparr>"
      using future_timeout_effect(1) [of now i timeout threshold ?u g v] x n by auto
    then have "(r, t) = (Inr True, ?u\<lparr>greenlets := (greenlets ?u)(next_greenlet s :=
         \<lparr>g_offer_id = i, g_timeout = timeout, g_lifetime = lifetime, g_dead = False\<rparr>),
       next_greenlet := next_greenlet s + 1,
       timeout_greenlets := dict_set i (next_greenlet s) (timeout_greenlets ?u)\<rparr>)"
      using run x Inr n by (simp add: prog_simps)
    then show ?thesis using spawned False by blast
  qed
qed

lemma preserves_new_timeout [preserves_intros]:
  "preserves (node_at R) (create_new_timeout now i timeout threshold)"
proof (rule preservesI)
  fix s assume ok: "node_at R s"
  then have t: "timeouts_ok (snd (clean_up_timeout i s))" and o: "offers_ok (snd (clean_up_timeout i s))"
    by (simp_all add: node_at_def node_ok_def timeouts_ok_clean)
  have n: "next_greenlet (snd (clean_up_timeout i s)) = next_greenlet s"
    by (simp add: clean_up_timeout_def modify_def kill_greenlet_def split: option.split)
  obtain r u where u: "create_new_timeout now i timeout threshold s = (r, u)" by fastforce
  from u show "node_at R (snd (create_new_timeout now i timeout threshold s))"
  proof (cases rule: create_new_timeout_cases)
    case dead
    then show ?thesis using ok u by simp
  next
    case (overflow e)
    then show ?thesis using ok u t o by (simp add: node_at_def node_ok_def)
  next
    case (spawned lifetime)
    have "timeouts_ok u"
      using timeouts_ok_register [OF t, of i timeout lifetime] unfolding n spawned(3) by simp
    moreover have "offers_ok u" "next_offer u = next_offer s" "offer_objs u = offer_objs s"
      using o unfolding spawned(3) by (simp_all add: offers_ok_def refs_ok_def)
    ultimately show ?thesis using ok u by (simp add: node_at_def node_ok_def)
  qed
qed

subsection \<open>Offers, orders and matches\<close>

lemma node_at_new_offer:
  assumes "node_at R s"
  shows "\<exists>r. fst (new_offer b role s) = Inr r \<and> node_at (insert (r, o_id b) R) (snd (new_offer b role s))"
proof -
  let ?t = "snd (new_offer b role s)"
  have same: "offer_objs ?t r = offer_objs s r" if "r < next_offer s" for r
    using that by (simp add: new_offer_def)
  have fields: "next_offer ?t = next_offer s + 1" "manager_offers ?t = manager_offers s"
      "orders ?t = orders s" "matches ?t = matches s"
    by (simp_all add: new_offer_def)
  have fresh: "f_state (offer_objs ?t (next_offer s)) = Created"
      "f_status (offer_objs ?t (next_offer s)) = Open"
    by (simp_all add: new_offer_def)
  have refs: "refs_ok ?t d" if "refs_ok s d" for d
    using that by (fastforce simp: refs_ok_def fields same)
  have "offers_ok s" using assms by (simp add: node_at_def node_ok_def)
  then have "offers_ok ?t"
    using refs unfolding offers_ok_def fields
    by (auto simp: less_Suc_eq same fresh fields intro: less_SucI)
  moreover have "timeouts_ok ?t"
    using assms by (simp add: node_at_def node_ok_def timeouts_ok_def new_offer_def)
  ultimately show ?thesis
    using assms same by (auto simp: node_at_def node_ok_def fields less_Suc_eq) (auto simp: new_offer_def)
qed

lemma node_at_created: "node_at R s \<Longrightarrow> new_offer b role s = (Inr r, t) \<Longrightarrow> node_at (insert (r, o_id b) R) t"
  using node_at_new_offer [of R s b role] by auto

lemma refs_ok_set:
  "refs_ok s d \<Longrightarrow> r < next_offer s \<Longrightarrow> refs_ok s (dict_set (o_id (offer_objs s r)) r d)"
  by (simp add: refs_ok_def)

lemma preserves_manager_add [preserves_intros]:
  assumes "(r, i) \<in> R" shows "preserves (node_at R) (manager_add_offer r)"
  unfolding manager_add_offer_def
proof (rule preserves_modify)
  fix s assume s: "node_at R s"
  let ?t = "s\<lparr>manager_offers := dict_set (o_id (offer_objs s r)) r (manager_offers s)\<rparr>"
  have "refs_ok s (manager_offers ?t)"
    using s assms refs_ok_set by (auto simp: node_at_def node_ok_def offers_ok_def)
  moreover have "refs_ok ?t = refs_ok s" by (rule ext) (simp add: refs_ok_def)
  ultimately show "node_at R ?t"
    using s by (simp add: node_at_def node_ok_def offers_ok_def timeouts_ok_def)
qed

lemma preserves_put_match [preserves_intros]:
  "(\<And>r. mt_offer m = Some r \<Longrightarrow> (r, i) \<in> R) \<Longrightarrow> preserves (node_at R) (put_match i m)"
  unfolding put_match_def
  by (rule preserves_modify) (auto simp: node_at_def node_ok_def offers_ok_def timeouts_ok_def refs_ok_def)

lemma node_at_orders:
  assumes s: "node_at R s" and od: "lo_id od = i" "refs_ok s (lo_offers od)"
  shows "node_at R (s\<lparr>orders := dict_set i od (orders s)\<rparr>)" (is "node_at R ?t")
proof -
  have "refs_ok ?t = refs_ok s" by (rule ext) (simp add: refs_ok_def)
  then have "offers_ok ?t"
    using s od by (simp add: node_at_def node_ok_def offers_ok_def)
  then show ?thesis using s by (simp add: node_at_def node_ok_def timeouts_ok_def)
qed

lemma preserves_order_add [preserves_intros]:
  assumes "(r, j) \<in> R" shows "preserves (node_at R) (order_add_offer i r)"
  unfolding order_add_offer_def
proof (intro preserves_seq preserves_modify preserves_fire preserves_return)
  fix s assume s: "node_at R s"
  show "node_at R (upd_order i (\<lambda>od. od\<lparr>lo_offers := dict_set (o_id (offer_objs s r)) r (lo_offers od)\<rparr>) s)"
  proof (cases "dict_get i (orders s)")
    case None
    then show ?thesis using s by (simp add: upd_order_def)
  next
    case (Some od)
    then have "lo_id od = i" "refs_ok s (lo_offers od)"
      using s by (simp_all add: node_at_def node_ok_def offers_ok_def)
    moreover have "r < next_offer s" using s assms by (auto simp: node_at_def)
    ultimately have "node_at R (s\<lparr>orders := dict_set i
        (od\<lparr>lo_offers := dict_set (o_id (offer_objs s r)) r (lo_offers od)\<rparr>) (orders s)\<rparr>)"
      using s refs_ok_set [of s "lo_offers od" r] by (intro node_at_orders) simp_all
    then show ?thesis using Some by (simp add: upd_order_def)
  qed
qed

text \<open>The invariant keeps the contract of the node's code, and so all its handlers keep it.\<close>

lemma node_at_of_order:
  "node_at R s \<Longrightarrow> lo_offers od = [] \<Longrightarrow> node_at R (s\<lparr>orders := dict_set (lo_id od) od (orders s)\<rparr>)"
  by (rule node_at_orders) (simp_all add: refs_ok_def)

lemma get_offer_ref: "node_at R s \<Longrightarrow> get_offer i s = Some r \<Longrightarrow> node_at (insert (r, i) R) s"
  by (auto simp: node_at_def node_ok_def offers_ok_def refs_ok_def get_offer_def split: if_splits)

lemma node_at_fired: "node_at R s \<Longrightarrow> node_at R (kill_greenlet g s)"
  by (auto simp: node_at_def node_ok_def timeouts_ok_def offers_ok_def refs_ok_def kill_greenlet_def)

interpretation node_kept: node_code UNIV Pair node_at
proof unfold_locales
  show "node_at R s" if "node_at (insert x R) s" for x R s
    using that by (cases x) (simp add: node_at_insert)
  show "(r, o_id (offer_objs s r)) \<in> R" if "node_at R s" "(r, i) \<in> R" for R s r i
    using that by (auto simp: node_at_def)
  show "preserves (node_at R) (book_drop i)" for R i
    by (rule preserves_book_remove) simp
qed (simp_all add: get_offer_ref node_at_of_order node_at_created preserves_dispatch preserves_fire
    preserves_clean_up preserves_new_timeout preserves_manager_add preserves_put_match
    preserves_order_add node_at_fired)

section \<open>The node as a system of steps\<close>

definition start_node :: "node" where
  "start_node =
     \<lparr>offer_objs = (\<lambda>_. \<lparr>o_id = 0, o_type = BUY, o_base = 0, o_quote = 0, o_timeout = 0,
        f_role = MAKER, f_proof = None, f_state = Created, f_status = Open\<rparr>),
      next_offer = 0, manager_offers = [], orders = [], matches = [],
      greenlets = (\<lambda>_. \<lparr>g_offer_id = 0, g_timeout = 0, g_lifetime = 0, g_dead = True\<rparr>),
      next_greenlet = 0, timeout_greenlets = [], book = empty_book,
      channels = [], dispatched = []\<rparr>"

lemma node_ok_start: "node_ok start_node"
  by (simp add: node_ok_def timeouts_ok_def offers_ok_def refs_ok_def start_node_def)

interpretation node_system: step_system start_node node_step node_ok
proof unfold_locales
  show "node_ok start_node" by (rule node_ok_start)
  show "node_ok t" if "node_step s t" "node_ok s" for s t
    using node_kept.keeps_step [OF UNIV_I that(1), of "{}"] that(2) by simp
qed

end
