(* ===== verification/Offer_History.thy ===== *)
theory Offer_History
  imports Node_Invariant
begin

text \<open>
  What happens to one offer in a run of a node: its states follow the edges of the offer machine,
  and once it is completed or canceled nothing of it changes any more. Both are consequences of
  the contract of the node's code.
\<close>

section \<open>Paths through the machine\<close>

inductive offer_path :: "offer_state \<Rightarrow> offer_state \<Rightarrow> bool" where
  path_here: "offer_path st st"
| path_step: "offer_path st u \<Longrightarrow> offer_dest t u = Some v \<Longrightarrow> offer_path st v"

fun stage :: "offer_state \<Rightarrow> nat" where
  "stage Open = 0"
| "stage Created = 0"
| "stage Unproved = 1"
| "stage Proved = 2"
| "stage Published = 3"
| "stage Cancellation_requested = 4"
| "stage Pending = 4"
| "stage Exchanging = 4"
| "stage Wait_for_refund = 5"
| "stage Completed = 6"
| "stage Canceled = 6"

lemma offer_dest_climbs: "offer_dest t st = Some d \<Longrightarrow> d = st \<or> stage st < stage d"
  by (cases t; cases st) (auto simp: offer_dest_def)

lemma offer_path_climbs: "offer_path st u \<Longrightarrow> st = u \<or> stage st < stage u"
  by (induction rule: offer_path.induct) (auto dest: offer_dest_climbs)

definition offer_final :: "offer_state \<Rightarrow> bool" where
  "offer_final st \<longleftrightarrow> st = Completed \<or> st = Canceled"

lemma offer_final_stuck: "offer_final st \<Longrightarrow> offer_dest t st = None"
  by (cases t) (auto simp: offer_final_def offer_dest_def)

section \<open>One offer in the code of the node\<close>

text \<open>
  A property of one offer that its creation and the triggers of other offers cannot touch: it is
  kept by the code of the node as soon as the triggers of this offer keep it.
\<close>

locale offer_law =
  fixes r0 :: nat and law :: "offer_obj \<Rightarrow> bool"
  assumes law_move: "law w \<Longrightarrow> offer_dest t (f_state w) = Some d \<Longrightarrow>
      law (w\<lparr>f_state := d, f_status := status_of d\<rparr>)"
    and law_proof: "law w \<Longrightarrow> f_state w = Proved \<Longrightarrow> law (w\<lparr>f_proof := Some p\<rparr>)"
begin

definition holds :: "nat set \<Rightarrow> node \<Rightarrow> bool" where
  "holds R s \<longleftrightarrow> r0 < next_offer s \<and> law (offer_objs s r0)"

lemma holds_fields [simp]:
  "holds R (s\<lparr>dispatched := d\<rparr>) = holds R s" "holds R (s\<lparr>book := b\<rparr>) = holds R s"
  "holds R (s\<lparr>channels := c\<rparr>) = holds R s" "holds R (s\<lparr>orders := os\<rparr>) = holds R s"
  "holds R (s\<lparr>manager_offers := m\<rparr>) = holds R s" "holds R (s\<lparr>matches := ms\<rparr>) = holds R s"
  "holds R (s\<lparr>timeout_greenlets := tg\<rparr>) = holds R s" "holds R (s\<lparr>greenlets := gs\<rparr>) = holds R s"
  "holds R (s\<lparr>next_greenlet := n\<rparr>) = holds R s"
  by (simp_all add: holds_def)

lemma holds_dispatch: "preserves (holds R) (dispatch_events evs)"
  unfolding dispatch_events_def by (rule preserves_modify) simp

lemma holds_upd:
  "holds R s \<Longrightarrow> (r = r0 \<Longrightarrow> law (f (offer_objs s r0))) \<Longrightarrow> holds R (upd_offer r f s)"
  by (auto simp: holds_def upd_offer_def)

lemma holds_set_proof:
  assumes "holds R s" and "f_state (offer_objs s r) = Proved"
  shows "holds R (snd (set_proof args r s))"
proof (cases "a_proof args")
  case None
  then show ?thesis using assms(1) by (simp add: set_proof_def return_def)
next
  case (Some p)
  have "holds R (upd_offer r (\<lambda>w. w\<lparr>f_proof := Some p\<rparr>) s)"
    using assms law_proof by (intro holds_upd) (auto simp: holds_def)
  then show ?thesis using Some by (simp add: set_proof_def modify_def)
qed

lemma holds_on_enter:
  assumes "holds R s" and "f_state (offer_objs s r) = d"
  shows "holds R (snd (on_enter args r d s))"
  using assms holds_dispatch holds_set_proof [of R s r args]
  by (cases d)
     (auto simp: on_enter_def on_enter_unproved_def on_enter_published_def on_enter_cancellation_def
        initiate_refund_def preserves_def return_def throw_def split: option.split)

lemma holds_fire: "preserves (holds R) (fire_offer t args r)"
proof (rule preservesI)
  fix s assume ok: "holds R s"
  show "holds R (snd (fire_offer t args r s))"
  proof (cases "offer_dest t (f_state (offer_objs s r))")
    case None
    then show ?thesis using ok by (simp add: fire_offer_eq)
  next
    case (Some d)
    let ?s = "upd_offer r (\<lambda>w. w\<lparr>f_state := d, f_status := status_of d\<rparr>) s"
    obtain x u where u: "on_enter args r d ?s = (x, u)" by fastforce
    have "holds R ?s" using ok Some law_move by (intro holds_upd) (auto simp: holds_def)
    then have "holds R u" using holds_on_enter [of R ?s r d args] u by (simp add: upd_offer_def)
    then show ?thesis using Some u by (simp add: fire_offer_eq split: sum.split)
  qed
qed

lemma holds_clean_up: "preserves (holds R) (clean_up_timeout i)"
  unfolding clean_up_timeout_def
  by (rule preserves_modify) (simp add: kill_greenlet_def split: option.split)

lemma holds_new_timeout: "preserves (holds R) (create_new_timeout now i timeout threshold)"
proof (rule preservesI)
  fix s assume s: "holds R s"
  then have c: "holds R (snd (clean_up_timeout i s))" using holds_clean_up by (simp add: preserves_def)
  obtain r t where t: "create_new_timeout now i timeout threshold s = (r, t)" by fastforce
  then show "holds R (snd (create_new_timeout now i timeout threshold s))"
    by (cases rule: create_new_timeout_cases) (use s c t in simp_all)
qed

lemma holds_order_add: "preserves (holds R) (order_add_offer i r)"
  unfolding order_add_offer_def
  by (intro preserves_seq preserves_modify holds_fire preserves_return)
    (simp add: upd_order_def split: option.split)

end

sublocale offer_law \<subseteq> kept: node_code UNIV "\<lambda>r _. r" holds
proof unfold_locales
  show "holds R (kill_greenlet g s)" if "holds R s" for R s g
    using that by (simp add: kill_greenlet_def)
  show "holds (insert r R) t" if "holds R s" "new_offer bo role s = (Inr r, t)" for R s bo role r t
    using that by (auto simp: holds_def new_offer_def)
  show "preserves (holds R) (book_drop i)" for R i
    by (rule preserves_book_remove) (simp add: holds_def)
qed (auto simp: holds_def manager_add_offer_def put_match_def
    intro: holds_dispatch holds_fire holds_clean_up holds_new_timeout holds_order_add
      preserves_modify)

interpretation offer_states: offer_law r "\<lambda>w. offer_path st (f_state w)" for r st
  by unfold_locales (auto intro: path_step)

interpretation offer_frozen: offer_law r "\<lambda>w. offer_final (f_state v) \<and> w = v" for r v
  by unfold_locales (auto simp: offer_final_stuck, auto simp: offer_final_def)

section \<open>A node with one offer\<close>

definition demo_offer :: "offer_state \<Rightarrow> offer_obj" where
  "demo_offer st = \<lparr>o_id = 5, o_type = BUY, o_base = 10, o_quote = 20, o_timeout = 0,
     f_role = MAKER, f_proof = None, f_state = st, f_status = status_of st\<rparr>"

definition demo_node :: "offer_state \<Rightarrow> node" where
  "demo_node st = start_node\<lparr>offer_objs := (\<lambda>_. demo_offer st), next_offer := 1,
     manager_offers := [(5, 0)]\<rparr>"

lemma demo_node_fields [simp]:
  "offer_objs (demo_node st) r = demo_offer st" "next_offer (demo_node st) = 1"
  "f_state (demo_offer st) = st" "o_id (demo_offer st) = 5" "matches (demo_node st) = []"
  "get_offer 5 (demo_node st) = Some 0" "get_offer i (demo_node st) = (if i = 5 then Some 0 else None)"
  by (simp_all add: demo_node_def demo_offer_def start_node_def get_offer_def dict_mem_def dict_get_def)

definition demo_canceled :: node where
  "demo_canceled = upd_offer 0 (\<lambda>w. w\<lparr>f_state := Canceled, f_status := Canceled\<rparr>) (demo_node Unproved)"

lemma demo_cancel_step: "node_step (demo_node Unproved) demo_canceled"
proof -
  have "handle_state_change 0 0 0 (CancellationProofStateChange (CancellationProof 5 None None))
      (demo_node Unproved) = (Inr (), demo_canceled)"
    by (simp add: handle_state_change_def handle_offer_state_change_def handle_cancellation_proof_def
        seq_def get_state_def fire_offer_eq offer_dest_def on_enter_def return_def demo_canceled_def)
  then show ?thesis using ns_handle [of "demo_node Unproved" 0 0 0] by (metis snd_conv)
qed

lemma demo_cancel_run: "reachable_from node_step (demo_node Unproved) demo_canceled"
  using demo_cancel_step by (blast intro: reachable_from.intros)

lemma demo_final_run: "reachable_from node_step demo_canceled demo_canceled"
  by (rule reach_start)

section \<open>Properties\<close>

text \<open>C10: in every run of a node the states of an offer follow the edges of the offer machine,
  whatever state changes arrive in whatever order and whichever handlers raise.\<close>

theorem offer_follows_machine:
  assumes "reachable_from node_step s t" and "r < next_offer s"
  shows "offer_path (f_state (offer_objs s r)) (f_state (offer_objs t r))"
proof -
  have "offer_states.holds r (f_state (offer_objs s r)) {} s"
    using assms(2) by (simp add: offer_states.holds_def path_here)
  then show ?thesis
    using offer_states.kept.keeps_run [OF UNIV_I assms(1)] by (simp add: offer_states.holds_def)
qed

text \<open>C11: a completed or canceled offer is final: no run of the node changes anything of it.\<close>

theorem offer_final_forever:
  assumes "reachable_from node_step s t" and "r < next_offer s"
    and "f_state (offer_objs s r) \<in> {Completed, Canceled}"
  shows "offer_objs t r = offer_objs s r"
proof -
  have "offer_frozen.holds r (offer_objs s r) {} s"
    using assms(2,3) unfolding offer_frozen.holds_def by (simp add: offer_final_def)
  then show ?thesis
    using offer_frozen.kept.keeps_run [OF UNIV_I assms(1)] unfolding offer_frozen.holds_def by blast
qed

interpretation offer_climb: ranked_system
  "\<lambda>s. r < next_offer s" node_step "\<lambda>s. f_state (offer_objs s r)" stage for r
proof
  fix s t assume r: "r < next_offer s" and step: "node_step s t"
  then have run: "reachable_from node_step s t" by (blast intro: reachable_from.intros)
  have "offer_states.holds r (f_state (offer_objs s r)) {} s"
    using r by (simp add: offer_states.holds_def path_here)
  then have "offer_states.holds r (f_state (offer_objs s r)) {} t"
    by (rule offer_states.kept.keeps_run [OF UNIV_I run])
  then show "r < next_offer t" "f_state (offer_objs s r) = f_state (offer_objs t r) \<or>
      stage (f_state (offer_objs s r)) < stage (f_state (offer_objs t r))"
    by (auto simp: offer_states.holds_def dest: offer_path_climbs)
qed

lemma stage_le: "stage st \<le> 6"
  by (cases st) simp_all

text \<open>C12: an offer comes to rest: however many state changes a node handles, in whatever order and
  with whatever content, the state of an offer changes at most six times.\<close>

theorem offer_changes_bounded:
  assumes "successively node_step (s # ss)" and "r < next_offer s"
  shows "changes (map (\<lambda>u. f_state (offer_objs u r)) (s # ss)) \<le> 6"
proof -
  have "changes (map (\<lambda>u. f_state (offer_objs u r)) (s # ss)) \<le>
      stage (f_state (offer_objs (last (s # ss)) r))"
    using offer_climb.changes_climb [OF assms] by linarith
  then show ?thesis using stage_le order.trans by blast
qed

theorem offer_changes_bounded_witness:
  "changes [f_state (offer_objs (demo_node Unproved) 0), f_state (offer_objs demo_canceled 0)] \<le> 6"
  using offer_changes_bounded [of "demo_node Unproved" "[demo_canceled]" 0] demo_cancel_step by simp

theorem offer_follows_machine_witness:
  "offer_path Unproved Canceled"
  using offer_follows_machine [OF demo_cancel_run, of 0]
  by (simp add: demo_canceled_def upd_offer_def)

theorem offer_final_forever_witness:
  "offer_objs (snd (handle_state_change 0 0 0 (OfferTimeoutStateChange 5 0) demo_canceled)) 0 =
     (demo_offer Unproved)\<lparr>f_state := Canceled, f_status := Canceled\<rparr>"
proof -
  have "reachable_from node_step demo_canceled
      (snd (handle_state_change 0 0 0 (OfferTimeoutStateChange 5 0) demo_canceled))"
    by (blast intro: reachable_from.intros ns_handle)
  then have "offer_objs (snd (handle_state_change 0 0 0 (OfferTimeoutStateChange 5 0) demo_canceled)) 0 =
      offer_objs demo_canceled 0"
    by (rule offer_final_forever) (simp_all add: demo_canceled_def upd_offer_def)
  then show ?thesis by (simp add: demo_canceled_def upd_offer_def)
qed

text \<open>
  At most one timeout of an offer is ever alive.
\<close>

definition live_timeouts :: "int \<Rightarrow> node \<Rightarrow> nat list" where
  "live_timeouts i s =
     filter (\<lambda>g. \<not> g_dead (greenlets s g) \<and> g_offer_id (greenlets s g) = i) [0..<next_greenlet s]"

lemma distinct_le_one:
  assumes "distinct xs" and "\<And>x. x \<in> set xs \<Longrightarrow> x = y"
  shows "length xs \<le> 1"
proof (cases xs)
  case (Cons x ys)
  then have "ys = []" using assms by (cases ys) auto
  then show ?thesis using Cons by simp
qed simp

text \<open>C13: in every reachable node each offer id has at most one timeout that has not fired, and an
  offer id without a registered timeout has none: no timeout is ever forgotten while it runs.\<close>

theorem one_live_timeout:
  assumes "reachable_from node_step start_node s"
  shows "length (live_timeouts i s) \<le> (if has_greenlet i s then 1 else 0)"
proof -
  have "timeouts_ok s" using node_system.inv_reachable [OF assms] by (simp add: node_ok_def)
  then have live: "Some g = dict_get i (timeout_greenlets s)"
    if "g < next_greenlet s" "\<not> g_dead (greenlets s g)" "g_offer_id (greenlets s g) = i" for g
    using that by (auto simp: timeouts_ok_def)
  show ?thesis
  proof (cases "dict_get i (timeout_greenlets s)")
    case None
    then have "\<not> (\<not> g_dead (greenlets s g) \<and> g_offer_id (greenlets s g) = i)"
      if "g \<in> set [0..<next_greenlet s]" for g using live [of g] that by auto
    then have "live_timeouts i s = []" unfolding live_timeouts_def filter_empty_conv by blast
    then show ?thesis by simp
  next
    case (Some h)
    then have "length (live_timeouts i s) \<le> 1"
      using live by (intro distinct_le_one [where y = h]) (auto simp: live_timeouts_def)
    then show ?thesis using Some by (simp add: has_greenlet_def dict_mem_def)
  qed
qed

theorem one_live_timeout_witness:
  "length (live_timeouts 7 (snd (handle_state_change 0 0 0
     (OfferPublishedStateChange (example_entry 7 2)) start_node))) \<le> 1"
proof -
  have "reachable_from node_step start_node (snd (handle_state_change 0 0 0
     (OfferPublishedStateChange (example_entry 7 2)) start_node))"
    by (blast intro: reachable_from.intros ns_handle)
  from one_live_timeout [OF this, of 7] show ?thesis by (auto split: if_splits)
qed

end
