(* ===== verification/Node_Properties.thy ===== *)
theory Node_Properties
  imports Offer_History
begin

text \<open>
  What the handlers of the node do, branch by branch, as properties of the program: the start of
  an exchange on both sides, the two payments that complete it, timeouts, and cancelling an order.
\<close>

section \<open>One trigger\<close>

lemma lift_res_Inr: "lift_res (Inr x) = return x"
  by (rule ext) (simp add: lift_res_def return_def)

definition enter_state :: "offer_state \<Rightarrow> nat \<Rightarrow> node \<Rightarrow> node" where
  "enter_state d r = upd_offer r (\<lambda>w. w\<lparr>f_state := d, f_status := status_of d\<rparr>)"

definition emit :: "node_event list \<Rightarrow> node \<Rightarrow> node" where
  "emit evs s = s\<lparr>dispatched := dispatched s @ evs\<rparr>"

lemma fire_refused: "offer_dest t (f_state (offer_objs s r)) = None \<Longrightarrow>
    fire_offer t args r s = (Inl MachineError, s)"
  by (simp add: fire_offer_eq)

lemma fire_found_match: "f_state (offer_objs s r) \<in> {Proved, Published} \<Longrightarrow>
    fire_offer T_found_match args r s = (Inr True, enter_state Exchanging r s)"
  by (simp add: fire_offer_eq offer_dest_def on_enter_def enter_state_def return_def)

lemma fire_proof: "f_state (offer_objs s r) = Unproved \<Longrightarrow>
    fire_offer T_receive_commitment_proof \<lparr>a_proof = Some p, a_raiden_event = e\<rparr> r s =
      (Inr True, upd_offer r (\<lambda>w. w\<lparr>f_proof := Some p\<rparr>) (enter_state Proved r s))"
  by (simp add: fire_offer_eq offer_dest_def on_enter_def set_proof_def enter_state_def modify_def)

lemma fire_timeout: "status_of (f_state (offer_objs s r)) = Open \<Longrightarrow>
    fire_offer T_timeout args r s =
      (Inr True, emit [CancellationRequestEvent r] (enter_state Cancellation_requested r s))"
  by (simp add: fire_offer_eq offer_dest_def on_enter_def on_enter_cancellation_def
      dispatch_events_def modify_def enter_state_def emit_def)

lemma fire_inbound:
  "f_state (offer_objs s r) = Exchanging \<Longrightarrow>
    fire_offer T_received_inbound \<lparr>a_proof = p, a_raiden_event = Some e\<rparr> r s =
      (Inr True, emit [ReceivedInboundEvent r e] (enter_state Wait_for_refund r s))"
  "f_state (offer_objs s r) = Wait_for_refund \<Longrightarrow>
    fire_offer T_received_inbound args r s = (Inr True, enter_state Completed r s)"
  by (simp_all add: fire_offer_eq offer_dest_def on_enter_def initiate_refund_def return_def
      dispatch_events_def modify_def enter_state_def emit_def)

lemma enter_state_fields [simp]:
  "f_state (offer_objs (enter_state d r s) q) = (if q = r then d else f_state (offer_objs s q))"
  "f_status (offer_objs (enter_state d r s) q) =
     (if q = r then status_of d else f_status (offer_objs s q))"
  "o_id (offer_objs (enter_state d r s) q) = o_id (offer_objs s q)"
  "matches (enter_state d r s) = matches s"
  "timeout_greenlets (enter_state d r s) = timeout_greenlets s"
  "dispatched (enter_state d r s) = dispatched s"
  by (simp_all add: enter_state_def upd_offer_def)

lemma emit_fields [simp]:
  "offer_objs (emit evs s) = offer_objs s" "matches (emit evs s) = matches s"
  "emit [] s = s" "emit es (emit evs s) = emit (evs @ es) s"
  by (simp_all add: emit_def)

text \<open>A match whose offer accepts it starts the exchange: the payment and the watch for the other.\<close>

lemma matched_eq:
  assumes "mt_offer m = Some r"
  shows "matched m s =
    (if f_state (offer_objs s r) \<in> {Proved, Published}
     then (Inr (), emit [SwapInitEvent m, ExpectInboundEvent (mt_target m) (o_id (offer_objs s r))]
             (enter_state Exchanging r s))
     else (Inl MachineError, s))"
proof (cases "f_state (offer_objs s r) \<in> {Proved, Published}")
  case True
  then show ?thesis
    using assms
    by (simp add: matched_def match_offer_def seq_Inr [OF fire_found_match] on_enter_exchanging_def
        the_offer_def seq_Inr [OF get_state_apply] dispatch_events_def modify_def emit_def)
next
  case False
  then show ?thesis
    using assms by (simp add: matched_def match_offer_def seq_Inl [OF fire_refused] offer_dest_def)
qed

lemma transfer_received_eq:
  assumes "\<And>m. dict_get (pay_identifier e) (matches s) = Some m \<Longrightarrow> \<exists>r. mt_offer m = Some r"
  shows "handle_transfer_received e s =
    (case dict_get (pay_identifier e) (matches s) of
       None \<Rightarrow> (Inl KeyError, s)
     | Some m \<Rightarrow> let r = the (mt_offer m) in
         (case f_state (offer_objs s r) of
            Exchanging \<Rightarrow> (Inr (), emit [ReceivedInboundEvent r e] (enter_state Wait_for_refund r s))
          | Wait_for_refund \<Rightarrow> clean_up_timeout (pay_identifier e) (enter_state Completed r s)
          | _ \<Rightarrow> (Inl MachineError, s)))"
proof (cases "dict_get (pay_identifier e) (matches s)")
  case None
  then show ?thesis
    by (simp add: handle_transfer_received_def dict_item_def prog_simps)
next
  case (Some m)
  then obtain r where r: "mt_offer m = Some r" using assms by blast
  have run: "handle_transfer_received e s =
      seq (fire_offer T_received_inbound \<lparr>a_proof = None, a_raiden_event = Some e\<rparr> r) (\<lambda>_.
      seq (the_offer r) (\<lambda>w.
      if f_state w = Completed then clean_up_timeout (pay_identifier e) else return ())) s"
    using Some r
    by (simp add: handle_transfer_received_def dict_item_def seq_Inr [OF get_state_apply]
        lift_res_Inr match_received_inbound_def match_offer_def seq_assoc)
  consider "f_state (offer_objs s r) = Exchanging" | "f_state (offer_objs s r) = Wait_for_refund"
    | "offer_dest T_received_inbound (f_state (offer_objs s r)) = None"
      "f_state (offer_objs s r) \<notin> {Exchanging, Wait_for_refund}"
    by (auto simp: offer_dest_def)
  then show ?thesis
    by cases
      (use Some r in \<open>simp_all add: run seq_Inr [OF fire_inbound(1)] seq_Inr [OF fire_inbound(2)]
         seq_Inl [OF fire_refused] the_offer_def seq_Inr [OF get_state_apply] return_def Let_def
         split: offer_state.split\<close>)
qed

section \<open>Properties of the exchange\<close>

text \<open>The call of a taker for a proved or published offer starts the exchange on the side of
  the maker: the offer is exchanging, the match is recorded, the payment to the taker is initiated
  and the one from the taker expected under the offer id; for an offer in any other state the
  handler raises MachineError, with the match already recorded.\<close>

theorem taker_call_outcome:
  assumes "get_offer i s = Some r"
  shows "handle_taker_call i who cp s =
    (let m = maker_match (Some r) who cp; t = s\<lparr>matches := dict_set i m (matches s)\<rparr> in
     if f_state (offer_objs s r) \<in> {Proved, Published}
     then (Inr (), emit [SwapInitEvent m, ExpectInboundEvent who (o_id (offer_objs s r))]
             (enter_state Exchanging r t))
     else (Inl MachineError, t))"
  using assms(1)
  by (simp add: handle_taker_call_def seq_Inr [OF get_state_apply] put_match_def
      seq_Inr [OF modify_apply] matched_eq [where r = r] maker_match_def Let_def)

text \<open>The commitment proof of an unproved offer is stored with it and the proven offer is sent:
  broadcast if the offer has no match, and then the offer is proved; if the node took it from
  somebody, to the maker, after the exchange has been started with the payment to the maker and
  the watch for the payment from the maker.\<close>

theorem commitment_proof_outcome:
  assumes "f_state (offer_objs s r) = Unproved" and "i = o_id (offer_objs s r)"
    and "dict_get i (matches s) = m" and "m = None \<or> (\<exists>mt. m = Some mt \<and> mt_offer mt = Some r)"
  shows "handle_commitment_proof (Some r) p s =
    (let t = upd_offer r (\<lambda>w. w\<lparr>f_proof := Some p\<rparr>) (enter_state Proved r s) in
     (Inr (), case m of
       None \<Rightarrow> emit [SendProvenOfferEvent r None] t
     | Some mt \<Rightarrow> emit [SwapInitEvent mt, ExpectInboundEvent (mt_target mt) i,
                     SendProvenOfferEvent r (Some (mt_target mt))] (enter_state Exchanging r t)))"
proof -
  define t where "t = upd_offer r (\<lambda>w. w\<lparr>f_proof := Some p\<rparr>) (enter_state Proved r s)"
  have t: "f_state (offer_objs t r) = Proved" "o_id (offer_objs t r) = i" "matches t = matches s"
    using assms(1,2) by (simp_all add: t_def enter_state_def upd_offer_def)
  have run: "handle_commitment_proof (Some r) p s =
      seq (case m of None \<Rightarrow> return () | Some mt \<Rightarrow> matched mt)
        (\<lambda>_. dispatch_events [SendProvenOfferEvent r (map_option mt_target m)]) t"
    using assms(1,3) t fire_proof [OF assms(1), of p None, folded t_def]
    by (simp add: handle_commitment_proof_def seq_Inr the_offer_def seq_Inr [OF get_state_apply])
  show ?thesis
  proof (cases m)
    case None
    then show ?thesis by (simp add: run dispatch_events_def modify_def emit_def flip: t_def)
  next
    case (Some mt)
    then have "mt_offer mt = Some r" using assms(4) by simp
    then show ?thesis
      using Some t by (simp add: run seq_def matched_eq dispatch_events_def modify_def emit_def
          flip: t_def)
  qed
qed

text \<open>The first payment for an exchanging offer asks the commitment service for the refund,
  the second one, which is the refund, completes the offer and removes its timeout; a payment for an
  offer in any other state raises MachineError, and one that no match knows KeyError.\<close>

theorem transfer_received_outcome:
  assumes "\<And>m. dict_get (pay_identifier e) (matches s) = Some m \<Longrightarrow> \<exists>r. mt_offer m = Some r"
  shows "handle_transfer_received e s =
    (case dict_get (pay_identifier e) (matches s) of
       None \<Rightarrow> (Inl KeyError, s)
     | Some m \<Rightarrow> let r = the (mt_offer m) in
         (case f_state (offer_objs s r) of
            Exchanging \<Rightarrow> (Inr (), emit [ReceivedInboundEvent r e] (enter_state Wait_for_refund r s))
          | Wait_for_refund \<Rightarrow> clean_up_timeout (pay_identifier e) (enter_state Completed r s)
          | _ \<Rightarrow> (Inl MachineError, s)))"
  using assms by (rule transfer_received_eq)

text \<open>A timeout of an offer of the node that is still open requests the cancellation of its
  commitment and removes the timeout; of one in another state it raises MachineError and leaves the
  node as it was; of an offer of somebody else it removes the offer from the book.\<close>

theorem offer_timeout_outcome:
  shows "handle_offer_timeout i s =
    (case get_offer i s of
       Some r \<Rightarrow>
         if status_of (f_state (offer_objs s r)) = Open
         then clean_up_timeout i (emit [CancellationRequestEvent r] (enter_state Cancellation_requested r s))
         else (Inl MachineError, s)
     | None \<Rightarrow>
         if book_contains i (book s)
         then seq (book_drop i) (\<lambda>_. clean_up_timeout i) s
         else clean_up_timeout i s)"
proof (cases "get_offer i s")
  case None
  then show ?thesis
    by (simp add: handle_offer_timeout_def seq_assoc seq_Inr [OF get_state_apply])
next
  case (Some r)
  show ?thesis
  proof (cases "status_of (f_state (offer_objs s r)) = Open")
    case True
    then show ?thesis
      using Some by (simp add: handle_offer_timeout_def seq_assoc seq_Inr [OF get_state_apply]
          seq_Inr [OF fire_timeout])
  next
    case False
    then show ?thesis
      using Some by (simp add: handle_offer_timeout_def seq_assoc seq_Inr [OF get_state_apply]
          seq_Inl [OF fire_refused] offer_dest_def)
  qed
qed

theorem taker_call_outcome_witness:
  "fst (handle_taker_call 5 [2] None (demo_node Published)) = Inr () \<and>
   fst (handle_taker_call 5 [2] None (demo_node Unproved)) = Inl MachineError"
  using taker_call_outcome [of 5 "demo_node Published" 0 "[2]" None]
    taker_call_outcome [of 5 "demo_node Unproved" 0 "[2]" None]
  by (simp add: Let_def)

theorem commitment_proof_outcome_witness:
  "dispatched (snd (handle_commitment_proof (Some 0) (CommitmentProof None [] [] 5 None) (demo_node Unproved))) =
     [SendProvenOfferEvent 0 None]"
  using commitment_proof_outcome [of "demo_node Unproved" 0 5 None]
  by (simp add: Let_def emit_def upd_offer_def) (simp add: demo_node_def start_node_def)

definition demo_payment :: payment where
  "demo_payment = \<lparr>pay_initiator = [2], pay_amount = 20, pay_identifier = 5\<rparr>"

theorem transfer_received_outcome_witness:
  "f_state (offer_objs (snd (handle_transfer_received demo_payment
     ((demo_node Exchanging)\<lparr>matches := [(5, maker_match (Some 0) [2] None)]\<rparr>))) 0) = Wait_for_refund"
  using transfer_received_outcome [of demo_payment
      "(demo_node Exchanging)\<lparr>matches := [(5, maker_match (Some 0) [2] None)]\<rparr>"]
  by (simp add: demo_payment_def dict_get_def maker_match_def)

section \<open>Cancelling an order\<close>

text \<open>C40: cancelling an order that has an open offer raises TypeError: the first open offer is asked
  to be cancelled, no other offer is, and its timeout stays; an order without open offers is left
  alone, and an unknown one raises KeyError.\<close>

theorem cancel_order_outcome:
  assumes "\<And>od r. dict_get i (orders s) = Some od \<Longrightarrow> r \<in> set (get_open_offers od s) \<Longrightarrow>
    f_status (offer_objs s r) = status_of (f_state (offer_objs s r))"
  shows "cancel_order i s =
    (case dict_get i (orders s) of
       None \<Rightarrow> (Inl KeyError, s)
     | Some od \<Rightarrow>
         (case get_open_offers od s of
            [] \<Rightarrow> (Inr (), s)
          | r # _ \<Rightarrow> (Inl TypeError,
              emit [CancellationRequestEvent r] (enter_state Cancellation_requested r s))))"
proof (cases "dict_get i (orders s)")
  case None
  then show ?thesis by (simp add: cancel_order_def prog_simps)
next
  case (Some od)
  have run: "cancel_order i s = for_each (\<lambda>r. seq (fire_offer T_timeout no_args r) (\<lambda>_. throw TypeError))
      (get_open_offers od s) s"
    using Some by (simp add: cancel_order_def seq_Inr [OF get_state_apply])
  show ?thesis
  proof (cases "get_open_offers od s")
    case Nil
    then show ?thesis using Some by (simp add: run return_def)
  next
    case (Cons r rs)
    then have "r \<in> set (get_open_offers od s)" by simp
    then have "f_status (offer_objs s r) = Open" by (simp add: get_open_offers_def)
    then have "status_of (f_state (offer_objs s r)) = Open"
      using assms [OF Some] Cons by simp
    then show ?thesis
      using Some Cons by (simp add: run seq_assoc seq_Inr [OF fire_timeout]) (simp add: throw_def)
  qed
qed

definition demo_order :: limit_order where
  "demo_order = \<lparr>lo_id = 1, lo_type = BUY, lo_amount = 10, lo_price = PInt 2, lo_lifetime = 60,
     lo_offers = [(5, 0)]\<rparr>"

theorem cancel_order_outcome_witness:
  "fst (cancel_order 1 ((demo_node Published)\<lparr>orders := [(1, demo_order)]\<rparr>)) = Inl TypeError"
  using cancel_order_outcome [of 1 "(demo_node Published)\<lparr>orders := [(1, demo_order)]\<rparr>"]
  by (simp add: dict_get_def demo_order_def get_open_offers_def dict_values_def demo_offer_def)

section \<open>The two sides of a match\<close>

text \<open>Maker and taker of an offer pay complementary sides: for every offer and market one of
  them sends the base amount in the base token and the other the quote amount in the quote token.\<close>

theorem match_complementary:
  assumes "mt_role m = MAKER" "mt_role n = TAKER"
    and "(o_type v, o_base v, o_quote v) = (o_type w, o_base w, o_quote w)"
  shows "{(get_token_from_market m v p, get_send_amount m v), (get_token_from_market n w p, get_send_amount n w)} =
    {(tp_base p, o_base v), (tp_quote p, o_quote v)}"
  using assms by (auto simp: get_send_amount_def get_token_from_market_def sends_quote_def is_maker_match_def)

theorem match_complementary_witness:
  "{get_send_amount (maker_match (Some 0) [2] None) (demo_offer Exchanging),
    get_send_amount (maker_match (Some 0) [2] None\<lparr>mt_role := TAKER\<rparr>) (demo_offer Exchanging)} = {10, 20}"
  using match_complementary [of "maker_match (Some 0) [2] None"
      "maker_match (Some 0) [2] None\<lparr>mt_role := TAKER\<rparr>" "demo_offer Exchanging" "demo_offer Exchanging"
      "\<lparr>tp_base = [], tp_base_decimal = 3, tp_quote = [1], tp_quote_decimal = 18\<rparr>"]
  by (auto simp: maker_match_def demo_offer_def get_send_amount_def sends_quote_def is_maker_match_def)

end
