(* ===== verification/Reached_Book.thy ===== *)
theory Reached_Book
  imports Node_Invariant
begin

text \<open>
  The book of offers in a running node. An offer is put into the book without a look at its id
  (\<open>handle_offer_published\<close>), so an id can be in a view under two prices, and in both views. What holds of
  every book that a node reaches, and what a removal does to such a book.
\<close>

section \<open>What holds of every book\<close>

definition view_typed :: "offer_type \<Rightarrow> offer_view \<Rightarrow> bool" where
  "view_typed t v \<longleftrightarrow> (\<forall>e \<in> set (view_values v). o_type (e_offer e) = t)"

definition book_inv :: "offer_book \<Rightarrow> bool" where
  "book_inv b \<longleftrightarrow> view_keyed (buys b) \<and> view_typed BUY (buys b) \<and>
     view_keyed (sells b) \<and> view_typed SELL (sells b)"

lemma book_inv_empty: "book_inv empty_book"
  by (simp add: book_inv_def empty_book_def view_typed_def) (simp add: empty_view_def view_values_def sd_values_def)

lemma view_value:
  assumes "view_keyed v" and "e \<in> set (view_values v)"
  shows "\<exists>p. e_price e = Inr p \<and> sd_get (p, e_id e) (offer_entries v) = Some e"
proof -
  obtain p i where "sd_get (p, i) (offer_entries v) = Some e"
    using assms by (auto simp: view_values_def sd_values_mem view_keyedD(1))
  then show ?thesis using view_keyedD(3) [OF assms(1)] by blast
qed

lemma view_add_keyed:
  assumes "view_keyed v" and "view_add e v = Inr v'"
  shows "view_keyed v'" "set (view_values v') \<subseteq> insert e (set (view_values v))"
proof -
  obtain p where p: "e_price e = Inr p" and v': "v' = v\<lparr>offer_entries := sd_set (p, e_id e) e (offer_entries v),
            offer_entries_by_id := dict_set (e_id e) e (offer_entries_by_id v)\<rparr>"
    using assms(2) by (auto simp: view_add_def bind_res_Inr_iff)
  note k = view_keyedD [OF assms(1)]
  have get: "sd_get (q, i) (offer_entries v') =
      (if q = p \<and> i = e_id e then Some e else sd_get (q, i) (offer_entries v))" for q i
    by (simp add: v' sd_get_set [OF k(1)])
  have wf: "sd_wf (offer_entries v')" "dict_wf (offer_entries_by_id v')"
    using k(1,2) by (simp_all add: v' sd_wf_set)
  have "e_price x = Inr q \<and> e_id x = i" if "sd_get (q, i) (offer_entries v') = Some x" for q i x
    using that k(3) [of q i x] p by (auto simp: get split: if_splits)
  moreover have "e_id x = i \<and> (\<exists>q. sd_get (q, i) (offer_entries v') = Some x)"
    if x: "dict_get i (offer_entries_by_id v') = Some x" for i x
  proof (cases "i = e_id e")
    case True
    then have "x = e" using x by (simp add: v')
    then show ?thesis using True get by auto
  next
    case False
    then have "view_get i v = Some x" using x by (simp add: v' view_get_def)
    then show ?thesis using k(4) False by (fastforce simp: get)
  qed
  ultimately show "view_keyed v'" using wf by (simp add: view_keyed_def)
  show "set (view_values v') \<subseteq> insert e (set (view_values v))"
  proof
    fix x assume "x \<in> set (view_values v')"
    then obtain q i where "sd_get (q, i) (offer_entries v') = Some x"
      using wf(1) by (auto simp: view_values_def sd_values_mem)
    then show "x \<in> insert e (set (view_values v))"
      using k(1) by (auto simp: get view_values_def sd_values_mem split: if_splits)
  qed
qed

lemma insert_inv:
  assumes "book_inv b" and "insert_offer e b = Inr b'" shows "book_inv b'"
proof (cases "o_type (e_offer e)")
  case BUY
  then obtain v where v: "view_add e (buys b) = Inr v" "b' = b\<lparr>buys := v\<rparr>"
    using assms(2) by (auto simp: insert_offer_def bind_res_Inr_iff)
  then show ?thesis using view_add_keyed [OF _ v(1)] assms(1) BUY
    by (auto simp: book_inv_def view_typed_def)
next
  case SELL
  then obtain v where v: "view_add e (sells b) = Inr v" "b' = b\<lparr>sells := v\<rparr>"
    using assms(2) by (auto simp: insert_offer_def bind_res_Inr_iff)
  then show ?thesis using view_add_keyed [OF _ v(1)] assms(1) SELL
    by (auto simp: book_inv_def view_typed_def)
qed

section \<open>Removing an entry\<close>

lemma sd_del_filter: "sd_wf d \<Longrightarrow> sd_del k d = filter (\<lambda>x. fst x \<noteq> k) d"
proof (induction k d rule: sd_del.induct)
  case (2 k k' v' d)
  have "filter (\<lambda>x. fst x \<noteq> k) d = d" if "k = k'"
    using 2(2) that by (auto simp: sd_wf_def filter_id_conv)
  then show ?case using 2 by (auto simp: sd_wf_def)
qed simp

text \<open>The view without one entry, which is known under an id.\<close>

definition view_without :: "book_entry \<Rightarrow> offer_view \<Rightarrow> offer_view \<Rightarrow> bool" where
  "view_without e v v' \<longleftrightarrow> e \<in> set (view_values v) \<and> view_values v' = filter (\<lambda>x. x \<noteq> e) (view_values v) \<and>
     (\<forall>j. view_get j v' = (if j = e_id e then None else view_get j v))"

lemma view_remove_keyed:
  assumes "view_keyed v" and "view_get i v = Some e"
  shows "\<exists>v'. view_remove i v = Inr v' \<and> view_keyed v' \<and> view_without e v v'"
proof -
  note k = view_keyedD [OF assms(1)]
  obtain p where p: "e_id e = i" "sd_get (p, i) (offer_entries v) = Some e" "e_price e = Inr p"
    using k(3,4) assms(2) by blast
  let ?v = "v\<lparr>offer_entries := sd_del (p, i) (offer_entries v),
      offer_entries_by_id := dict_del i (offer_entries_by_id v)\<rparr>"
  have "view_remove i v = Inr ?v"
    using assms(2) p by (simp add: view_remove_def view_get_def sd_delitem_def dict_delitem_def dict_mem_def)
  moreover have "view_keyed ?v"
    using k assms(2) by (auto simp: view_keyed_def sd_wf_del sd_get_del view_get_def split: if_splits)
  moreover have "view_values ?v = filter (\<lambda>x. x \<noteq> e) (view_values v)"
  proof -
    have "fst x = (p, i) \<longleftrightarrow> snd x = e" if x: "x \<in> set (offer_entries v)" for x
    proof
      assume "fst x = (p, i)"
      then have "sd_get (p, i) (offer_entries v) = Some (snd x)"
        using x k(1) sdict.items_mem [of "offer_entries v" "(p, i)" "snd x"] by (metis prod.collapse)
      then show "snd x = e" using p(2) by simp
    next
      assume "snd x = e"
      then show "fst x = (p, i)"
        using x view_entry [OF assms(1), of "fst (fst x)" "snd (fst x)" e] p by (cases x) auto
    qed
    then have "filter (\<lambda>x. fst x \<noteq> (p, i)) (offer_entries v) = filter (\<lambda>x. snd x \<noteq> e) (offer_entries v)"
      by (auto intro: filter_cong)
    then show ?thesis
      by (simp add: view_values_def sd_values_def sd_del_filter [OF k(1)] filter_map o_def)
  qed
  moreover have "e \<in> set (view_values v)" by (rule view_known [OF assms])
  ultimately show ?thesis using p(1) by (intro exI [of _ ?v]) (simp add: view_without_def view_get_def)
qed

lemma view_without_subset: "view_without e v v' \<Longrightarrow> view_typed t v \<Longrightarrow> view_typed t v'"
  by (simp add: view_without_def view_typed_def)

text \<open>A removal acts on the buys if they know the id, and otherwise on the sells.\<close>

definition removed :: "int \<Rightarrow> offer_book \<Rightarrow> offer_book \<Rightarrow> bool" where
  "removed i b b' \<longleftrightarrow>
     (case view_get i (buys b) of
        Some e \<Rightarrow> sells b' = sells b \<and> view_without e (buys b) (buys b')
      | None \<Rightarrow> buys b' = buys b \<and> (\<exists>e. view_get i (sells b) = Some e \<and> view_without e (sells b) (sells b')))"

lemma remove_inv:
  assumes "book_inv b"
  shows "if book_contains i b then \<exists>b'. remove_offer i b = Inr b' \<and> book_inv b' \<and> removed i b b'
    else remove_offer i b = Inl PlainException"
proof (cases "view_get i (buys b)")
  case (Some e)
  then obtain v where v: "view_remove i (buys b) = Inr v" "view_keyed v" "view_without e (buys b) v"
    using view_remove_keyed [of "buys b" i e] assms by (auto simp: book_inv_def)
  have "book_inv (b\<lparr>buys := v\<rparr>)" using assms v view_without_subset [OF v(3)] by (simp add: book_inv_def)
  then show ?thesis using Some v
    by (simp add: remove_offer_def book_contains_def removed_def dict_mem_def view_get_def)
next
  case buys: None
  show ?thesis
  proof (cases "view_get i (sells b)")
    case None
    then show ?thesis using buys by (simp add: remove_offer_def book_contains_def dict_mem_def view_get_def)
  next
    case (Some e)
    then obtain v where v: "view_remove i (sells b) = Inr v" "view_keyed v" "view_without e (sells b) v"
      using view_remove_keyed [of "sells b" i e] assms by (auto simp: book_inv_def)
    have "book_inv (b\<lparr>sells := v\<rparr>)" using assms v view_without_subset [OF v(3)] by (simp add: book_inv_def)
    then show ?thesis using buys Some v
      by (simp add: remove_offer_def book_contains_def removed_def dict_mem_def view_get_def)
  qed
qed

section \<open>Every book a node reaches\<close>

lemma keeps_book:
  assumes "\<And>s. book (snd (m s)) = book s" shows "preserves (\<lambda>s. book_inv (book s)) m"
  using assms by (simp add: preserves_def)

lemma on_enter_book: "book (snd (on_enter args r d s)) = book s"
  by (cases d)
     (simp_all add: on_enter_def on_enter_unproved_def on_enter_published_def on_enter_cancellation_def
        initiate_refund_def set_proof_def prog_simps upd_offer_def dispatch_events_def split: option.split)

lemma book_upd [simp]: "book (upd_offer r f s) = book s"
  by (simp add: upd_offer_def)

lemma fire_book: "book (snd (fire_offer t args r s)) = book s"
proof (cases "offer_dest t (f_state (offer_objs s r))")
  case (Some d)
  obtain x u where u: "on_enter args r d
      (upd_offer r (\<lambda>w. w\<lparr>f_state := d, f_status := status_of d\<rparr>) s) = (x, u)" by fastforce
  then have "book u = book s" using on_enter_book by (metis book_upd snd_conv)
  then show ?thesis using Some u by (simp add: fire_offer_eq split: sum.split)
qed (simp add: fire_offer_eq)

lemma clean_up_book: "book (snd (clean_up_timeout i s)) = book s"
  by (simp add: clean_up_timeout_def modify_def kill_greenlet_def split: option.split)

lemma new_timeout_book: "book (snd (create_new_timeout now i timeout threshold s)) = book s"
proof -
  obtain r t where t: "create_new_timeout now i timeout threshold s = (r, t)" by fastforce
  then show ?thesis by (cases rule: create_new_timeout_cases) (use t clean_up_book in simp_all)
qed

lemma order_add_book: "book (snd (order_add_offer i r s)) = book s"
  using fire_book
  by (simp add: order_add_offer_def seq_Inr [OF modify_apply] seq_unit upd_order_def split: option.split)

lemma drop_keeps_book: "preserves (\<lambda>s. book_inv (book s)) (book_drop i)"
proof (rule preservesI)
  fix s :: node assume "book_inv (book s)"
  from remove_inv [OF this, of i] show "book_inv (book (snd (book_drop i s)))" using \<open>book_inv (book s)\<close>
    by (auto simp: book_drop_def split: sum.split if_splits)
qed

interpretation book_kept: node_code UNIV "\<lambda>_ _. ()" "\<lambda>_ s. book_inv (book s)"
proof unfold_locales
  show "preserves (\<lambda>s. book_inv (book s)) (book_drop i)" for i by (rule drop_keeps_book)
  show "book_inv (book (s\<lparr>book := b\<rparr>))" if "book_inv (book s)" "insert_offer e (book s) = Inr b" for s e b
    using insert_inv [OF that] by simp
  show "preserves (\<lambda>s. book_inv (book s)) (fire_offer t args r)" for t args r
    by (rule keeps_book) (rule fire_book)
  show "preserves (\<lambda>s. book_inv (book s)) (clean_up_timeout i)" for i
    by (rule keeps_book) (rule clean_up_book)
  show "preserves (\<lambda>s. book_inv (book s)) (create_new_timeout now i timeout threshold)" for now i timeout threshold
    by (rule keeps_book) (rule new_timeout_book)
  show "preserves (\<lambda>s. book_inv (book s)) (order_add_offer i r)" for i r
    by (rule keeps_book) (rule order_add_book)
  show "book_inv (book t)" if "book_inv (book s)" "new_offer bo role s = (Inr r, t)" for s t bo role r
    using that by (auto simp: new_offer_def)
qed (auto simp: kill_greenlet_def dispatch_events_def manager_add_offer_def put_match_def intro!: preserves_modify)

lemma reached_book: "reachable_from node_step start_node s \<Longrightarrow> book_inv (book s)"
  using book_kept.keeps_run [OF UNIV_I, of start_node s] book_inv_empty by (simp add: start_node_def)

section \<open>What a match takes\<close>

text \<open>The offers of one price in a view have different ids.\<close>

lemma price_ids_distinct:
  assumes "view_keyed v"
  shows "distinct (map e_id (filter (\<lambda>e. e_price e = Inr p) (view_values v)))"
proof -
  let ?es = "filter (\<lambda>e. e_price e = Inr p) (view_values v)"
  have "distinct (map (\<lambda>e. (projr (e_price e), e_id e)) ?es)"
    using view_values_keys(2) [OF assms] by (rule distinct_map_filter)
  moreover have "map (\<lambda>e. (projr (e_price e), e_id e)) ?es = map (Pair p) (map e_id ?es)" by simp
  ultimately show ?thesis by (metis distinct_map)
qed

lemma match_reached:
  assumes "book_inv b"
  shows "\<exists>es left. match_limit p amount t b = Inr (es, left) \<and>
    amount = left + sum_list (map e_base es) \<and> distinct (map e_id es) \<and>
    set es \<subseteq> set (view_values (if t = SELL then buys b else sells b))"
proof -
  let ?v = "if t = SELL then buys b else sells b"
  have k: "view_keyed ?v" using assms by (simp add: book_inv_def)
  let ?m = "filter (\<lambda>e. e_price e = Inr p) (view_values ?v)"
  obtain es left where t: "take_matching amount (sort_key (\<lambda>e. - e_base e) ?m) = (es, left)" by fastforce
  have m: "match_limit p amount t b = Inr (es, left)"
    using view_by_price_eq [OF k, of p] t by (simp add: match_limit_def get_offers_by_price_def)
  have d: "distinct (map e_id ?m)" by (rule price_ids_distinct [OF k])
  have sub: "set es \<subseteq> set ?m" using take_subset [OF t] by simp
  have "distinct ?m" using d by (simp add: distinct_map)
  then have "distinct es" using take_distinct [OF t] by simp
  moreover have "inj_on e_id (set es)" using d sub by (metis distinct_map inj_on_subset)
  ultimately have "distinct (map e_id es)" by (simp add: distinct_map)
  then show ?thesis using m take_sum [OF t] sub by auto
qed

section \<open>An offer that is published twice\<close>

definition demo_entry :: "int \<Rightarrow> book_entry" where
  "demo_entry q = (example_entry 3 5)\<lparr>e_offer := (e_offer (example_entry 3 5))\<lparr>o_quote := q\<rparr>\<rparr>"

lemma demo_entry_price: "e_price (demo_entry 10) = Inr 2" "e_price (demo_entry 5) = Inr 1"
proof -
  show "e_price (demo_entry 10) = Inr 2"
    using example_price [of 5 3] by (simp add: demo_entry_def example_entry_def)
  show "e_price (demo_entry 5) = Inr 1"
    using to_double_of_int [of 1] float_of_int_small [of 5]
    by (simp add: e_price_def demo_entry_def example_entry_def price_def float_div_def)
qed

lemma demo_entry_fields:
  "e_id (demo_entry q) = 3" "o_id (e_offer (demo_entry q)) = 3" "o_type (e_offer (demo_entry q)) = SELL"
  "o_timeout (e_offer (demo_entry q)) = 0" "e_base (demo_entry q) = 5"
  by (simp_all add: demo_entry_def example_entry_def e_id_def e_base_def)

text \<open>The offer 3, published once at the price 2, and once more at the price 1.\<close>

definition demo_once :: node where
  "demo_once = snd (handle_state_change 0 0 0 (OfferPublishedStateChange (demo_entry 10)) start_node)"

definition demo_twice :: node where
  "demo_twice = snd (handle_state_change 0 0 0 (OfferPublishedStateChange (demo_entry 5)) demo_once)"

lemma demo_seconds_0: "seconds_to_timeout 0 0 = Inr 0" "float_of_int 10 = Inr 10" "float_sub 0 10 = Inr (- 10)"
  using to_double_of_int [of 0] to_double_of_int [of "- 10"] float_of_int_small [of 10]
  by (simp_all add: seconds_to_timeout_def ms_timestamp_to_dt_def mk_datetime_def datetime_min_def
      datetime_max_def total_seconds_def int_truediv_def float_sub_def)

lemmas demo_publish_simps = handle_state_change_def handle_offer_published_def get_offer_def prog_simps
  demo_entry_fields demo_entry_price insert_offer_def view_add_def create_new_timeout_def has_greenlet_def
  is_still_alive_def clean_up_timeout_def future_timeout_def kill_greenlet_def offer_threshold_time_def demo_seconds_0

lemma demo_once_fields:
  "book demo_once = \<lparr>buys = empty_view, sells = \<lparr>offer_entries = [((2, 3), demo_entry 10)],
     offer_entries_by_id = [(3, demo_entry 10)]\<rparr>\<rparr>"
  "manager_offers demo_once = []" "next_offer demo_once = 0" "orders demo_once = []" "matches demo_once = []"
  "timeout_greenlets demo_once = [(3, 0)]" "next_greenlet demo_once = 1" "\<not> g_dead (greenlets demo_once 0)"
  by (simp_all add: demo_once_def start_node_def empty_book_def empty_view_def demo_publish_simps dict_set_def)

lemma demo_twice_fields:
  "book demo_twice = \<lparr>buys = empty_view, sells = \<lparr>offer_entries = [((1, 3), demo_entry 5), ((2, 3), demo_entry 10)],
     offer_entries_by_id = [(3, demo_entry 5)]\<rparr>\<rparr>"
  "manager_offers demo_twice = []" "next_offer demo_twice = 0" "orders demo_twice = []" "matches demo_twice = []"
  "timeout_greenlets demo_twice = [(3, 1)]" "next_greenlet demo_twice = 2" "\<not> g_dead (greenlets demo_twice (Suc 0))"
  using demo_once_fields
  by (simp_all add: demo_twice_def demo_publish_simps dict_set_def dict_get_def dict_del_def)

lemma reach_handle:
  "reachable_from node_step s0 s \<Longrightarrow>
    reachable_from node_step s0 (snd (handle_state_change now rnd rnd' ch s))"
  by (erule reach_step) (rule ns_handle)

lemma demo_reached:
  "reachable_from node_step start_node demo_once" "reachable_from node_step start_node demo_twice"
  unfolding demo_twice_def demo_once_def by (intro reach_handle reach_start)+

section \<open>Properties\<close>

text \<open>C38: removing an offer from the book of a running node: in every state that a node reaches, the removal of
  an id that the book knows succeeds, and what leaves is the entry that the book knows under the id, from the
  list of its side and from the ids of its side. Everything else stays, on both sides, also an entry that was
  published under the same id at another price. If no id is in the book twice, the book stays a map without the
  id. For an id that the book does not know it raises and changes nothing.\<close>

theorem book_remove:
  assumes "reachable_from node_step start_node s"
  shows "if book_contains i (book s)
    then \<exists>b e. book_drop i s = (Inr (), s\<lparr>book := b\<rparr>) \<and> get_offer_by_id i (book s) = Some e \<and> e_id e = i \<and>
      (case o_type (e_offer e) of
         BUY \<Rightarrow> sells b = sells (book s) \<and> view_without e (buys (book s)) (buys b)
       | SELL \<Rightarrow> buys b = buys (book s) \<and> view_without e (sells (book s)) (sells b)) \<and>
      (book_ok (book s) \<longrightarrow> book_ok b \<and> book_map b = (book_map (book s))(i := None))
    else book_drop i s = (Inl PlainException, s)"
proof -
  have inv: "book_inv (book s)" by (rule reached_book [OF assms])
  show ?thesis
  proof (cases "book_contains i (book s)")
    case False
    then show ?thesis using remove_inv [OF inv, of i] by (simp add: book_drop_def)
  next
    case True
    then obtain b where b: "remove_offer i (book s) = Inr b" "book_inv b" "removed i (book s) b"
      using remove_inv [OF inv, of i] by auto
    have typed: "o_type (e_offer e) = BUY" if "view_get j (buys (book s)) = Some e" for j e
      using inv view_known [OF _ that] by (auto simp: book_inv_def view_typed_def)
    have typed': "o_type (e_offer e) = SELL" if "view_get j (sells (book s)) = Some e" for j e
      using inv view_known [OF _ that] by (auto simp: book_inv_def view_typed_def)
    have ids: "e_id e = j" if "get_offer_by_id j (book s) = Some e" for j e
      using inv that view_keyedD(4) by (fastforce simp: book_inv_def get_offer_by_id_def split: option.splits)
    have "\<exists>e. get_offer_by_id i (book s) = Some e \<and> (case o_type (e_offer e) of
         BUY \<Rightarrow> sells b = sells (book s) \<and> view_without e (buys (book s)) (buys b)
       | SELL \<Rightarrow> buys b = buys (book s) \<and> view_without e (sells (book s)) (sells b))"
      using b(3) typed typed' by (auto simp: removed_def get_offer_by_id_def split: option.splits)
    moreover have "book_drop i s = (Inr (), s\<lparr>book := b\<rparr>)" using b(1) by (simp add: book_drop_def)
    moreover have "book_ok (book s) \<longrightarrow> book_ok b \<and> book_map b = (book_map (book s))(i := None)"
      using remove_refines [of "book s" i] True b(1) by auto
    ultimately show ?thesis using True ids by auto
  qed
qed

theorem book_remove_witness:
  "\<exists>b. book_drop 3 demo_twice = (Inr (), demo_twice\<lparr>book := b\<rparr>) \<and> view_values (sells b) = [demo_entry 10] \<and>
     get_offer_by_id 3 b = None \<and> book_drop 4 demo_twice = (Inl PlainException, demo_twice)"
proof -
  have f: "book_contains 3 (book demo_twice)" "\<not> book_contains 4 (book demo_twice)"
    "get_offer_by_id 3 (book demo_twice) = Some (demo_entry 5)" "view_get j (buys (book demo_twice)) = None"
    "view_values (sells (book demo_twice)) = [demo_entry 5, demo_entry 10]" "demo_entry 5 \<noteq> demo_entry 10" for j
    by (simp_all add: demo_twice_fields book_contains_def get_offer_by_id_def view_get_def empty_view_def
        dict_mem_def dict_get_def view_values_def sd_values_def)
       (simp add: demo_entry_def example_entry_def)
  obtain b where b: "book_drop 3 demo_twice = (Inr (), demo_twice\<lparr>book := b\<rparr>)" "buys b = buys (book demo_twice)"
      "view_without (demo_entry 5) (sells (book demo_twice)) (sells b)"
    using book_remove [OF demo_reached(2), of 3] f(1,3) by (auto simp: demo_entry_fields)
  have "view_values (sells b) = [demo_entry 10]" "view_get 3 (sells b) = None"
    using b(3) f(5,6) by (auto simp: view_without_def demo_entry_fields)
  moreover have "get_offer_by_id 3 b = None" using calculation(2) b(2) f(4) by (simp add: get_offer_by_id_def)
  moreover have "book_drop 4 demo_twice = (Inl PlainException, demo_twice)"
    using book_remove [OF demo_reached(2), of 4] f(2) by simp
  ultimately show ?thesis using b(1) by blast
qed

end
