(* ===== verification/Order_Flow.thy ===== *)
theory Order_Flow
  imports Reached_Book
begin

text \<open>
  A limit order from its arrival to its offers: what \<open>process_order\<close> takes from the book and what
  it offers itself add up to the amount of the order, and what it takes leaves the book.
\<close>

section \<open>What an order asks for\<close>

definition order_amounts :: "int \<Rightarrow> node \<Rightarrow> (int, int) dict" where
  "order_amounts i s =
     (case dict_get i (orders s) of
        None \<Rightarrow> []
      | Some od \<Rightarrow> map (\<lambda>(k, r). (k, o_base (offer_objs s r))) (lo_offers od))"

text \<open>States that agree on orders, book, and the terms of the offers that exist.\<close>

definition same_terms :: "node \<Rightarrow> node \<Rightarrow> bool" where
  "same_terms s t \<longleftrightarrow> orders t = orders s \<and> book t = book s \<and>
     (\<forall>r. o_id (offer_objs t r) = o_id (offer_objs s r) \<and> o_base (offer_objs t r) = o_base (offer_objs s r))"

lemma same_terms_refl [simp]: "same_terms s s"
  by (simp add: same_terms_def)

lemma same_terms_trans: "same_terms s t \<Longrightarrow> same_terms t u \<Longrightarrow> same_terms s u"
  by (simp add: same_terms_def)

lemma same_terms_amounts: "same_terms s t \<Longrightarrow> order_amounts i t = order_amounts i s"
  by (auto simp: same_terms_def order_amounts_def split: option.split)

lemma same_terms_fields [simp]:
  "same_terms s (t\<lparr>dispatched := d\<rparr>) = same_terms s t" "same_terms s (t\<lparr>matches := ms\<rparr>) = same_terms s t"
  "same_terms s (t\<lparr>manager_offers := m\<rparr>) = same_terms s t"
  "same_terms s (t\<lparr>timeout_greenlets := tg\<rparr>) = same_terms s t"
  "same_terms s (t\<lparr>greenlets := gs\<rparr>) = same_terms s t"
  "same_terms s (t\<lparr>next_greenlet := n\<rparr>) = same_terms s t"
  by (simp_all add: same_terms_def)

lemma same_terms_upd:
  "(\<And>w. o_id (f w) = o_id w \<and> o_base (f w) = o_base w) \<Longrightarrow> same_terms s (upd_offer r f s)"
  by (simp add: same_terms_def upd_offer_def)

lemma same_terms_on_enter: "same_terms s (snd (on_enter args r d s))"
  by (cases d)
     (auto simp: on_enter_def on_enter_unproved_def on_enter_published_def on_enter_cancellation_def
        initiate_refund_def set_proof_def return_def throw_def modify_def dispatch_events_def
        split: option.split intro: same_terms_upd)

lemma same_terms_fire: "same_terms s (snd (fire_offer t args r s))"
proof (cases "offer_dest t (f_state (offer_objs s r))")
  case None
  then show ?thesis by (simp add: fire_offer_eq)
next
  case (Some d)
  let ?s = "upd_offer r (\<lambda>w. w\<lparr>f_state := d, f_status := status_of d\<rparr>) s"
  obtain x u where u: "on_enter args r d ?s = (x, u)" by fastforce
  have "same_terms s ?s" by (rule same_terms_upd) simp
  then have "same_terms s u" using same_terms_on_enter [of ?s args r d] u same_terms_trans by simp
  then show ?thesis using Some u by (simp add: fire_offer_eq split: sum.split)
qed

lemma same_terms_clean_up: "same_terms s (snd (clean_up_timeout i s))"
  by (simp add: clean_up_timeout_def modify_def kill_greenlet_def split: option.split)

lemma same_terms_new_timeout: "same_terms s (snd (create_new_timeout now i timeout threshold s))"
proof -
  obtain r t where t: "create_new_timeout now i timeout threshold s = (r, t)" by fastforce
  then show ?thesis
    by (cases rule: create_new_timeout_cases) (use t same_terms_clean_up in simp_all)
qed

section \<open>One offer joins an order\<close>

lemma seq_success:
  "seq m f s = (Inr y, u) \<longleftrightarrow> (\<exists>x t. m s = (Inr x, t) \<and> f x t = (Inr y, u))"
  by (auto simp: seq_def split: prod.splits sum.splits)

lemma order_add_effect:
  assumes ok: "node_at {(r, k)} s" and od: "dict_get i (orders s) = Some od"
    and run: "order_add_offer i r s = (Inr (), t)"
  shows "\<exists>od'. dict_get i (orders t) = Some od'" "book t = book s"
    "order_amounts i t = dict_set (o_id (offer_objs s r)) (o_base (offer_objs s r)) (order_amounts i s)"
proof -
  let ?od = "od\<lparr>lo_offers := dict_set (o_id (offer_objs s r)) r (lo_offers od)\<rparr>"
  let ?s = "s\<lparr>orders := dict_set i ?od (orders s)\<rparr>"
  obtain b where "fire_offer T_initiating no_args r ?s = (Inr b, t)"
    using run od by (auto simp: order_add_offer_def seq_success modify_def upd_order_def return_def)
  then have same: "same_terms ?s t" using same_terms_fire [of ?s T_initiating no_args r] by simp
  then show "\<exists>od'. dict_get i (orders t) = Some od'" "book t = book s"
    by (simp_all add: same_terms_def)
  have "map (\<lambda>(k, q). (k, o_base (offer_objs s q))) (dict_set k r d) =
      dict_set k (o_base (offer_objs s r)) (map (\<lambda>(k, q). (k, o_base (offer_objs s q))) d)" for k d
    by (induction d) (auto simp: dict_set_def)
  then show "order_amounts i t =
      dict_set (o_id (offer_objs s r)) (o_base (offer_objs s r)) (order_amounts i s)"
    using same_terms_amounts [OF same, of i] od by (simp add: order_amounts_def)
qed

lemma new_offer_amounts:
  assumes "node_ok s" and "new_offer b role s = (Inr r, t)"
  shows "node_at {(r, o_id b)} t" "order_amounts i t = order_amounts i s" "orders t = orders s" "book t = book s"
    "o_id (offer_objs t r) = o_id b" "o_base (offer_objs t r) = o_base b"
proof -
  show "node_at {(r, o_id b)} t" using node_at_created [of "{}" s b role r t] assms by simp
  have t: "orders t = orders s" "\<And>q. q < next_offer s \<Longrightarrow> offer_objs t q = offer_objs s q"
    using assms(2) by (auto simp: new_offer_def)
  have "(\<lambda>(k, q). (k, o_base (offer_objs t q))) x = (\<lambda>(k, q). (k, o_base (offer_objs s q))) x"
    if "dict_get i (orders s) = Some od" "x \<in> set (lo_offers od)" for x od
  proof -
    obtain k q where x: "x = (k, q)" by fastforce
    have "refs_ok s (lo_offers od)" using assms(1) that(1) by (simp add: node_ok_def offers_ok_def)
    then have "q < next_offer s" using that(2) x by (auto simp: refs_ok_def dest: dict_in_set_get)
    then show ?thesis using t(2) x by simp
  qed
  then show "order_amounts i t = order_amounts i s"
    using t(1) by (simp add: order_amounts_def split: option.split)
  show "orders t = orders s" "book t = book s" "o_id (offer_objs t r) = o_id b"
    "o_base (offer_objs t r) = o_base b" using assms(2) by (auto simp: new_offer_def)
qed

text \<open>A new offer gets its timeout, perhaps a match, and joins the order.\<close>

lemma join_order:
  assumes ok: "node_ok s" and od: "dict_get i (orders s) = Some od"
    and new: "new_offer b role s = (Inr r, s1)"
    and mgr: "manager_add_offer r s1 = (Inr x, s2)"
    and tmo: "create_new_timeout now j timeout threshold s2 = (Inr y, s3)"
    and s4: "s4 = s3 \<or> (\<exists>m. mt_offer m = Some r \<and> put_match (o_id b) m s3 = (Inr (), s4))"
    and add: "order_add_offer i r s4 = (Inr (), t)"
  shows "\<exists>od'. dict_get i (orders t) = Some od'" "book t = book s" "node_ok t"
    "order_amounts i t = dict_set (o_id b) (o_base b) (order_amounts i s)"
    "o_id (offer_objs s2 r) = o_id b"
proof -
  note n = new_offer_amounts [OF ok new]
  have a2: "node_at {(r, o_id b)} s2" by (rule preservesD [OF preserves_manager_add n(1) mgr]) simp
  have a3: "node_at {(r, o_id b)} s3" by (rule preservesD [OF preserves_new_timeout a2 tmo])
  have a4: "node_at {(r, o_id b)} s4"
    using s4 a3 preservesD [OF preserves_put_match a3, of _ "o_id b" "Inr ()" s4] by (metis insertI1 option.inject)
  have "node_at {(r, o_id b)} t" by (rule preservesD [OF preserves_order_add a4 add]) simp
  then show "node_ok t" by (rule node_at_ok)
  have s2: "same_terms s1 s2" using mgr by (auto simp: manager_add_offer_def modify_def)
  moreover have "same_terms s2 s3" using same_terms_new_timeout tmo by (metis snd_conv)
  moreover have "same_terms s3 s4" using s4 by (auto simp: put_match_def modify_def)
  ultimately have same: "same_terms s1 s4" by (meson same_terms_trans)
  then have "orders s4 = orders s" "o_id (offer_objs s4 r) = o_id b"
      "o_base (offer_objs s4 r) = o_base b" "book s4 = book s"
    using n by (simp_all add: same_terms_def)
  then show "\<exists>od'. dict_get i (orders t) = Some od'" "book t = book s"
      "order_amounts i t = dict_set (o_id b) (o_base b) (order_amounts i s)"
    using order_add_effect [OF a4 _ add] od same_terms_amounts [OF same] n(2) by auto
  show "o_id (offer_objs s2 r) = o_id b" using s2 n(5) by (simp add: same_terms_def)
qed

section \<open>The order as a whole\<close>

lemma take_entry_effect:
  assumes ok: "node_ok s" and od: "dict_get i (orders s) = Some od"
    and run: "take_entry now i e s = (Inr (), t)"
  shows "node_ok t" "\<exists>od'. dict_get i (orders t) = Some od'"
    "order_amounts i t = dict_set (e_id e) (e_base e) (order_amounts i s)"
    "remove_offer (e_id e) (book s) = Inr (book t)"
proof -
  obtain r s1 s2 s3 s4 s5 b where steps:
      "new_offer (e_offer e) TAKER s = (Inr r, s1)" "manager_add_offer r s1 = (Inr (), s2)"
      "create_new_timeout now (o_id (offer_objs s2 r)) (o_timeout (offer_objs s2 r)) 0 s2 = (Inr b, s3)"
      "put_match (o_id (offer_objs s2 r)) (taker_match r e) s3 = (Inr (), s4)"
      "order_add_offer i r s4 = (Inr (), s5)" "book_drop (o_id (offer_objs s2 r)) s5 = (Inr (), t)"
    using run
    by (auto simp: take_entry_def create_take_offer_def seq_success the_offer_def get_state_def
        return_def throw_def split: if_splits)
  have m: "mt_offer (taker_match r e) = Some r" by (simp add: taker_match_def)
  note j = join_order [OF ok od steps(1-3) disjI2 steps(5)]
  have "o_id (offer_objs s2 r) = o_id (e_offer e)"
    using steps(2) new_offer_amounts(5) [OF ok steps(1)] by (auto simp: manager_add_offer_def modify_def)
  then have s4: "\<exists>m. mt_offer m = Some r \<and> put_match (o_id (e_offer e)) m s3 = (Inr (), s4)"
    using steps(4) m by metis
  have b: "remove_offer (o_id (e_offer e)) (book s) = Inr (book t)" "t = s5\<lparr>book := book t\<rparr>"
    using steps(6) j(2) [OF s4] j(5) [OF s4] by (auto simp: book_drop_def split: sum.splits)
  then show "remove_offer (e_id e) (book s) = Inr (book t)" by (simp add: e_id_def)
  have "node_ok (s5\<lparr>book := book t\<rparr>)" using j(3) [OF s4] by simp
  then show "node_ok t" using b(2) by metis
  have "order_amounts i (s5\<lparr>book := book t\<rparr>) = order_amounts i s5"
      "orders (s5\<lparr>book := book t\<rparr>) = orders s5"
    by (auto simp: order_amounts_def split: option.split)
  then show "\<exists>od'. dict_get i (orders t) = Some od'"
      "order_amounts i t = dict_set (e_id e) (e_base e) (order_amounts i s)"
    using j(1) [OF s4] j(4) [OF s4] b(2) by (metis, metis e_id_def e_base_def)
qed

text \<open>
  The book after entries with the ids \<open>I\<close> were taken: of each id, the entry that the book knew under it has
  left, from the buys if they knew it, otherwise from the sells.
\<close>

definition taken_from :: "int set \<Rightarrow> offer_book \<Rightarrow> offer_book \<Rightarrow> bool" where
  "taken_from I b b' \<longleftrightarrow>
     (\<forall>j. view_get j (buys b') = (if j \<in> I then None else view_get j (buys b))) \<and>
     (\<forall>j. view_get j (sells b') =
        (if j \<in> I \<and> view_get j (buys b) = None then None else view_get j (sells b))) \<and>
     view_values (buys b') =
       filter (\<lambda>e. \<not> (e_id e \<in> I \<and> view_get (e_id e) (buys b) = Some e)) (view_values (buys b)) \<and>
     view_values (sells b') =
       filter (\<lambda>e. \<not> (e_id e \<in> I \<and> view_get (e_id e) (buys b) = None \<and> view_get (e_id e) (sells b) = Some e))
         (view_values (sells b))"

lemma taken_from_none: "taken_from {} b b"
  by (simp add: taken_from_def)

lemma known_id: "book_inv b \<Longrightarrow> view_get j (buys b) = Some e \<Longrightarrow> e_id e = j"
  "book_inv b \<Longrightarrow> view_get j (sells b) = Some e \<Longrightarrow> e_id e = j"
  using view_keyedD(4) by (auto simp: book_inv_def)

lemma removed_taken:
  assumes "book_inv b" and "removed i b b'" shows "taken_from {i} b b'"
proof (cases "view_get i (buys b)")
  case (Some e)
  then have r: "sells b' = sells b" "view_without e (buys b) (buys b')" using assms(2) by (simp_all add: removed_def)
  have id: "e_id e = i" by (rule known_id(1) [OF assms(1) Some])
  have "x \<noteq> e \<longleftrightarrow> \<not> (e_id x = i \<and> view_get i (buys b) = Some x)" for x using Some id by auto
  then show ?thesis using r Some id by (auto simp: taken_from_def view_without_def intro!: filter_cong)
next
  case None
  then obtain e where r: "buys b' = buys b" "view_get i (sells b) = Some e" "view_without e (sells b) (sells b')"
    using assms(2) by (auto simp: removed_def)
  have id: "e_id e = i" by (rule known_id(2) [OF assms(1) r(2)])
  have "x \<noteq> e \<longleftrightarrow> \<not> (e_id x = i \<and> view_get i (sells b) = Some x)" for x using r(2) id by auto
  then show ?thesis using r None id by (auto simp: taken_from_def view_without_def filter_id_conv intro!: filter_cong)
qed

lemma taken_from_insert:
  assumes "taken_from {i} b c" and "taken_from I c d" and "i \<notin> I"
  shows "taken_from (insert i I) b d"
proof -
  have get: "view_get j (buys c) = (if j = i then None else view_get j (buys b))"
    "view_get j (sells c) = (if j = i \<and> view_get j (buys b) = None then None else view_get j (sells b))" for j
    using assms(1) by (simp_all add: taken_from_def)
  have "view_values (buys d) =
      filter (\<lambda>e. \<not> (e_id e \<in> insert i I \<and> view_get (e_id e) (buys b) = Some e)) (view_values (buys b))"
    using assms by (auto simp: taken_from_def intro!: filter_cong)
  moreover have "view_values (sells d) =
      filter (\<lambda>e. \<not> (e_id e \<in> insert i I \<and> view_get (e_id e) (buys b) = None \<and> view_get (e_id e) (sells b) = Some e))
         (view_values (sells b))"
    using assms by (auto simp: taken_from_def intro!: filter_cong)
  ultimately show ?thesis using assms(2,3) unfolding taken_from_def by (auto simp: get)
qed

lemma take_entries_effect:
  assumes "node_ok s" and "dict_get i (orders s) = Some od" and "book_inv (book s)"
    and "for_each (take_entry now i) es s = (Inr (), t)" and "distinct (map e_id es)"
    and "\<forall>e \<in> set es. \<not> dict_mem (e_id e) (order_amounts i s)"
  shows "node_ok t \<and> (\<exists>od'. dict_get i (orders t) = Some od') \<and>
    order_amounts i t = order_amounts i s @ map (\<lambda>e. (e_id e, e_base e)) es \<and>
    taken_from (e_id ` set es) (book s) (book t)"
  using assms
proof (induction es arbitrary: s od)
  case Nil
  then show ?case by (simp add: return_def taken_from_none)
next
  case (Cons e es)
  obtain u where u: "take_entry now i e s = (Inr (), u)" "for_each (take_entry now i) es u = (Inr (), t)"
    using Cons.prems(4) by (auto simp: seq_success)
  note eff = take_entry_effect [OF Cons.prems(1,2) u(1)]
  obtain od' where od': "dict_get i (orders u) = Some od'" using eff(2) by blast
  have am: "order_amounts i u = order_amounts i s @ [(e_id e, e_base e)]"
    using eff(3) Cons.prems(6) by (simp add: dict_set_new)
  have b: "book_inv (book u)" "taken_from {e_id e} (book s) (book u)"
    using remove_inv [OF Cons.prems(3), of "e_id e"] removed_taken [OF Cons.prems(3)] eff(4)
    by (auto split: if_splits)
  have fresh: "\<forall>x \<in> set es. \<not> dict_mem (e_id x) (order_amounts i u)"
    using Cons.prems(5,6) by (auto simp: am dict_mem_iff_key dict_keys_def) (metis imageI)
  have "e_id e \<notin> e_id ` set es" using Cons.prems(5) by auto
  then show ?case
    using Cons.IH [OF eff(1) od' b(1) u(2) _ fresh] Cons.prems(5) taken_from_insert [OF b(2)] am by auto
qed

lemma make_rest_effect:
  assumes ok: "node_ok s" and od: "dict_get (lo_id ord) (orders s) = Some od"
    and run: "make_rest now rid ord a s = (Inr (), t)"
  shows "order_amounts (lo_id ord) t = dict_set rid a (order_amounts (lo_id ord) s)" "book t = book s"
proof -
  obtain bo r s1 s2 s3 b where bo: "o_id bo = rid" "o_base bo = a" and steps:
      "new_offer bo MAKER s = (Inr r, s1)" "manager_add_offer r s1 = (Inr (), s2)"
      "create_new_timeout now (o_id (offer_objs s2 r)) (o_timeout (offer_objs s2 r)) 0 s2 = (Inr b, s3)"
      "order_add_offer (lo_id ord) r s3 = (Inr (), t)"
    using run
    by (auto simp: make_rest_def create_make_offer_def create_offer_def seq_success the_offer_def
        get_state_def return_def lift_res_def intro!: that)
  show "order_amounts (lo_id ord) t = dict_set rid a (order_amounts (lo_id ord) s)" "book t = book s"
    using join_order [OF ok od steps(1-3) disjI1 steps(4)] bo by simp_all
qed

text \<open>The whole order: the entries that match, and what is left.\<close>

lemma process_order_effect:
  assumes ok: "node_ok s" and inv: "book_inv (book s)" and new: "lo_offers od = []"
    and run: "process_order now rid od s = (Inr (), t)"
  shows "\<exists>es left. match_limit (num_value (lo_price od)) (lo_amount od) (lo_type od) (book s) = Inr (es, left) \<and>
    lo_amount od = left + sum_list (map e_base es) \<and>
    set es \<subseteq> set (view_values (if lo_type od = SELL then buys (book s) else sells (book s))) \<and>
    order_amounts (lo_id od) t =
      (if left > 0 then dict_set rid left (map (\<lambda>e. (e_id e, e_base e)) es)
       else map (\<lambda>e. (e_id e, e_base e)) es) \<and>
    taken_from (e_id ` set es) (book s) (book t)"
proof -
  let ?i = "lo_id od"
  let ?s = "s\<lparr>orders := dict_set ?i od (orders s)\<rparr>"
  have s: "node_ok ?s" "dict_get ?i (orders ?s) = Some od" "book_inv (book ?s)" "order_amounts ?i ?s = []"
    using node_at_of_order [of "{}" s od] ok new inv by (simp_all add: order_amounts_def)
  have bs: "book ?s = book s" by simp
  obtain es left where es: "match_limit (num_value (lo_price od)) (lo_amount od) (lo_type od) (book s) =
      Inr (es, left)" "lo_amount od = left + sum_list (map e_base es)" "distinct (map e_id es)"
      "set es \<subseteq> set (view_values (if lo_type od = SELL then buys (book s) else sells (book s)))"
    using match_reached [OF inv] by blast
  obtain u where u: "for_each (take_entry now ?i) es ?s = (Inr (), u)"
      "(if left > 0 then make_rest now rid od left else return ()) u = (Inr (), t)"
    using run es(1) by (auto simp: process_order_def seq_success modify_def get_state_def lift_res_def
        match_new_order_def)
  have e: "node_ok u" "\<exists>od'. dict_get ?i (orders u) = Some od'"
      "order_amounts ?i u = map (\<lambda>e. (e_id e, e_base e)) es" "taken_from (e_id ` set es) (book s) (book u)"
    using take_entries_effect [OF s(1-3) u(1) es(3)] unfolding s(4) bs by simp_all
  have "order_amounts ?i t = (if left > 0 then dict_set rid left (order_amounts ?i u) else order_amounts ?i u) \<and>
      book t = book u"
  proof (cases "left > 0")
    case True
    obtain od' where "dict_get ?i (orders u) = Some od'" using e(2) by blast
    then show ?thesis using make_rest_effect [OF e(1)] u(2) True by auto
  next
    case False
    then show ?thesis using u(2) by (simp add: return_def)
  qed
  then show ?thesis using es e(3,4) by (intro exI [of _ es] exI [of _ left]) auto
qed

section \<open>An order in an empty node\<close>

definition demo_limit :: limit_order where
  "demo_limit = \<lparr>lo_id = 1, lo_type = BUY, lo_amount = 10, lo_price = PInt 2, lo_lifetime = 60,
     lo_offers = []\<rparr>"

lemma demo_time: "time_plus 0 60 = Inr 60000"
  using dt_to_ms_whole [of 60000]
  by (simp add: time_plus_def mk_datetime_def datetime_min_def datetime_max_def)

lemma demo_lifetime: "seconds_to_timeout 0 60000 = Inr 60" "float_of_int 0 = Inr 0" "float_sub 60 0 = Inr 60"
  using to_double_of_int [of 60] to_double_of_int [of 0] float_of_int_small [of 0]
  by (simp_all add: seconds_to_timeout_def ms_timestamp_to_dt_def mk_datetime_def datetime_min_def
      datetime_max_def total_seconds_def int_truediv_def float_sub_def)

lemma demo_match: "match_limit 2 10 BUY empty_book = Inr ([], 10)"
  by code_simp

lemma demo_mul: "num_mul (PInt 10) (PInt 2) = Inr (PInt 20)" by code_simp

lemma demo_processed: "fst (process_order 0 5 demo_limit start_node) = Inr ()"
  by (simp add: process_order_def demo_limit_def seq_Inr [OF modify_apply] seq_Inr [OF get_state_apply]
   match_new_order_def num_value_def demo_match start_node_def prog_simps make_rest_def create_make_offer_def demo_mul create_offer_def demo_time
   new_offer_def manager_add_offer_def the_offer_def create_new_timeout_def has_greenlet_def clean_up_timeout_def future_timeout_def demo_lifetime
   order_add_offer_def upd_order_def fire_offer_eq offer_dest_def on_enter_def on_enter_unproved_def dispatch_events_def upd_offer_def)
lemma demo_run: "process_order 0 5 demo_limit start_node = (Inr (), snd (process_order 0 5 demo_limit start_node))"
  by (rule prod_eqI) (simp_all add: demo_processed)

section \<open>An order that takes an offer\<close>

lemma demo_matches:
  "match_limit 2 9 BUY (book demo_once) = Inr ([demo_entry 10], 4)"
  "match_limit 2 9 BUY (book demo_twice) = Inr ([demo_entry 10], 4)"
  by (simp_all add: demo_once_fields demo_twice_fields match_limit_def get_offers_by_price_def view_by_price_def
      sd_values_def demo_entry_price demo_entry_fields)

definition demo_taking :: limit_order where
  "demo_taking = \<lparr>lo_id = 1, lo_type = BUY, lo_amount = 9, lo_price = PInt 2, lo_lifetime = 60, lo_offers = []\<rparr>"

lemma dict_get_one: "dict_get k [(k', v)] = (if k = k' then Some v else None)"
  by (simp add: dict_get_def)

lemma demo_mul_4: "num_mul (PInt 4) (PInt 2) = Inr (PInt 8)" by code_simp

lemma demo_float_0: "float_of_int 0 = Inr 0" "float_sub 0 0 = Inr 0"
  using to_double_of_int [of 0] float_of_int_small [of 0] by (simp_all add: float_sub_def)

lemmas demo_taking_simps = process_order_def demo_taking_def seq_Inr [OF modify_apply] seq_Inr [OF get_state_apply]
   match_new_order_def num_value_def match_limit_def get_offers_by_price_def view_by_price_def sd_values_def
   prog_simps take_entry_def create_take_offer_def
   demo_entry_fields put_match_def book_drop_def remove_offer_def view_remove_def sd_delitem_def sd_get_def
   dict_delitem_def dict_mem_def dict_get_one demo_entry_price demo_seconds_0 demo_float_0 is_still_alive_def
   kill_greenlet_def
   make_rest_def create_make_offer_def demo_mul_4 create_offer_def demo_time
   new_offer_def manager_add_offer_def the_offer_def create_new_timeout_def has_greenlet_def clean_up_timeout_def
   future_timeout_def demo_lifetime order_add_offer_def upd_order_def fire_offer_eq offer_dest_def on_enter_def
   on_enter_unproved_def dispatch_events_def upd_offer_def

lemma demo_taken:
  "fst (process_order 0 6 demo_taking demo_once) = Inr ()" "fst (process_order 0 6 demo_taking demo_twice) = Inr ()"
  by (simp_all add: demo_taking_simps demo_once_fields demo_twice_fields empty_view_def)

lemma demo_taken_run:
  "process_order 0 6 demo_taking demo_once = (Inr (), snd (process_order 0 6 demo_taking demo_once))"
  "process_order 0 6 demo_taking demo_twice = (Inr (), snd (process_order 0 6 demo_taking demo_twice))"
  by (rule prod_eqI; simp add: demo_taken)+

section \<open>Properties\<close>

text \<open>C2: a processed limit order is accounted for to the last unit: in every state that a node reaches, whatever
  its book holds, when a new order of a whole amount that is not negative is processed without an exception, its
  offers are those that the matching chose, each over its whole base amount, and, if something is left, one more over
  exactly that; together they make up the amount of the order. The id drawn for the rest is one that no entry of the
  book has.\<close>

theorem order_accounted:
  assumes "reachable_from node_step start_node s" and "lo_offers od = []" and "0 \<le> lo_amount od"
    and "\<forall>e \<in> set (view_values (buys (book s)) @ view_values (sells (book s))). e_id e \<noteq> rid"
    and "process_order now rid od s = (Inr (), t)"
  shows "\<exists>es left. match_limit (num_value (lo_price od)) (lo_amount od) (lo_type od) (book s) = Inr (es, left) \<and>
    order_amounts (lo_id od) t =
      map (\<lambda>e. (e_id e, e_base e)) es @ (if left = 0 then [] else [(rid, left)]) \<and>
    sum_list (map snd (order_amounts (lo_id od) t)) = lo_amount od"
proof -
  obtain es left where es: "match_limit (num_value (lo_price od)) (lo_amount od) (lo_type od) (book s) = Inr (es, left)"
      "lo_amount od = left + sum_list (map e_base es)"
      "set es \<subseteq> set (view_values (if lo_type od = SELL then buys (book s) else sells (book s)))"
      "order_amounts (lo_id od) t = (if left > 0 then dict_set rid left (map (\<lambda>e. (e_id e, e_base e)) es)
         else map (\<lambda>e. (e_id e, e_base e)) es)"
    using process_order_effect [OF node_system.inv_reachable [OF assms(1)] reached_book [OF assms(1)] assms(2,5)]
    by blast
  have left: "0 \<le> left" by (rule match_limit_left [OF es(1) assms(3)])
  have "rid \<notin> e_id ` set es" using es(3) assms(4) by (auto split: if_splits)
  then have "\<not> dict_mem rid (map (\<lambda>e. (e_id e, e_base e)) es)" by (auto simp: dict_mem_iff_key dict_keys_def)
  then have "order_amounts (lo_id od) t = map (\<lambda>e. (e_id e, e_base e)) es @ (if left = 0 then [] else [(rid, left)])"
    using es(4) left by (simp add: dict_set_new)
  then show ?thesis using es(1,2) by (intro exI [of _ es] exI [of _ left]) (simp add: o_def)
qed

theorem order_accounted_witness:
  "order_amounts 1 (snd (process_order 0 6 demo_taking demo_once)) = [(3, 5), (6, 4)]"
proof -
  have "lo_offers demo_taking = []" "0 \<le> lo_amount demo_taking" "lo_id demo_taking = 1"
      "num_value (lo_price demo_taking) = 2" "lo_amount demo_taking = 9" "lo_type demo_taking = BUY"
      "\<forall>e \<in> set (view_values (buys (book demo_once)) @ view_values (sells (book demo_once))). e_id e \<noteq> 6"
    by (simp_all add: demo_taking_def num_value_def demo_once_fields view_values_def sd_values_def empty_view_def
        demo_entry_fields)
  then show ?thesis
    using order_accounted [OF demo_reached(1) _ _ _ demo_taken_run(1)] demo_matches(1) by (simp add: demo_entry_fields)
qed

text \<open>C30: a processed limit order takes its offers out of the book and nothing else: in every state that a node
  reaches, for the id of each offer that the order takes, the entry that the book knows under that id leaves (from
  the buys if they know the id, otherwise from the sells), and every other entry stays where it is. If no id is in
  the book twice, the book after the order is the map before it without the offers taken.\<close>

theorem order_leaves_book:
  assumes "reachable_from node_step start_node s" and "lo_offers od = []"
    and "process_order now rid od s = (Inr (), t)"
  shows "\<exists>es left. match_limit (num_value (lo_price od)) (lo_amount od) (lo_type od) (book s) = Inr (es, left) \<and>
    view_values (buys (book t)) =
      filter (\<lambda>e. \<not> (e_id e \<in> e_id ` set es \<and> view_get (e_id e) (buys (book s)) = Some e))
        (view_values (buys (book s))) \<and>
    view_values (sells (book t)) =
      filter (\<lambda>e. \<not> (e_id e \<in> e_id ` set es \<and> view_get (e_id e) (buys (book s)) = None \<and>
          view_get (e_id e) (sells (book s)) = Some e))
        (view_values (sells (book s))) \<and>
    (book_ok (book s) \<longrightarrow> (\<forall>e \<in> set es. book_map (book s) (e_id e) = Some e) \<and>
      book_map (book t) = (\<lambda>j. if j \<in> e_id ` set es then None else book_map (book s) j))"
proof -
  obtain es left where es: "match_limit (num_value (lo_price od)) (lo_amount od) (lo_type od) (book s) = Inr (es, left)"
      "taken_from (e_id ` set es) (book s) (book t)"
    using process_order_effect [OF node_system.inv_reachable [OF assms(1)] reached_book [OF assms(1)] assms(2,3)]
    by blast
  have "book_map (book t) = (\<lambda>j. if j \<in> e_id ` set es then None else book_map (book s) j)" if ok: "book_ok (book s)"
  proof
    fix j
    have "view_get j (buys (book s)) = Some e \<Longrightarrow> view_get j (sells (book s)) = None" for e
      using ok by (auto simp: book_ok_def)
    then show "book_map (book t) j = (if j \<in> e_id ` set es then None else book_map (book s) j)"
      using es(2) by (auto simp: taken_from_def book_map_def get_offer_by_id_def split: option.split)
  qed
  moreover have "\<forall>e \<in> set es. book_map (book s) (e_id e) = Some e" if ok: "book_ok (book s)"
    using match_limit_facts [OF ok, of "num_value (lo_price od)" "lo_amount od" "lo_type od"] es(1) by auto
  ultimately show ?thesis using es unfolding taken_from_def by blast
qed

theorem order_leaves_book_witness:
  "view_values (sells (book (snd (process_order 0 6 demo_taking demo_once)))) = [] \<and>
   view_values (sells (book (snd (process_order 0 6 demo_taking demo_twice)))) = [demo_entry 10]"
proof -
  have o: "lo_offers demo_taking = []" "num_value (lo_price demo_taking) = 2" "lo_amount demo_taking = 9"
      "lo_type demo_taking = BUY"
    by (simp_all add: demo_taking_def num_value_def)
  have e: "demo_entry 5 \<noteq> demo_entry 10" by (simp add: demo_entry_def example_entry_def)
  note f = view_values_def sd_values_def view_get_def dict_get_def empty_view_def demo_entry_fields
  show ?thesis
    using order_leaves_book [OF demo_reached(1) o(1) demo_taken_run(1)]
      order_leaves_book [OF demo_reached(2) o(1) demo_taken_run(2)] demo_matches o(2-4) e
    by (auto simp: demo_once_fields demo_twice_fields f)
qed

end
