(* ===== verification/Broker.thy ===== *)
theory Broker
  imports Offers
begin

text \<open>
  \<open>message_broker/message_broker.py\<close> and \<open>message_broker/listeners.py\<close>: topics, listeners with a
  queue of their own, and what each class of listener hears of a message. The transform of a
  listener is the method of its class, so it is a value of the type \<open>listener_kind\<close>.
\<close>

section \<open>What a listener hears\<close>

datatype topic = Broadcast | Topic string | Address bytes

datatype heard =
    Heard_message message
  | Heard_offer_id int
  | Heard_entry book_entry
  | Heard_completed int int

datatype listener_kind =
    MessageListener
  | TakerListener int
  | OfferListener token_pair
  | OfferTakenListener
  | SwapExecutionListener
  | TakerCommitmentListener
  | CancellationListener
  | CommitmentListener
  | SwapCompletedListener
  | CommitmentProofListener

definition taker_transform :: "int \<Rightarrow> message \<Rightarrow> heard option" where
  "taker_transform i m =
     (if is_instance m C_ProvenOffer \<and> m_offer_id (m_offer m) = i then Some (Heard_message m) else None)"

definition instance_transform :: "msg_class \<Rightarrow> message \<Rightarrow> heard option" where
  "instance_transform c m = (if \<not> is_instance m c then None else Some (Heard_message m))"

definition offer_taken_transform :: "message \<Rightarrow> heard option" where
  "offer_taken_transform m =
     (if \<not> is_instance m C_OfferTaken then None else Some (Heard_offer_id (m_offer_id m)))"

definition swap_completed_transform :: "message \<Rightarrow> heard option" where
  "swap_completed_transform m =
     (if \<not> is_instance m C_SwapCompleted then None
      else Some (Heard_completed (m_offer_id m) (m_timestamp m)))"

definition commitment_proof_transform :: "message \<Rightarrow> heard option" where
  "commitment_proof_transform m =
     (if \<not> (is_instance m C_CommitmentProof \<or> is_instance m C_CancellationProof) then None
      else Some (Heard_message m))"

definition transform_of :: "crypto \<Rightarrow> listener_kind \<Rightarrow> message \<Rightarrow> heard option res" where
  "transform_of C k m =
     (case k of
        MessageListener \<Rightarrow> Inr (Some (Heard_message m))
      | TakerListener i \<Rightarrow> Inr (taker_transform i m)
      | OfferListener p \<Rightarrow>
          bind_res (offer_listener_transform C p m) (\<lambda>x. Inr (map_option Heard_entry x))
      | OfferTakenListener \<Rightarrow> Inr (offer_taken_transform m)
      | SwapExecutionListener \<Rightarrow> Inr (instance_transform C_SwapExecution m)
      | TakerCommitmentListener \<Rightarrow> Inr (instance_transform C_Commitment m)
      | CancellationListener \<Rightarrow> Inr (instance_transform C_Cancellation m)
      | CommitmentListener \<Rightarrow> Inr (instance_transform C_Commitment m)
      | SwapCompletedListener \<Rightarrow> Inr (swap_completed_transform m)
      | CommitmentProofListener \<Rightarrow> Inr (commitment_proof_transform m))"

section \<open>The broker\<close>

text \<open>A queue is an object, so a listener is told apart by the number of its queue.\<close>

record topic_listener =
  ln_topic :: topic
  ln_queue :: nat
  ln_transform :: "listener_kind option"

record broker =
  topics :: "(topic, topic_listener list) dict"
  queues :: "nat \<Rightarrow> heard list"
  next_queue :: nat

definition topic_listeners :: "topic \<Rightarrow> broker \<Rightarrow> topic_listener list" where
  "topic_listeners t b = (case dict_get t (topics b) of None \<Rightarrow> [] | Some ls \<Rightarrow> ls)"

text \<open>Indexing the \<open>defaultdict\<close> creates an absent entry.\<close>

definition touch_topic :: "topic \<Rightarrow> (broker, topic_listener list) prog" where
  "touch_topic t b =
     (case dict_get t (topics b) of
        None \<Rightarrow> (Inr [], b\<lparr>topics := dict_set t [] (topics b)\<rparr>)
      | Some ls \<Rightarrow> (Inr ls, b))"

definition queue_put :: "nat \<Rightarrow> heard \<Rightarrow> (broker, unit) prog" where
  "queue_put q x = modify (\<lambda>b. b\<lparr>queues := (queues b)(q := queues b q @ [x])\<rparr>)"

definition deliver :: "crypto \<Rightarrow> message \<Rightarrow> topic_listener \<Rightarrow> (broker, unit) prog" where
  "deliver C m l =
     seq (lift_res (case ln_transform l of
            None \<Rightarrow> Inr (Some (Heard_message m)) | Some k \<Rightarrow> transform_of C k m)) (\<lambda>x.
     case x of None \<Rightarrow> return () | Some h \<Rightarrow> queue_put (ln_queue l) h)"

definition broker_send_to :: "crypto \<Rightarrow> topic \<Rightarrow> message \<Rightarrow> (broker, bool) prog" where
  "broker_send_to C t m =
     seq (touch_topic t) (\<lambda>ls.
     if ls = [] then return False
     else seq (for_each (deliver C m) ls) (\<lambda>_. return True))"

definition broker_broadcast :: "crypto \<Rightarrow> message \<Rightarrow> (broker, bool) prog" where
  "broker_broadcast C m = broker_send_to C Broadcast m"

definition broker_send :: "crypto \<Rightarrow> topic \<Rightarrow> message \<Rightarrow> (broker, bool) prog" where
  "broker_send C t m = (if t = Broadcast then broker_broadcast C m else broker_send_to C t m)"

definition listen_on_topic :: "topic \<Rightarrow> listener_kind option \<Rightarrow> (broker, topic_listener) prog" where
  "listen_on_topic t k b =
     (let l = \<lparr>ln_topic = t, ln_queue = next_queue b, ln_transform = k\<rparr> in
      (Inr l, b\<lparr>topics := dict_set t (topic_listeners t b @ [l]) (topics b),
                queues := (queues b)(next_queue b := []), next_queue := next_queue b + 1\<rparr>))"

definition listen_on_broadcast :: "listener_kind option \<Rightarrow> (broker, topic_listener) prog" where
  "listen_on_broadcast k = listen_on_topic Broadcast k"

definition listen_on :: "topic \<Rightarrow> listener_kind option \<Rightarrow> (broker, topic_listener) prog" where
  "listen_on t k = (if t = Broadcast then listen_on_broadcast k else listen_on_topic t k)"

definition stop_listen :: "topic_listener \<Rightarrow> (broker, unit) prog" where
  "stop_listen l =
     seq (touch_topic (ln_topic l)) (\<lambda>ls.
     if l \<in> set ls
     then modify (\<lambda>b. b\<lparr>topics := dict_set (ln_topic l) (remove1 l ls) (topics b)\<rparr>)
     else throw ValueError)"

text \<open>\<open>listener.get\<close>: the oldest message; \<open>None\<close> if the caller has to wait.\<close>

definition listener_get :: "topic_listener \<Rightarrow> broker \<Rightarrow> (heard \<times> broker) option" where
  "listener_get l b =
     (case queues b (ln_queue l) of
        [] \<Rightarrow> None
      | x # xs \<Rightarrow> Some (x, b\<lparr>queues := (queues b)(ln_queue l := xs)\<rparr>))"

definition empty_broker :: broker where
  "empty_broker = \<lparr>topics = [], queues = (\<lambda>_. []), next_queue = 0\<rparr>"

section \<open>The invariant of the broker\<close>

definition broker_ok :: "broker \<Rightarrow> bool" where
  "broker_ok b \<longleftrightarrow>
     (\<forall>t l. l \<in> set (topic_listeners t b) \<longrightarrow> ln_topic l = t \<and> ln_queue l < next_queue b) \<and>
     (\<forall>t. distinct (map ln_queue (topic_listeners t b)))"

lemma topic_listeners_set [simp]:
  "topic_listeners t (b\<lparr>topics := dict_set t' ls (topics b)\<rparr>) = (if t = t' then ls else topic_listeners t b)"
  "topic_listeners t (b\<lparr>queues := q\<rparr>) = topic_listeners t b"
  "topic_listeners t (b\<lparr>topics := ts, queues := q, next_queue := n\<rparr>) = topic_listeners t (b\<lparr>topics := ts\<rparr>)"
  by (simp_all add: topic_listeners_def)

lemma touch_topic_eq:
  "\<exists>b'. touch_topic t b = (Inr (topic_listeners t b), b') \<and> queues b' = queues b \<and>
     next_queue b' = next_queue b \<and> (\<forall>u. topic_listeners u b' = topic_listeners u b)"
  by (auto simp: touch_topic_def topic_listeners_def split: option.split)

lemma broker_ok_empty: "broker_ok empty_broker"
  by (simp add: broker_ok_def empty_broker_def topic_listeners_def)

lemma broker_ok_cong:
  "(\<And>t. topic_listeners t b' = topic_listeners t b) \<Longrightarrow> next_queue b' = next_queue b \<Longrightarrow>
    broker_ok b' = broker_ok b"
  by (simp add: broker_ok_def)

lemma listen_on_eq: "listen_on t k = listen_on_topic t k"
  by (simp add: listen_on_def listen_on_broadcast_def)

lemma listen_on_ok:
  assumes "broker_ok b" shows "broker_ok (snd (listen_on t k b))"
proof -
  have "ln_queue l \<noteq> next_queue b" if "l \<in> set (topic_listeners u b)" for l u
    using that assms by (fastforce simp: broker_ok_def)
  then have "next_queue b \<notin> ln_queue ` set (topic_listeners u b)" for u by force
  then show ?thesis
    using assms by (auto simp: listen_on_eq listen_on_topic_def broker_ok_def Let_def less_Suc_eq)
qed

lemma deliver_listeners: "topic_listeners t (snd (deliver C m l b)) = topic_listeners t b"
  "next_queue (snd (deliver C m l b)) = next_queue b"
  by (simp_all add: deliver_def queue_put_def prog_simps split: sum.split option.split)

lemma deliver_all_listeners:
  "topic_listeners t (snd (for_each (deliver C m) ls b)) = topic_listeners t b \<and>
   next_queue (snd (for_each (deliver C m) ls b)) = next_queue b"
proof (induction ls arbitrary: b)
  case Nil
  then show ?case by (simp add: return_def)
next
  case (Cons l ls)
  obtain r b' where r: "deliver C m l b = (r, b')" by fastforce
  then have "topic_listeners t b' = topic_listeners t b" "next_queue b' = next_queue b"
    using deliver_listeners(1) [of t C m l b] deliver_listeners(2) [where C = C and m = m and l = l and b = b]
    by simp_all
  then show ?case using Cons.IH [of b'] r by (simp add: seq_def split: sum.split)
qed

text \<open>What the broker puts into a queue when nobody's transform raises.\<close>

definition hears :: "crypto \<Rightarrow> message \<Rightarrow> topic_listener \<Rightarrow> heard list" where
  "hears C m l =
     (case ln_transform l of
        None \<Rightarrow> [Heard_message m]
      | Some k \<Rightarrow> (case transform_of C k m of Inr (Some h) \<Rightarrow> [h] | _ \<Rightarrow> []))"

definition hearing_raises :: "crypto \<Rightarrow> message \<Rightarrow> topic_listener \<Rightarrow> bool" where
  "hearing_raises C m l =
     (case ln_transform l of None \<Rightarrow> False | Some k \<Rightarrow> (case transform_of C k m of Inl _ \<Rightarrow> True | Inr _ \<Rightarrow> False))"

lemma deliver_eq:
  "\<not> hearing_raises C m l \<Longrightarrow>
    deliver C m l b = (Inr (), b\<lparr>queues := (queues b)(ln_queue l := queues b (ln_queue l) @ hears C m l)\<rparr>)"
  by (auto simp: deliver_def hears_def hearing_raises_def queue_put_def prog_simps
      split: option.splits sum.splits)

lemma deliver_all_eq:
  assumes "\<forall>l \<in> set ls. \<not> hearing_raises C m l" and "distinct (map ln_queue ls)"
  shows "\<exists>b'. for_each (deliver C m) ls b = (Inr (), b') \<and>
    (\<forall>l \<in> set ls. queues b' (ln_queue l) = queues b (ln_queue l) @ hears C m l) \<and>
    (\<forall>q. q \<notin> ln_queue ` set ls \<longrightarrow> queues b' q = queues b q)"
  using assms
proof (induction ls arbitrary: b)
  case Nil
  then show ?case by (simp add: return_def)
next
  case (Cons l ls)
  let ?b = "b\<lparr>queues := (queues b)(ln_queue l := queues b (ln_queue l) @ hears C m l)\<rparr>"
  obtain b' where b': "for_each (deliver C m) ls ?b = (Inr (), b')"
      "\<forall>l \<in> set ls. queues b' (ln_queue l) = queues ?b (ln_queue l) @ hears C m l"
      "\<forall>q. q \<notin> ln_queue ` set ls \<longrightarrow> queues b' q = queues ?b q"
    using Cons.IH [of ?b] Cons.prems by auto
  have "ln_queue k \<noteq> ln_queue l" if "k \<in> set ls" for k
    using that Cons.prems(2) by (metis distinct.simps(2) image_eqI list.set_map list.simps(9))
  moreover have "for_each (deliver C m) (l # ls) b = (Inr (), b')"
    using b'(1) Cons.prems(1) by (simp add: seq_Inr [OF deliver_eq])
  ultimately show ?case using b'(2,3) Cons.prems(2) by auto
qed

lemma broker_send_eq: "broker_send C t m = broker_send_to C t m"
  by (simp add: broker_send_def broker_broadcast_def)

section \<open>Properties\<close>

text \<open>A message sent to a topic reaches every listener of the topic exactly once, in the form
  its class hears it, and no other queue; the broker says whether there was a listener at all.\<close>

theorem broker_delivers:
  assumes "broker_ok b" and "\<forall>l \<in> set (topic_listeners t b). \<not> hearing_raises C m l"
  shows "\<exists>b'. broker_send C t m b = (Inr (topic_listeners t b \<noteq> []), b') \<and> broker_ok b' \<and>
    (\<forall>l \<in> set (topic_listeners t b). queues b' (ln_queue l) = queues b (ln_queue l) @ hears C m l) \<and>
    (\<forall>q. q \<notin> ln_queue ` set (topic_listeners t b) \<longrightarrow> queues b' q = queues b q)"
proof -
  let ?ls = "topic_listeners t b"
  obtain c where c: "touch_topic t b = (Inr ?ls, c)" "queues c = queues b"
      "next_queue c = next_queue b" "\<And>u. topic_listeners u c = topic_listeners u b"
    using touch_topic_eq by blast
  have d: "distinct (map ln_queue ?ls)" using assms(1) by (simp add: broker_ok_def)
  obtain b' where b': "for_each (deliver C m) ?ls c = (Inr (), b')"
      "\<forall>l \<in> set ?ls. queues b' (ln_queue l) = queues c (ln_queue l) @ hears C m l"
      "\<forall>q. q \<notin> ln_queue ` set ?ls \<longrightarrow> queues b' q = queues c q"
    using deliver_all_eq [OF assms(2) d] by blast
  have ok: "broker_ok b'" "broker_ok c"
    using deliver_all_listeners [of _ C m ?ls c] b'(1) c(3,4) assms(1)
    by (simp_all add: broker_ok_def)
  show ?thesis
  proof (cases "?ls = []")
    case True
    then show ?thesis
      using c ok(2) by (intro exI [of _ c]) (simp add: broker_send_eq broker_send_to_def seq_def return_def)
  next
    case False
    then have "broker_send C t m b = (Inr True, b')"
      using c(1) b'(1) by (simp add: broker_send_eq broker_send_to_def seq_def return_def)
    then show ?thesis using False b'(2,3) c(2) ok(1) by auto
  qed
qed

definition demo_broker :: broker where
  "demo_broker = snd (listen_on Broadcast (Some OfferTakenListener)
     (snd (listen_on Broadcast (Some CommitmentListener) empty_broker)))"

theorem broker_delivers_witness:
  "\<exists>b'. broker_send example_crypto Broadcast (OfferTaken 7 None) demo_broker = (Inr True, b') \<and>
     queues b' 1 = [Heard_offer_id 7] \<and> queues b' 0 = []"
proof -
  have ls: "topic_listeners Broadcast demo_broker =
      [\<lparr>ln_topic = Broadcast, ln_queue = 0, ln_transform = Some CommitmentListener\<rparr>,
       \<lparr>ln_topic = Broadcast, ln_queue = 1, ln_transform = Some OfferTakenListener\<rparr>]"
    and q: "queues demo_broker 0 = []" "queues demo_broker 1 = []"
    by (simp_all add: demo_broker_def listen_on_def listen_on_broadcast_def listen_on_topic_def
        empty_broker_def topic_listeners_def dict_get_def dict_set_def Let_def)
  have ok: "broker_ok demo_broker" by (simp add: demo_broker_def listen_on_ok broker_ok_empty)
  have h: "transform_of example_crypto CommitmentListener (OfferTaken 7 None) = Inr None"
      "transform_of example_crypto OfferTakenListener (OfferTaken 7 None) = Inr (Some (Heard_offer_id 7))"
    by (simp_all add: transform_of_def instance_transform_def offer_taken_transform_def is_instance_def)
  have "\<forall>l \<in> set (topic_listeners Broadcast demo_broker).
      \<not> hearing_raises example_crypto (OfferTaken 7 None) l"
    by (simp add: ls hearing_raises_def h)
  from broker_delivers [OF ok this] obtain b' where b':
      "broker_send example_crypto Broadcast (OfferTaken 7 None) demo_broker = (Inr True, b')"
      "queues b' 0 = queues demo_broker 0 @ hears example_crypto (OfferTaken 7 None)
         \<lparr>ln_topic = Broadcast, ln_queue = 0, ln_transform = Some CommitmentListener\<rparr>"
      "queues b' 1 = queues demo_broker 1 @ hears example_crypto (OfferTaken 7 None)
         \<lparr>ln_topic = Broadcast, ln_queue = 1, ln_transform = Some OfferTakenListener\<rparr>"
    unfolding ls by auto
  then show ?thesis by (simp add: q hears_def h del: One_nat_def)
qed

text \<open>Every class of listener hears exactly the messages of its class: the taker listener only
  proven offers with the id of its offer, the one for executions the messages of completed swaps
  too, whose class derives from the executions.\<close>

theorem listeners_hear:
  "(taker_transform i m \<noteq> None \<longleftrightarrow> class_of m = C_ProvenOffer \<and> m_offer_id (m_offer m) = i) \<and>
   (offer_taken_transform m \<noteq> None \<longleftrightarrow> class_of m = C_OfferTaken) \<and>
   (transform_of C SwapExecutionListener m \<noteq> Inr None \<longleftrightarrow> class_of m \<in> {C_SwapExecution, C_SwapCompleted}) \<and>
   (transform_of C CommitmentListener m \<noteq> Inr None \<longleftrightarrow> class_of m = C_Commitment) \<and>
   (transform_of C CancellationListener m \<noteq> Inr None \<longleftrightarrow> class_of m = C_Cancellation) \<and>
   (swap_completed_transform m \<noteq> None \<longleftrightarrow> class_of m = C_SwapCompleted) \<and>
   (commitment_proof_transform m \<noteq> None \<longleftrightarrow> class_of m \<in> {C_CommitmentProof, C_CancellationProof})"
  by (auto simp: taker_transform_def offer_taken_transform_def transform_of_def instance_transform_def
      swap_completed_transform_def commitment_proof_transform_def is_instance_leaf
      is_instance_SwapExecution)

end
