(* ===== verification/Raiden_Listener.thy ===== *)
theory Raiden_Listener
  imports Node
begin

text \<open>
  How a node learns of payments and channels: the poll of the payment node's log
  (\<open>trader/listener/listen_for_events.py\<close>), the events (\<open>trader/listener/events.py\<close>), the filters
  (\<open>architecture/filter.py\<close>, \<open>trader/listener/filter.py\<close>) and the listener that turns expected
  events into state changes (\<open>raiden_listener.py\<close>, \<open>handle_events.py\<close>). A filter serves once.
\<close>

section \<open>Events and filters\<close>

datatype raiden_event =
    PaymentReceivedEvent payment
  | ChannelStatusRaidenEvent string

fun identifier_tuple :: "payment \<Rightarrow> bytes \<times> int" where
  "identifier_tuple p = (pay_initiator p, pay_identifier p)"

datatype event_filter =
    TransferReceivedFilter bytes int
  | ChannelFilter string

fun filter_accepts :: "event_filter \<Rightarrow> raiden_event \<Rightarrow> bool" where
  "filter_accepts (TransferReceivedFilter initiator identifier) ev =
     (case ev of
        PaymentReceivedEvent p \<Rightarrow>
          if pay_initiator p \<noteq> initiator then False
          else if pay_identifier p \<noteq> identifier then False else True
      | _ \<Rightarrow> False)"
| "filter_accepts (ChannelFilter _) ev = (case ev of ChannelStatusRaidenEvent _ \<Rightarrow> True | _ \<Rightarrow> False)"

text \<open>\<open>_transform\<close> reads the event as one of the class its filter accepts.\<close>

fun filter_transform :: "event_filter \<Rightarrow> raiden_event \<Rightarrow> state_change res" where
  "filter_transform (TransferReceivedFilter _ _) ev =
     (case ev of
        PaymentReceivedEvent p \<Rightarrow> Inr (TransferReceivedStateChange p)
      | _ \<Rightarrow> Inl AttributeError)"
| "filter_transform (ChannelFilter _) ev =
     (case ev of ChannelStatusRaidenEvent d \<Rightarrow> Inr (ChannelStatusStateChange d) | _ \<Rightarrow> Inl AttributeError)"

definition filter_process :: "event_filter \<Rightarrow> raiden_event \<Rightarrow> state_change option res" where
  "filter_process f ev =
     (if filter_accepts f ev
      then bind_res (filter_transform f ev) (\<lambda>ch. Inr (Some ch)) else Inr None)"

section \<open>The listener\<close>

text \<open>A filter is an object: filters with the same contents are told apart by their number.\<close>

record listener =
  event_filters :: "(nat \<times> event_filter) list"
  next_filter :: nat

definition add_event_filter :: "event_filter \<Rightarrow> listener \<Rightarrow> listener" where
  "add_event_filter f l = l\<lparr>event_filters := event_filters l @ [(next_filter l, f)],
     next_filter := next_filter l + 1\<rparr>"

text \<open>The loop over the copied list; the original loses the filters that have served.\<close>

fun scan_filters ::
  "raiden_event \<Rightarrow> (nat \<times> event_filter) list \<Rightarrow> state_change list \<Rightarrow> listener \<Rightarrow>
     (state_change list \<times> listener) res" where
  "scan_filters ev [] chs l = Inr (chs, l)"
| "scan_filters ev (f # fs) chs l =
     bind_res (filter_process (snd f) ev) (\<lambda>c.
     case c of
       None \<Rightarrow> scan_filters ev fs chs l
     | Some ch \<Rightarrow> scan_filters ev fs (chs @ [ch]) (l\<lparr>event_filters := remove1 f (event_filters l)\<rparr>))"

definition new_raiden_event :: "raiden_event \<Rightarrow> listener \<Rightarrow> (state_change list \<times> listener) res" where
  "new_raiden_event ev l = scan_filters ev (event_filters l) [] l"

datatype listener_event =
    RaidenEvent raiden_event
  | ExpectInbound bytes int
  | NewChannelFilter string

definition handle_listener_event ::
  "listener_event \<Rightarrow> listener \<Rightarrow> (state_change list \<times> listener) res" where
  "handle_listener_event ev l =
     (case ev of
        RaidenEvent e \<Rightarrow> new_raiden_event e l
      | ExpectInbound who i \<Rightarrow> Inr ([], add_event_filter (TransferReceivedFilter who i) l)
      | NewChannelFilter d \<Rightarrow> Inr ([], add_event_filter (ChannelFilter d) l))"

text \<open>The events of a node that the listener consumes.\<close>

fun listener_event_of :: "node_event \<Rightarrow> listener_event option" where
  "listener_event_of (ExpectInboundEvent who i) = Some (ExpectInbound who i)"
| "listener_event_of (ChannelFilterEvent d) = Some (NewChannelFilter d)"
| "listener_event_of _ = None"

section \<open>The poll\<close>

text \<open>An entry of the log; a missing key is \<open>None\<close>.\<close>

record raw_event =
  raw_type :: "string option"
  raw_initiator :: "string option"
  raw_amount :: "int option"
  raw_identifier :: "int option"

text \<open>The decoder of addresses belongs to another package and is an argument.\<close>

definition encode_event :: "(string \<Rightarrow> bytes res) \<Rightarrow> raw_event \<Rightarrow> payment option res" where
  "encode_event binary_address e =
     bind_res (required (raw_type e)) (\<lambda>ty.
     if ty = ''EventPaymentReceivedSuccess'' then
       bind_res (required (raw_initiator e)) (\<lambda>i.
       bind_res (binary_address i) (\<lambda>who.
       bind_res (required (raw_amount e)) (\<lambda>a.
       bind_res (required (raw_identifier e)) (\<lambda>n.
         Inr (Some \<lparr>pay_initiator = who, pay_amount = a, pay_identifier = n\<rparr>)))))
     else Inr None)"

record poll_state =
  raiden_events :: "(bytes \<times> int, payment) dict"
  poll_dispatched :: "payment list"

definition poll_entry :: "(string \<Rightarrow> bytes res) \<Rightarrow> raw_event \<Rightarrow> (poll_state, unit) prog" where
  "poll_entry binary_address e =
     seq (lift_res (encode_event binary_address e)) (\<lambda>ev.
     case ev of
       None \<Rightarrow> return ()
     | Some p \<Rightarrow>
         seq (get_state (\<lambda>s. dict_mem (identifier_tuple p) (raiden_events s))) (\<lambda>seen.
         if seen then return ()
         else seq (modify (\<lambda>s. s\<lparr>raiden_events := dict_set (identifier_tuple p) p (raiden_events s)\<rparr>))
           (\<lambda>_. modify (\<lambda>s. s\<lparr>poll_dispatched := poll_dispatched s @ [p]\<rparr>))))"

definition request_events :: "(string \<Rightarrow> bytes res) \<Rightarrow> raw_event list \<Rightarrow> (poll_state, unit) prog" where
  "request_events binary_address raw_data = for_each (poll_entry binary_address) raw_data"

definition poll_start :: poll_state where
  "poll_start = \<lparr>raiden_events = [], poll_dispatched = []\<rparr>"

section \<open>Facts about the listener\<close>

definition filters_ok :: "listener \<Rightarrow> bool" where
  "filters_ok l \<longleftrightarrow> distinct (map fst (event_filters l)) \<and>
     (\<forall>f \<in> set (event_filters l). fst f < next_filter l)"

fun change_of :: "raiden_event \<Rightarrow> state_change" where
  "change_of (PaymentReceivedEvent p) = TransferReceivedStateChange p"
| "change_of (ChannelStatusRaidenEvent d) = ChannelStatusStateChange d"

lemma filter_process_eq:
  "filter_process f ev = Inr (if filter_accepts f ev then Some (change_of ev) else None)"
  by (cases f; cases ev) (auto simp: filter_process_def)

lemma scan_filters_eq:
  assumes "distinct (map fst (gs @ fs))"
  shows "scan_filters ev fs chs (l\<lparr>event_filters := gs @ fs\<rparr>) =
    Inr (chs @ map (\<lambda>_. change_of ev) (filter (\<lambda>f. filter_accepts (snd f) ev) fs),
         l\<lparr>event_filters := gs @ filter (\<lambda>f. \<not> filter_accepts (snd f) ev) fs\<rparr>)"
  using assms
proof (induction fs arbitrary: gs chs)
  case Nil
  then show ?case by simp
next
  case (Cons f fs)
  show ?case
  proof (cases "filter_accepts (snd f) ev")
    case True
    have "remove1 f (gs @ f # fs) = gs @ fs"
      using Cons.prems by (force simp: remove1_append)
    then show ?thesis
      using Cons.IH [of gs "chs @ [change_of ev]"] Cons.prems True by (simp add: filter_process_eq)
  next
    case False
    then show ?thesis
      using Cons.IH [of "gs @ [f]" chs] Cons.prems by (simp add: filter_process_eq)
  qed
qed

lemma new_raiden_event_eq:
  assumes "filters_ok l"
  shows "new_raiden_event ev l =
    Inr (map (\<lambda>_. change_of ev) (filter (\<lambda>f. filter_accepts (snd f) ev) (event_filters l)),
         l\<lparr>event_filters := filter (\<lambda>f. \<not> filter_accepts (snd f) ev) (event_filters l)\<rparr>)"
  using scan_filters_eq [of "[]" "event_filters l" ev "[]" l] assms
  by (simp add: new_raiden_event_def filters_ok_def)

lemma filters_ok_add: "filters_ok l \<Longrightarrow> filters_ok (add_event_filter f l)"
  by (auto simp: filters_ok_def add_event_filter_def)

lemma filters_ok_new:
  "filters_ok l \<Longrightarrow> new_raiden_event ev l = Inr (chs, l') \<Longrightarrow> filters_ok l'"
  by (force simp: new_raiden_event_eq filters_ok_def distinct_map_filter)

text \<open>A run of the listener over the events of its queue, with all the state changes it reports.\<close>

fun listen :: "listener_event list \<Rightarrow> listener \<Rightarrow> (state_change list \<times> listener) res" where
  "listen [] l = Inr ([], l)"
| "listen (ev # evs) l =
     bind_res (handle_listener_event ev l) (\<lambda>(chs, l'). bind_res (listen evs l') (\<lambda>(chs', l'').
       Inr (chs @ chs', l'')))"

lemma handle_listener_ok:
  assumes "filters_ok l"
  shows "\<exists>chs l'. handle_listener_event ev l = Inr (chs, l') \<and> filters_ok l'"
  using assms filters_ok_new [OF assms] filters_ok_add [OF assms]
  by (cases ev) (auto simp: handle_listener_event_def new_raiden_event_eq)

text \<open>What is waited for, and what was reported, about one payment.\<close>

definition waiting :: "bytes \<Rightarrow> int \<Rightarrow> listener \<Rightarrow> nat" where
  "waiting who i l = length (filter (\<lambda>f. snd f = TransferReceivedFilter who i) (event_filters l))"

definition reports :: "bytes \<Rightarrow> int \<Rightarrow> state_change list \<Rightarrow> nat" where
  "reports who i chs = length (filter (\<lambda>ch. case ch of
     TransferReceivedStateChange p \<Rightarrow> identifier_tuple p = (who, i) | _ \<Rightarrow> False) chs)"

definition expected :: "bytes \<Rightarrow> int \<Rightarrow> listener_event list \<Rightarrow> nat" where
  "expected who i evs = length (filter (\<lambda>ev. ev = ExpectInbound who i) evs)"

lemma reports_append: "reports who i (xs @ ys) = reports who i xs + reports who i ys"
  by (simp add: reports_def)

lemma accepts_payment:
  "filter_accepts f (PaymentReceivedEvent p) \<longleftrightarrow>
     f = TransferReceivedFilter (pay_initiator p) (pay_identifier p)"
  by (cases f) auto

lemma accepts_status: "filter_accepts (TransferReceivedFilter who i) (ChannelStatusRaidenEvent d) = False"
  by simp

lemma handle_listener_count:
  assumes "filters_ok l" and "handle_listener_event ev l = Inr (chs, l')"
  shows "reports who i chs + waiting who i l' =
    waiting who i l + (if ev = ExpectInbound who i then 1 else 0)"
proof (cases ev)
  case (RaidenEvent e)
  show ?thesis
  proof (cases e)
    case (PaymentReceivedEvent p)
    show ?thesis
    proof (cases "identifier_tuple p = (who, i)")
      case True
      then have f: "filter_accepts f e \<longleftrightarrow> f = TransferReceivedFilter who i" for f
        using PaymentReceivedEvent by (auto simp: accepts_payment)
      have l': "chs = map (\<lambda>_. change_of e) (filter (\<lambda>f. snd f = TransferReceivedFilter who i) (event_filters l))"
          "event_filters l' = filter (\<lambda>f. snd f \<noteq> TransferReceivedFilter who i) (event_filters l)"
        using assms RaidenEvent by (auto simp: handle_listener_event_def new_raiden_event_eq f)
      have "waiting who i l' = 0" by (auto simp: waiting_def l' filter_empty_conv)
      moreover have "reports who i chs = waiting who i l"
        using True PaymentReceivedEvent by (simp add: reports_def waiting_def l' filter_map o_def)
      ultimately show ?thesis using RaidenEvent by simp
    next
      case False
      have "f \<noteq> TransferReceivedFilter who i" if "filter_accepts f e" for f
        using that False PaymentReceivedEvent by (auto simp: accepts_payment)
      then have "filter (\<lambda>f. snd f = TransferReceivedFilter who i \<and> \<not> filter_accepts (snd f) e) xs =
          filter (\<lambda>f. snd f = TransferReceivedFilter who i) xs" for xs :: "(nat \<times> event_filter) list"
        by (intro filter_cong) auto
      then show ?thesis
        using assms RaidenEvent False PaymentReceivedEvent
        by (auto simp: handle_listener_event_def new_raiden_event_eq reports_def waiting_def conj_commute)
    qed
  next
    case (ChannelStatusRaidenEvent d)
    have "filter (\<lambda>f. snd f = TransferReceivedFilter who i \<and> \<not> filter_accepts (snd f) e) xs =
        filter (\<lambda>f. snd f = TransferReceivedFilter who i) xs" for xs :: "(nat \<times> event_filter) list"
      using ChannelStatusRaidenEvent by (intro filter_cong) auto
    then show ?thesis
      using assms RaidenEvent ChannelStatusRaidenEvent
      by (auto simp: handle_listener_event_def new_raiden_event_eq reports_def waiting_def conj_commute)
  qed
qed (use assms in \<open>auto simp: handle_listener_event_def add_event_filter_def reports_def waiting_def\<close>)

lemma listen_count:
  assumes "filters_ok l" and "listen evs l = Inr (chs, l')"
  shows "reports who i chs + waiting who i l' = waiting who i l + expected who i evs"
  using assms
proof (induction evs arbitrary: l chs)
  case Nil
  then show ?case by (simp add: reports_def expected_def)
next
  case (Cons ev evs)
  obtain c k c' where k: "handle_listener_event ev l = Inr (c, k)" "listen evs k = Inr (c', l')"
      "chs = c @ c'"
    using Cons.prems(2) by (auto simp: bind_res_Inr_iff)
  have "filters_ok k" using handle_listener_ok [OF Cons.prems(1), of ev] k(1) by auto
  then show ?case
    using Cons.IH [OF _ k(2)] handle_listener_count [OF Cons.prems(1) k(1), of who i] k(3)
    by (auto simp: reports_append expected_def)
qed

section \<open>Facts about the poll\<close>

definition poll_ok :: "poll_state \<Rightarrow> bool" where
  "poll_ok s \<longleftrightarrow> raiden_events s = map (\<lambda>p. (identifier_tuple p, p)) (poll_dispatched s) \<and>
     distinct (map identifier_tuple (poll_dispatched s))"

lemma poll_ok_start: "poll_ok poll_start"
  by (simp add: poll_ok_def poll_start_def)

lemma poll_mem: "poll_ok s \<Longrightarrow>
    dict_mem k (raiden_events s) \<longleftrightarrow> k \<in> identifier_tuple ` set (poll_dispatched s)"
  by (force simp: poll_ok_def dict_mem_iff_key dict_keys_def simp del: identifier_tuple.simps)

lemma poll_entry_eq:
  assumes "poll_ok s"
  shows "poll_entry addr e s =
    (case encode_event addr e of
       Inl err \<Rightarrow> (Inl err, s)
     | Inr None \<Rightarrow> (Inr (), s)
     | Inr (Some p) \<Rightarrow> (Inr (),
         if identifier_tuple p \<in> identifier_tuple ` set (poll_dispatched s) then s
         else \<lparr>raiden_events = raiden_events s @ [(identifier_tuple p, p)],
               poll_dispatched = poll_dispatched s @ [p]\<rparr>))"
  using poll_mem [OF assms]
  by (auto simp: poll_entry_def prog_simps dict_set_new simp del: identifier_tuple.simps
      split: sum.split option.split)

lemma poll_entry_keeps: "preserves poll_ok (poll_entry addr e)"
proof (rule preservesI)
  fix s assume s: "poll_ok s"
  then show "poll_ok (snd (poll_entry addr e s))"
    by (auto simp: poll_entry_eq poll_ok_def simp del: identifier_tuple.simps
        split: sum.split option.split)
qed

lemma request_events_keeps: "preserves poll_ok (request_events addr raw)"
  unfolding request_events_def by (intro preserves_for_each poll_entry_keeps)

text \<open>Any number of polls; a poll whose data cannot be decoded ends early, and the next one goes on.\<close>

definition polls :: "(string \<Rightarrow> bytes res) \<Rightarrow> raw_event list list \<Rightarrow> poll_state \<Rightarrow> poll_state" where
  "polls addr raws s = fold (\<lambda>raw s. snd (request_events addr raw s)) raws s"

lemma polls_keep: "poll_ok s \<Longrightarrow> poll_ok (polls addr raws s)"
  by (induction raws arbitrary: s)
    (use request_events_keeps in \<open>auto simp: polls_def preserves_def\<close>)

section \<open>Properties\<close>

text \<open>C31: no expectation of a payment is lost or answered twice: over any sequence of events the
  reports of a payment, plus the filters still waiting for it, are the filters that waited before
  plus the expectations that came in.\<close>

theorem payments_reported_once:
  assumes "filters_ok l" and "listen evs l = Inr (chs, l')"
  shows "reports who i chs + waiting who i l' = waiting who i l + expected who i evs"
  using assms by (rule listen_count)

theorem payments_reported_once_witness:
  "reports [2] 5 [TransferReceivedStateChange \<lparr>pay_initiator = [2], pay_amount = 1, pay_identifier = 5\<rparr>] +
   waiting [2] 5 \<lparr>event_filters = [], next_filter = 1\<rparr> = 1"
proof -
  let ?p = "\<lparr>pay_initiator = [2], pay_amount = 1, pay_identifier = 5\<rparr>"
  have "listen [ExpectInbound [2] 5, RaidenEvent (PaymentReceivedEvent ?p),
      RaidenEvent (PaymentReceivedEvent ?p)] \<lparr>event_filters = [], next_filter = 0\<rparr> =
    Inr ([TransferReceivedStateChange ?p], \<lparr>event_filters = [], next_filter = 1\<rparr>)"
    by (simp add: handle_listener_event_def add_event_filter_def new_raiden_event_def filter_process_def)
  then show ?thesis
    using payments_reported_once [of "\<lparr>event_filters = [], next_filter = 0\<rparr>" _ _ _ "[2]" 5]
    by (fastforce simp: filters_ok_def waiting_def expected_def)
qed

text \<open>The poll reports each payment of the payment node at most once, whatever the log contains
  and however often it is read: no two reported payments have the same initiator and identifier,
  and exactly the reported ones are remembered.\<close>

theorem poll_reports_once:
  "distinct (map identifier_tuple (poll_dispatched (polls addr raws poll_start))) \<and>
   dict_keys (raiden_events (polls addr raws poll_start)) =
     map identifier_tuple (poll_dispatched (polls addr raws poll_start))"
  using polls_keep [OF poll_ok_start, of addr raws]
  by (simp add: poll_ok_def dict_keys_def o_def del: identifier_tuple.simps)

end
