(* ===== verification/Clients.thy ===== *)
theory Clients
  imports Broker Raiden_Listener
begin

text \<open>
  The other consumers of a node's events and what they send out: the client of the commitment
  service (\<open>commitment_service/client.py\<close>, \<open>events.py\<close>, \<open>handle_events.py\<close>, \<open>tasks.py\<close>), the transport
  (\<open>transport/events.py\<close>, \<open>handle_events.py\<close>, \<open>transport.py\<close>), the trader (\<open>trader/events.py\<close>,
  \<open>handle_events.py\<close>, the transfers of \<open>trader/client.py\<close>), and the dispatch of events to their queues
  (\<open>architecture/event_architecture.py\<close>). HTTP requests leave the model as records.
\<close>

section \<open>Events\<close>

datatype app_event =
    NodeEvent node_event
  | CommitmentMsgEvent bytes nat int
  | CancellationMsgEvent bytes int
  | SendExecutedEvent bytes int int
  | BroadcastEvent message
  | TransferEvent string bytes int int

datatype event_type = TraderEvent | CommitmentServiceEvent | TransportEvent | RaidenListenerEvent

definition event_type :: "app_event \<Rightarrow> event_type" where
  "event_type ev =
     (case ev of
        NodeEvent e \<Rightarrow>
          (case e of
             CommitEvent _ \<Rightarrow> CommitmentServiceEvent
           | CommitmentProvedEvent _ \<Rightarrow> CommitmentServiceEvent
           | ReceivedInboundEvent _ _ \<Rightarrow> CommitmentServiceEvent
           | CancellationRequestEvent _ \<Rightarrow> CommitmentServiceEvent
           | SendProvenOfferEvent _ _ \<Rightarrow> TransportEvent
           | SwapInitEvent _ \<Rightarrow> TraderEvent
           | MakeChannelEvent _ _ _ \<Rightarrow> TraderEvent
           | ExpectInboundEvent _ _ \<Rightarrow> RaidenListenerEvent
           | ChannelFilterEvent _ \<Rightarrow> RaidenListenerEvent)
      | TransferEvent _ _ _ _ \<Rightarrow> TraderEvent
      | _ \<Rightarrow> TransportEvent)"

text \<open>A consumer takes the events of its type, in the order of their dispatch.\<close>

type_synonym ('t, 'e) consumers = "('t \<times> 'e list) list"

definition put_event :: "('e \<Rightarrow> 't) \<Rightarrow> 'e \<Rightarrow> ('t, 'e) consumers \<Rightarrow> ('t, 'e) consumers" where
  "put_event ty ev cs = map (\<lambda>(t, q). (t, if ty ev = t then q @ [ev] else q)) cs"

fun dispatch_to :: "('e \<Rightarrow> 't) \<Rightarrow> 'e list \<Rightarrow> ('t, 'e) consumers \<Rightarrow> ('t, 'e) consumers" where
  "dispatch_to ty [] cs = cs"
| "dispatch_to ty (ev # evs) cs = dispatch_to ty evs (put_event ty ev cs)"

definition connect_consumer :: "'t \<Rightarrow> ('t, 'e) consumers \<Rightarrow> ('t, 'e) consumers" where
  "connect_consumer t cs = cs @ [(t, [])]"

text \<open>\<open>App._setup_event_handling\<close>.\<close>

definition app_consumers :: "(event_type, 'e) consumers" where
  "app_consumers = connect_consumer RaidenListenerEvent (connect_consumer TransportEvent
     (connect_consumer CommitmentServiceEvent (connect_consumer TraderEvent [])))"

section \<open>The client of the commitment service\<close>

definition fee_address :: string where
  "fee_address = ''0xe6ff467647e65e80e70597fC43a74Ea698c678A2''"

definition commitment_amount :: int where
  "commitment_amount = 10 ^ 18"

record cs_client =
  cc_service :: bytes
  cc_amount :: int

definition mk_cs_client :: "bytes \<Rightarrow> cs_client" where
  "mk_cs_client service = \<lparr>cc_service = service, cc_amount = commitment_amount\<rparr>"

definition transfer_commitment_event :: "cs_client \<Rightarrow> int \<Rightarrow> int \<Rightarrow> app_event" where
  "transfer_commitment_event c offer_id amount = TransferEvent fee_address (cc_service c) amount offer_id"

definition commit :: "cs_client \<Rightarrow> nat \<Rightarrow> offer_obj \<Rightarrow> app_event list" where
  "commit c r w = [CommitmentMsgEvent (cc_service c) r (cc_amount c),
                   transfer_commitment_event c (o_id w) (cc_amount c)]"

definition received_inbound_from_swap :: "cs_client \<Rightarrow> datetime \<Rightarrow> int \<Rightarrow> app_event list res" where
  "received_inbound_from_swap c now i =
     bind_res (time_now now) (\<lambda>ts.
       Inr [SendExecutedEvent (cc_service c) i ts, NodeEvent (ExpectInboundEvent (cc_service c) i)])"

definition request_cancellation :: "cs_client \<Rightarrow> offer_obj \<Rightarrow> app_event list" where
  "request_cancellation c w = [CancellationMsgEvent (cc_service c) (o_id w)]"

text \<open>What a handler dispatches, and the offers it starts to wait for a taker of.\<close>

definition cs_handle_event ::
  "cs_client \<Rightarrow> datetime \<Rightarrow> (nat \<Rightarrow> offer_obj) \<Rightarrow> node_event \<Rightarrow> (app_event list \<times> int list) res" where
  "cs_handle_event c now objs ev =
     (case ev of
        CommitEvent r \<Rightarrow> Inr (commit c r (objs r), [])
      | CommitmentProvedEvent r \<Rightarrow> Inr ([], [o_id (objs r)])
      | ReceivedInboundEvent r _ \<Rightarrow>
          bind_res (received_inbound_from_swap c now (o_id (objs r))) (\<lambda>evs. Inr (evs, []))
      | CancellationRequestEvent r \<Rightarrow> Inr (request_cancellation c (objs r), [])
      | _ \<Rightarrow> Inr ([], []))"

text \<open>\<open>wait_for_taker\<close> once its listener has heard something.\<close>

definition taker_called :: "crypto \<Rightarrow> heard \<Rightarrow> state_change res" where
  "taker_called C h =
     (case h of
        Heard_message m \<Rightarrow>
          bind_res (sender C m) (\<lambda>who.
            Inr (TakerCallStateChange (m_offer_id (m_offer m)) who (m_commitment_proof m)))
      | _ \<Rightarrow> Inl AttributeError)"

definition commitment_proof_process :: "heard \<Rightarrow> state_change res" where
  "commitment_proof_process h =
     (case h of
        Heard_message m \<Rightarrow>
          if \<not> (is_instance m C_CommitmentProof \<or> is_instance m C_CancellationProof) then Inl AssertionError
          else if is_instance m C_CommitmentProof
          then Inr (CommitmentProofStateChange (m_commitment_sig m) m)
          else Inr (CancellationProofStateChange m)
      | _ \<Rightarrow> Inl AssertionError)"

section \<open>Transport\<close>

text \<open>The message of an event: made when it is first asked for, from the offer as it is then.\<close>

definition commitment_msg :: "crypto \<Rightarrow> token_pair \<Rightarrow> offer_obj \<Rightarrow> int \<Rightarrow> message res" where
  "commitment_msg C p w amount =
     bind_res (msg_hash C (create_offer_msg (basic_offer.truncate w) p)) (\<lambda>h.
       Inr (Commitment (o_id w) h (o_timeout w) amount None))"

definition proven_offer_msg :: "token_pair \<Rightarrow> offer_obj \<Rightarrow> message" where
  "proven_offer_msg p w = ProvenOffer (create_offer_msg (basic_offer.truncate w) p) (f_proof w) None"

definition event_message ::
  "crypto \<Rightarrow> token_pair \<Rightarrow> (nat \<Rightarrow> offer_obj) \<Rightarrow> app_event \<Rightarrow> (topic \<times> message) option res" where
  "event_message C p objs ev =
     (case ev of
        NodeEvent (SendProvenOfferEvent r target) \<Rightarrow>
          Inr (Some (case target of None \<Rightarrow> Broadcast | Some a \<Rightarrow> Address a, proven_offer_msg p (objs r)))
      | CommitmentMsgEvent target r amount \<Rightarrow>
          bind_res (commitment_msg C p (objs r) amount) (\<lambda>m. Inr (Some (Address target, m)))
      | CancellationMsgEvent target i \<Rightarrow> Inr (Some (Address target, Cancellation i None))
      | SendExecutedEvent target i ts \<Rightarrow> Inr (Some (Address target, SwapExecution i ts None))
      | BroadcastEvent m \<Rightarrow> Inr (Some (Broadcast, m))
      | _ \<Rightarrow> Inr None)"

text \<open>Every event with a message but the plain broadcast is signed.\<close>

fun is_sign_event :: "app_event \<Rightarrow> bool" where
  "is_sign_event (NodeEvent (SendProvenOfferEvent _ _)) = True"
| "is_sign_event (CommitmentMsgEvent _ _ _) = True"
| "is_sign_event (CancellationMsgEvent _ _) = True"
| "is_sign_event (SendExecutedEvent _ _ _) = True"
| "is_sign_event _ = False"

definition transport_handle_event ::
  "crypto \<Rightarrow> bytes \<Rightarrow> token_pair \<Rightarrow> (nat \<Rightarrow> offer_obj) \<Rightarrow> app_event \<Rightarrow> (topic \<times> message) option res" where
  "transport_handle_event C key p objs ev =
     bind_res (event_message C p objs ev) (\<lambda>x.
     case x of
       None \<Rightarrow> Inr None
     | Some (t, m) \<Rightarrow>
         if is_sign_event ev
         then bind_res (sign C key \<lparr>content = m, is_mutable = True\<rparr>) (\<lambda>ob. Inr (Some (t, content ob)))
         else Inr (Some (t, m)))"

section \<open>Trader\<close>

text \<open>The encoders of the \<open>eth_utils\<close> package are arguments.\<close>

record encoders =
  encode_address :: "bytes \<Rightarrow> string"
  encode_token :: "string \<Rightarrow> string"
  encode_hex :: "bytes \<Rightarrow> string"

record payment_request =
  pr_token :: string
  pr_target :: string
  pr_amount :: int
  pr_identifier :: int
  pr_secret :: "string option"
  pr_secret_hash :: "string option"

definition transfer_request ::
  "encoders \<Rightarrow> string \<Rightarrow> bytes \<Rightarrow> int \<Rightarrow> int \<Rightarrow> bytes option \<Rightarrow> bytes option \<Rightarrow> payment_request res" where
  "transfer_request E token target amount identifier secret secret_hash =
     (let req = \<lparr>pr_token = encode_token E token, pr_target = encode_address E target, pr_amount = amount,
                 pr_identifier = identifier, pr_secret = None, pr_secret_hash = None\<rparr> in
      case secret of
        None \<Rightarrow> Inr req
      | Some sec \<Rightarrow>
          (case secret_hash of
             None \<Rightarrow> Inl TypeError
           | Some h \<Rightarrow> Inr (req\<lparr>pr_secret := Some (encode_hex E sec),
                               pr_secret_hash := Some (encode_hex E h)\<rparr>)))"

definition after_transfer :: "int \<Rightarrow> int \<Rightarrow> int \<Rightarrow> int" where
  "after_transfer status amount balance = (if status = 200 then balance - amount else balance)"

definition get_secrets :: "match_rec \<Rightarrow> (bytes \<times> bytes) res" where
  "get_secrets m =
     (case mt_proof m of
        None \<Rightarrow> Inl AttributeError
      | Some p \<Rightarrow>
          if class_of p = C_CommitmentProof then Inr (m_secret p, m_secret_hash p)
          else Inl AttributeError)"

definition initiate_exchange ::
  "encoders \<Rightarrow> token_pair \<Rightarrow> (nat \<Rightarrow> offer_obj) \<Rightarrow> match_rec \<Rightarrow> payment_request res" where
  "initiate_exchange E p objs m =
     (case mt_offer m of
        None \<Rightarrow> Inl AttributeError
      | Some r \<Rightarrow>
          bind_res (get_secrets m) (\<lambda>(secret, secret_hash).
            transfer_request E (encode_address E (get_token_from_market m (objs r) p)) (mt_target m)
              (get_send_amount m (objs r)) (o_id (objs r)) (Some secret) (Some secret_hash)))"

datatype trader_request =
    PayRequest payment_request
  | ChannelRequest string string int

definition trader_handle_event ::
  "encoders \<Rightarrow> token_pair \<Rightarrow> (nat \<Rightarrow> offer_obj) \<Rightarrow> app_event \<Rightarrow> trader_request option res" where
  "trader_handle_event E p objs ev =
     (case ev of
        NodeEvent (SwapInitEvent m) \<Rightarrow>
          bind_res (initiate_exchange E p objs m) (\<lambda>req. Inr (Some (PayRequest req)))
      | TransferEvent token target amount identifier \<Rightarrow>
          bind_res (transfer_request E token target amount identifier None None) (\<lambda>req.
            Inr (Some (PayRequest req)))
      | NodeEvent (MakeChannelEvent partner token deposit) \<Rightarrow>
          Inr (Some (ChannelRequest partner token deposit))
      | _ \<Rightarrow> Inr None)"

end
