(* ===== verification/Exchange.thy ===== *)
theory Exchange
  imports Clients Node_Properties Commitment_Service Swap_Steps
begin

text \<open>
  How the components of two nodes and the commitment service fit together: what one side sends is
  what the other side acts on, and the payments of a swap lead the offer through its states.
\<close>

section \<open>Dispatch\<close>

lemma dispatch_to_eq:
  "dispatch_to ty evs cs = map (\<lambda>(t, q). (t, q @ filter (\<lambda>ev. ty ev = t) evs)) cs"
proof (induction evs arbitrary: cs)
  case (Cons ev evs)
  show ?case by (simp add: Cons.IH put_event_def split_def)
qed simp

text \<open>Dispatching loses, duplicates and reorders nothing: with the consumers of the application
  every event comes into the queue of the one consumer of its type, behind what was there, and
  the events of one type stay in their order.\<close>

theorem dispatch_routes:
  "map snd (dispatch_to event_type evs app_consumers) =
     map (\<lambda>t. filter (\<lambda>ev. event_type ev = t) evs)
       [TraderEvent, CommitmentServiceEvent, TransportEvent, RaidenListenerEvent] \<and>
   sum_list (map (length \<circ> snd) (dispatch_to event_type evs app_consumers)) = length evs"
proof
  show "map snd (dispatch_to event_type evs app_consumers) =
     map (\<lambda>t. filter (\<lambda>ev. event_type ev = t) evs)
       [TraderEvent, CommitmentServiceEvent, TransportEvent, RaidenListenerEvent]"
    by (simp add: dispatch_to_eq app_consumers_def connect_consumer_def)
  show "sum_list (map (length \<circ> snd) (dispatch_to event_type evs app_consumers)) = length evs"
    unfolding dispatch_to_eq app_consumers_def connect_consumer_def
    by (induction evs) (auto split: event_type.splits, (metis event_type.exhaust)+)
qed

section \<open>Messages between the parties\<close>

lemma signed_event:
  assumes "transport_handle_event C key p objs ev = Inr (Some (t, m))" and "is_sign_event ev"
    and "recovers C key addr"
  shows "\<exists>u sg. event_message C p objs ev = Inr (Some (t, u)) \<and> m = with_signature u sg \<and>
    sender C m = Inr addr"
proof -
  obtain u ob where u: "event_message C p objs ev = Inr (Some (t, u))"
      "sign C key \<lparr>content = u, is_mutable = True\<rparr> = Inr ob" "m = content ob"
    using assms(1,2)
    by (auto simp: transport_handle_event_def bind_res_Inr_iff split: option.splits prod.splits)
  have "\<exists>sg. content ob = with_signature u sg"
    using u(2) by (auto simp: sign_def bind_res_Inr_iff split: if_splits)
  moreover have "sender C m = Inr addr"
    using sign_sender [OF u(2), of addr] assms(3) u(3) by (simp add: recovers_def)
  ultimately show ?thesis using u by blast
qed

text \<open>A taker's answer reaches the maker as a call for the maker's offer: the proven offer that a
  node sends to the maker is heard by the listener waiting for the taker of that offer, and the
  state change made of it names the offer, the node that sent it, and the proof it sent.\<close>

theorem taker_answer_heard:
  assumes "transport_handle_event C key p objs (NodeEvent (SendProvenOfferEvent r (Some maker))) =
      Inr (Some (t, m))"
    and "recovers C key addr"
  shows "t = Address maker \<and> taker_transform (o_id (objs r)) m = Some (Heard_message m) \<and>
    taker_called C (Heard_message m) = Inr (TakerCallStateChange (o_id (objs r)) addr (f_proof (objs r)))"
proof -
  obtain u sg where u: "event_message C p objs (NodeEvent (SendProvenOfferEvent r (Some maker))) = Inr (Some (t, u))"
      "m = with_signature u sg" "sender C m = Inr addr"
    using signed_event [OF assms(1) _ assms(2)] by auto
  then have m: "t = Address maker"
      "m = ProvenOffer (create_offer_msg (basic_offer.truncate (objs r)) p) (f_proof (objs r)) sg"
    by (auto simp: event_message_def proven_offer_msg_def)
  have "m_offer_id (create_offer_msg (basic_offer.truncate (objs r)) p) = o_id (objs r)"
    by (simp add: create_offer_msg_def basic_offer.truncate_def)
  then show ?thesis
    using m u(3) by (simp add: taker_transform_def taker_called_def is_instance_def)
qed

text \<open>A node's offer reaches every other node as it is: whoever listens to the broadcast on the
  same market gets an entry with the same offer, the sender as initiator, and the proof.\<close>

theorem published_offer_heard:
  assumes "transport_handle_event C key p objs (NodeEvent (SendProvenOfferEvent r None)) =
      Inr (Some (t, m))"
    and "recovers C key addr" and "tp_base p \<noteq> tp_quote p"
  shows "t = Broadcast \<and> transform_of C (OfferListener p) m =
    Inr (Some (Heard_entry \<lparr>e_offer = basic_offer.truncate (objs r), e_initiator = addr,
      e_commitment_proof = f_proof (objs r)\<rparr>))"
proof -
  obtain u sg where u: "event_message C p objs (NodeEvent (SendProvenOfferEvent r None)) = Inr (Some (t, u))"
      "m = with_signature u sg" "sender C m = Inr addr"
    using signed_event [OF assms(1) _ assms(2)] by auto
  then have m: "t = Broadcast"
      "m = ProvenOffer (create_offer_msg (basic_offer.truncate (objs r)) p) (f_proof (objs r)) sg"
    by (auto simp: event_message_def proven_offer_msg_def)
  show ?thesis
    using offer_roundtrip [OF assms(3) m(2) u(3)] m(1) by (simp add: transform_of_def)
qed

text \<open>The commitment of a node opens a swap at the service: if there is none for the offer, the
  message the node sends makes one under the offer id that waits for the deposit of exactly this
  node and times out with the offer.\<close>

theorem commitment_opens_swap:
  assumes "transport_handle_event C key p objs (CommitmentMsgEvent svc r amount) = Inr (Some (t, m))"
    and "recovers C key addr"
    and "dict_get (o_id (objs r)) (swaps s) = None"
    and "seconds_to_timeout now (o_timeout (objs r)) = Inr sec"
  shows "t = Address svc \<and> (\<exists>s'. commitment_process C now secret m s = (Inr (), s') \<and>
    dict_get (o_id (objs r)) (swaps s') = Some (next_swap s) \<and>
    sw_state (swap_objs s' (next_swap s)) = Wait_for_maker \<and>
    maker_address C (swap_objs s' (next_swap s)) = Inr (Some addr) \<and>
    timers s' = timers s @ [(sec, next_swap s)])"
proof -
  obtain u sg where u: "event_message C p objs (CommitmentMsgEvent svc r amount) = Inr (Some (t, u))"
      "m = with_signature u sg" "sender C m = Inr addr"
    using signed_event [OF assms(1) _ assms(2)] by auto
  then obtain h where m: "t = Address svc" "m = Commitment (o_id (objs r)) h (o_timeout (objs r)) amount sg"
    by (auto simp: event_message_def commitment_msg_def bind_res_Inr_iff)
  let ?n = "next_swap s" and ?i = "o_id (objs r)"
  let ?w = "swap_init C ?i (Some ?i) True secret"
  define s1 where "s1 = s\<lparr>swap_objs := (swap_objs s)(?n := ?w), next_swap := ?n + 1,
    swaps := dict_set ?i ?n (swaps s)\<rparr>"
  have mk: "make_swap C secret ?i s = (Inr (Some ?n), s1)"
    using assms(3) by (simp add: make_swap_def id_collides_def dict_mem_def s1_def)
  define s2 where "s2 = (put_swap ?n (?w\<lparr>sw_state := Wait_for_maker, sw_maker_commitment_msg := Some m\<rparr>) s1)
      \<lparr>timers := timers s @ [(sec, ?n)]\<rparr>"
  have m': "has_offer_id m" "is_instance m C_Commitment" "m_offer_id m = ?i" "m_timeout m = o_timeout (objs r)"
    using m(2) by (simp_all add: has_offer_id_def is_instance_def)
  have s1: "swap_objs s1 ?n = ?w" "timers s1 = timers s" by (simp_all add: s1_def)
  have hand: "hand_maker_commitment_msg C now m ?n s1 = (Inr True, s2)"
    using maker_commitment_step [of s1 ?n C now m] assms(4) m'(4) s1
    by (simp add: swap_init_def Let_def s2_def)
  have "commitment_process C now secret m s = (Inr (), s2)"
    using assms(3) m' by (simp add: commitment_process_def seq_Inr [OF get_state_apply]
        seq_Inr [where m = "make_swap C secret ?i" and s = s, OF mk]
        seq_Inr [where m = "hand_maker_commitment_msg C now m ?n", OF hand] return_def)
  moreover have "dict_get ?i (swaps s2) = Some ?n" "timers s2 = timers s @ [(sec, ?n)]"
      "swap_objs s2 ?n = ?w\<lparr>sw_state := Wait_for_maker, sw_maker_commitment_msg := Some m\<rparr>"
    by (simp_all add: s2_def s1_def put_swap_def)
  ultimately show ?thesis using m(1) u(3) by (simp add: maker_address_def)
qed

section \<open>The payments of a swap\<close>

text \<open>Two payments complete a swap: with the offer exchanging and the payment of the other side
  expected, that payment, the execution message and expectation it makes the client of the
  commitment service dispatch, and the refund of the service lead the offer to its completion,
  and its timeout is gone; the listener reports each of the payments exactly once.\<close>

theorem two_payments_complete:
  assumes "filters_ok l" and "waiting (mt_target m) i l = 1" and "waiting (cc_service c) i l = 0"
    and "mt_target m \<noteq> cc_service c"
    and "dict_get i (matches s) = Some m" and "mt_offer m = Some r" and "o_id (offer_objs s r) = i"
    and "f_state (offer_objs s r) = Exchanging"
    and "identifier_tuple e = (mt_target m, i)" and "identifier_tuple e' = (cc_service c, i)"
    and "time_now now = Inr ts"
  shows "\<exists>l' l'' s' s''.
    listen [RaidenEvent (PaymentReceivedEvent e)] l = Inr ([TransferReceivedStateChange e], l') \<and>
    handle_state_change n1 a b (TransferReceivedStateChange e) s = (Inr (), s') \<and>
    dispatched s' = dispatched s @ [ReceivedInboundEvent r e] \<and>
    cs_handle_event c now (offer_objs s') (ReceivedInboundEvent r e) =
      Inr ([SendExecutedEvent (cc_service c) i ts, NodeEvent (ExpectInboundEvent (cc_service c) i)], []) \<and>
    listen [ExpectInbound (cc_service c) i, RaidenEvent (PaymentReceivedEvent e')] l' =
      Inr ([TransferReceivedStateChange e'], l'') \<and>
    handle_state_change n2 a' b' (TransferReceivedStateChange e') s' = (Inr (), s'') \<and>
    f_state (offer_objs s'' r) = Completed \<and> \<not> has_greenlet i s''"
proof -
  let ?svc = "cc_service c" and ?who = "mt_target m"
  let ?s' = "emit [ReceivedInboundEvent r e] (enter_state Wait_for_refund r s)"
  let ?s'' = "snd (clean_up_timeout i (enter_state Completed r ?s'))"
  have id: "pay_identifier e = i" "pay_initiator e = ?who" "pay_identifier e' = i" "pay_initiator e' = ?svc"
    using assms(9,10) by simp_all
  have acc: "filter_accepts f (PaymentReceivedEvent e) \<longleftrightarrow> f = TransferReceivedFilter ?who i"
      "filter_accepts f (PaymentReceivedEvent e') \<longleftrightarrow> f = TransferReceivedFilter ?svc i" for f
    using id by (simp_all add: accepts_payment)
  have one: "map (\<lambda>_. x) (filter (\<lambda>f. snd f = g) fs) = [x]"
    if "length (filter (\<lambda>f. snd f = g) fs) = 1" for x :: state_change and g and fs :: "(nat \<times> event_filter) list"
    using that by (cases "filter (\<lambda>f. snd f = g) fs") auto
  define l' where "l' = l\<lparr>event_filters := filter (\<lambda>f. snd f \<noteq> TransferReceivedFilter ?who i) (event_filters l)\<rparr>"
  have first: "new_raiden_event (PaymentReceivedEvent e) l = Inr ([TransferReceivedStateChange e], l')"
    using assms(2) by (simp add: new_raiden_event_eq [OF assms(1)] acc l'_def one waiting_def)
  then have ok': "filters_ok (add_event_filter (TransferReceivedFilter ?svc i) l')"
    using filters_ok_new [OF assms(1)] filters_ok_add by blast
  have "filter (\<lambda>f. snd f = TransferReceivedFilter ?svc i) (event_filters l') = []"
    using assms(3) by (auto simp: l'_def waiting_def filter_empty_conv)
  then have "length (filter (\<lambda>f. snd f = TransferReceivedFilter ?svc i)
      (event_filters (add_event_filter (TransferReceivedFilter ?svc i) l'))) = 1"
    by (simp add: add_event_filter_def)
  then obtain l'' where second: "new_raiden_event (PaymentReceivedEvent e')
      (add_event_filter (TransferReceivedFilter ?svc i) l') = Inr ([TransferReceivedStateChange e'], l'')"
    by (simp add: new_raiden_event_eq [OF ok'] acc one)
  have "handle_transfer_received e s = (Inr (), ?s')"
    using assms(5,6,8) id by (subst transfer_received_eq) (auto simp: Let_def)
  then have n1: "handle_state_change n1 a b (TransferReceivedStateChange e) s = (Inr (), ?s')"
    by (simp add: handle_state_change_def)
  have "handle_transfer_received e' ?s' = clean_up_timeout i (enter_state Completed r ?s')"
    using assms(5,6) id by (subst transfer_received_eq) (auto simp: Let_def)
  then have n2: "handle_state_change n2 a' b' (TransferReceivedStateChange e') ?s' = (Inr (), ?s'')"
    by (simp add: handle_state_change_def prod_eq_iff)
  have "offer_objs ?s'' = offer_objs (enter_state Completed r ?s')"
    by (simp add: clean_up_timeout_def modify_def kill_greenlet_def split: option.split)
  then have "f_state (offer_objs ?s'' r) = Completed" "\<not> has_greenlet i ?s''"
    by (simp_all add: has_greenlet_def dict_mem_def)
  moreover have "cs_handle_event c now (offer_objs ?s') (ReceivedInboundEvent r e) =
      Inr ([SendExecutedEvent ?svc i ts, NodeEvent (ExpectInboundEvent ?svc i)], [])"
    using assms(7,11) by (simp add: cs_handle_event_def received_inbound_from_swap_def)
  moreover have "dispatched ?s' = dispatched s @ [ReceivedInboundEvent r e]" by (simp add: emit_def)
  moreover have "listen [RaidenEvent (PaymentReceivedEvent e)] l = Inr ([TransferReceivedStateChange e], l')"
    using first by (simp add: handle_listener_event_def)
  moreover have "listen [ExpectInbound ?svc i, RaidenEvent (PaymentReceivedEvent e')] l' =
      Inr ([TransferReceivedStateChange e'], l'')"
    using second by (simp add: handle_listener_event_def)
  ultimately show ?thesis using n1 n2 by blast
qed

section \<open>Examples\<close>

definition demo_key :: bytes where
  "demo_key = replicate 32 5"

definition demo_pair :: token_pair where
  "demo_pair = \<lparr>tp_base = [1], tp_base_decimal = 3, tp_quote = [2], tp_quote_decimal = 18\<rparr>"

text \<open>Any key of 32 bytes serves in the example scheme, where the address of a key is the key.\<close>

lemma example_recovers: "length k = 32 \<Longrightarrow> recovers example_crypto k k"
  by (auto simp: recovers_def example_crypto_def)

lemma example_sign: "length k = 32 \<Longrightarrow> is_instance m Signed \<Longrightarrow>
    \<exists>sg. sign example_crypto k \<lparr>content = m, is_mutable = True\<rparr> =
      Inr \<lparr>content = with_signature m sg, is_mutable = False\<rparr>"
  by (auto simp: sign_def hash_without_signature_def example_crypto_def)

lemma example_transport:
  "length k = 32 \<Longrightarrow> event_message example_crypto p objs ev = Inr (Some (t, m)) \<Longrightarrow> is_sign_event ev \<Longrightarrow>
    is_instance m Signed \<Longrightarrow>
    \<exists>u. transport_handle_event example_crypto k p objs ev = Inr (Some (t, u))"
  using example_sign [of k m] by (auto simp: transport_handle_event_def)

lemma demo_key_length: "length demo_key = 32"
  by (simp add: demo_key_def)

lemmas demo_recovers = example_recovers [OF demo_key_length]

lemma demo_hash: "\<exists>h. msg_hash example_crypto m = Inr h"
  by (simp add: msg_hash_def rlp_hash_def hash_without_signature_def) (simp add: example_crypto_def)

lemma demo_transport:
  "event_message example_crypto demo_pair objs ev = Inr (Some (t, m)) \<Longrightarrow> is_sign_event ev \<Longrightarrow>
    is_instance m Signed \<Longrightarrow>
    \<exists>u. transport_handle_event example_crypto demo_key demo_pair objs ev = Inr (Some (t, u))"
  by (rule example_transport [OF demo_key_length])

lemma demo_proven: "is_instance (proven_offer_msg p w) Signed"
  by (simp add: proven_offer_msg_def is_instance_def)

theorem taker_answer_heard_witness:
  "\<exists>m. transport_handle_event example_crypto demo_key demo_pair (\<lambda>_. demo_offer Proved)
       (NodeEvent (SendProvenOfferEvent 0 (Some [9]))) = Inr (Some (Address [9], m)) \<and>
     taker_called example_crypto (Heard_message m) = Inr (TakerCallStateChange 5 demo_key None)"
proof -
  let ?ev = "NodeEvent (SendProvenOfferEvent 0 (Some [9]))"
  obtain m where m: "transport_handle_event example_crypto demo_key demo_pair (\<lambda>_. demo_offer Proved) ?ev =
      Inr (Some (Address [9], m))"
    using demo_transport [OF _ _ demo_proven, of "\<lambda>_. demo_offer Proved" ?ev "Address [9]" demo_pair "demo_offer Proved"]
    by (auto simp: event_message_def)
  show ?thesis
    using taker_answer_heard [OF m demo_recovers] m by (simp add: demo_offer_def)
qed

theorem published_offer_heard_witness:
  "\<exists>m. transport_handle_event example_crypto demo_key demo_pair (\<lambda>_. demo_offer Proved)
       (NodeEvent (SendProvenOfferEvent 0 None)) = Inr (Some (Broadcast, m)) \<and>
     transform_of example_crypto (OfferListener demo_pair) m =
       Inr (Some (Heard_entry \<lparr>e_offer = \<lparr>o_id = 5, o_type = BUY, o_base = 10, o_quote = 20, o_timeout = 0\<rparr>,
         e_initiator = demo_key, e_commitment_proof = None\<rparr>))"
proof -
  let ?ev = "NodeEvent (SendProvenOfferEvent 0 None)"
  obtain m where m: "transport_handle_event example_crypto demo_key demo_pair (\<lambda>_. demo_offer Proved) ?ev =
      Inr (Some (Broadcast, m))"
    using demo_transport [OF _ _ demo_proven, of "\<lambda>_. demo_offer Proved" ?ev Broadcast demo_pair "demo_offer Proved"]
    by (auto simp: event_message_def)
  have "tp_base demo_pair \<noteq> tp_quote demo_pair" by (simp add: demo_pair_def)
  from published_offer_heard [OF m demo_recovers this] m show ?thesis
    by (simp add: demo_offer_def basic_offer.truncate_def)
qed

theorem commitment_opens_swap_witness:
  "\<exists>m s'. transport_handle_event example_crypto demo_key demo_pair (\<lambda>_. demo_offer Unproved)
       (CommitmentMsgEvent [8] 0 100) = Inr (Some (Address [8], m)) \<and>
     commitment_process example_crypto 0 [3] m cs_start = (Inr (), s') \<and>
     dict_get 5 (swaps s') = Some 0 \<and> maker_address example_crypto (swap_objs s' 0) = Inr (Some demo_key)"
proof -
  let ?ev = "CommitmentMsgEvent [8] 0 100" and ?objs = "\<lambda>_::nat. demo_offer Unproved"
  obtain h where "msg_hash example_crypto (create_offer_msg (basic_offer.truncate (demo_offer Unproved)) demo_pair) =
      Inr h" using demo_hash by blast
  then obtain u where u: "event_message example_crypto demo_pair ?objs ?ev = Inr (Some (Address [8], u))"
      "is_instance u Signed"
    by (simp add: event_message_def commitment_msg_def is_instance_def)
  then obtain m where m: "transport_handle_event example_crypto demo_key demo_pair ?objs ?ev =
      Inr (Some (Address [8], m))"
    using demo_transport [OF u(1) _ u(2)] by auto
  have t: "seconds_to_timeout 0 (o_timeout (demo_offer Unproved)) = Inr 0"
    using to_double_of_int [of 0]
    by (simp add: demo_offer_def seconds_to_timeout_def ms_timestamp_to_dt_def mk_datetime_def
        datetime_min_def datetime_max_def total_seconds_def int_truediv_def)
  have "dict_get (o_id (demo_offer Unproved)) (swaps cs_start) = None" by (simp add: cs_start_def)
  from commitment_opens_swap [OF m demo_recovers this t] m show ?thesis
    by (auto simp: cs_start_def)
qed

theorem two_payments_complete_witness:
  "\<exists>s' s''. handle_state_change 0 0 0 (TransferReceivedStateChange
       \<lparr>pay_initiator = [2], pay_amount = 20, pay_identifier = 5\<rparr>)
       ((demo_node Exchanging)\<lparr>matches := [(5, maker_match (Some 0) [2] None)]\<rparr>) = (Inr (), s') \<and>
     handle_state_change 0 0 0 (TransferReceivedStateChange
       \<lparr>pay_initiator = [8], pay_amount = 1, pay_identifier = 5\<rparr>) s' = (Inr (), s'') \<and>
     f_state (offer_objs s'' 0) = Completed"
proof -
  let ?l = "\<lparr>event_filters = [(0, TransferReceivedFilter [2] 5)], next_filter = 1\<rparr>"
  have "time_now 0 = Inr 0" using dt_to_ms_whole [of 0] by (simp add: time_now_def)
  then show ?thesis
    using two_payments_complete [of ?l "maker_match (Some 0) [2] None" 5 "mk_cs_client [8]"
        "(demo_node Exchanging)\<lparr>matches := [(5, maker_match (Some 0) [2] None)]\<rparr>" 0
        "\<lparr>pay_initiator = [2], pay_amount = 20, pay_identifier = 5\<rparr>"
        "\<lparr>pay_initiator = [8], pay_amount = 1, pay_identifier = 5\<rparr>" 0 0 0 0 0 0 0 0]
    by (simp add: filters_ok_def waiting_def mk_cs_client_def maker_match_def dict_get_def) blast
qed

end
