(* ===== verification/Trades.thy ===== *)
theory Trades
  imports Offer_Book Broker
begin

text \<open>
  \<open>raidex_node/trades.py\<close>: the offers that were taken and the trades they became, ordered by time;
  the tasks that feed it (\<open>listener_tasks.py\<close>) and the market price (\<open>raidex_node.py\<close>).
\<close>

section \<open>The view\<close>

text \<open>What may be pending: a plain offer, or an entry of the order book.\<close>

datatype pending = Plain basic_offer | Entry book_entry

fun pending_id :: "pending \<Rightarrow> int" where
  "pending_id (Plain b) = o_id b"
| "pending_id (Entry e) = e_id e"

record trade =
  td_offer :: basic_offer
  td_timestamp :: int

record trades_view =
  pending_offer_by_id :: "(int, pending) dict"
  trade_by_id :: "(int, trade) dict"
  trade_items :: "((int \<times> int) \<times> trade) list"

definition empty_trades :: trades_view where
  "empty_trades = \<lparr>pending_offer_by_id = [], trade_by_id = [], trade_items = []\<rparr>"

definition add_pending :: "pending \<Rightarrow> (trades_view, unit) prog" where
  "add_pending x = modify (\<lambda>v. v\<lparr>pending_offer_by_id :=
     dict_set (pending_id x) x (pending_offer_by_id v)\<rparr>)"

text \<open>The id of the completed offer; \<open>None\<close> stands for the answer \<open>False\<close>.\<close>

definition report_completed :: "int \<Rightarrow> int \<Rightarrow> (trades_view, int option) prog" where
  "report_completed i ts =
     seq (get_state (\<lambda>v. dict_get i (pending_offer_by_id v))) (\<lambda>x.
     case x of
       None \<Rightarrow> return None
     | Some p \<Rightarrow>
         seq (modify (\<lambda>v. v\<lparr>pending_offer_by_id := dict_del i (pending_offer_by_id v)\<rparr>)) (\<lambda>_.
         case p of
           Entry _ \<Rightarrow> throw AssertionError
         | Plain b \<Rightarrow>
             let t = \<lparr>td_offer = b, td_timestamp = ts\<rparr> in
             seq (modify (\<lambda>v. v\<lparr>trade_items := sd_set (td_timestamp t, o_id b) t (trade_items v)\<rparr>)) (\<lambda>_.
             seq (modify (\<lambda>v. v\<lparr>trade_by_id := dict_set (o_id b) t (trade_by_id v)\<rparr>)) (\<lambda>_.
             return (Some (o_id b))))))"

definition get_trade_by_id :: "int \<Rightarrow> trades_view \<Rightarrow> trade option" where
  "get_trade_by_id i v = dict_get i (trade_by_id v)"

definition get_pending_by_id :: "int \<Rightarrow> trades_view \<Rightarrow> pending option" where
  "get_pending_by_id i v = dict_get i (pending_offer_by_id v)"

definition trades_len :: "trades_view \<Rightarrow> nat" where
  "trades_len v = length (trade_items v)"

definition trades_values :: "trades_view \<Rightarrow> trade list" where
  "trades_values v = sd_values (trade_items v)"

text \<open>
  The test for \<open>(None, None)\<close> compares a new tuple by identity and never holds; without bounds
  the range is everything.
\<close>

fun trades_of_keys :: "(int \<times> int) list \<Rightarrow> ((int \<times> int) \<times> trade) list \<Rightarrow> trade list res" where
  "trades_of_keys [] d = Inr []"
| "trades_of_keys (k # ks) d =
     (case sd_get k d of
        None \<Rightarrow> Inl KeyError
      | Some t \<Rightarrow> bind_res (trades_of_keys ks d) (\<lambda>ts. Inr (t # ts)))"

definition view_trades :: "int option \<Rightarrow> int option \<Rightarrow> trades_view \<Rightarrow> trade list res" where
  "view_trades from_timestamp to_timestamp v =
     (let min_key = map_option (\<lambda>t. (t, 0)) from_timestamp;
          max_key = map_option (\<lambda>t. (t, 0)) to_timestamp in
      trades_of_keys (sd_irange min_key max_key (trade_items v)) (trade_items v))"

section \<open>The tasks of the listeners\<close>

record market_state =
  ms_book :: offer_book
  ms_trades :: trades_view

definition in_trades :: "(trades_view, 'a) prog \<Rightarrow> (market_state, 'a) prog" where
  "in_trades m s = (case m (ms_trades s) of (r, v) \<Rightarrow> (r, s\<lparr>ms_trades := v\<rparr>))"

definition offer_taken_process :: "int \<Rightarrow> (market_state, unit) prog" where
  "offer_taken_process i =
     seq (get_state (\<lambda>s. book_contains i (ms_book s))) (\<lambda>c.
     if c then
       seq (get_state (\<lambda>s. get_offer_by_id i (ms_book s))) (\<lambda>x.
       case x of
         None \<Rightarrow> throw AttributeError
       | Some e \<Rightarrow>
           seq (in_trades (add_pending (Entry e))) (\<lambda>_.
           seq (get_state (\<lambda>s. remove_offer i (ms_book s))) (\<lambda>r.
           seq (lift_res r) (\<lambda>b.
           modify (\<lambda>s. s\<lparr>ms_book := b\<rparr>)))))
     else return ())"

definition swap_completed_process :: "int \<Rightarrow> int \<Rightarrow> (market_state, unit) prog" where
  "swap_completed_process i ts = seq (in_trades (report_completed i ts)) (\<lambda>_. return ())"

section \<open>The market price\<close>

text \<open>
  \<open>market_price\<close> passes the count as the first timestamp; the offers of trades have no attribute
  \<open>amount\<close>.
\<close>

definition last_reversed :: "nat \<Rightarrow> 'a list \<Rightarrow> 'a list" where
  "last_reversed n xs = rev (drop (length xs - n) xs)"

definition market_price :: "nat \<Rightarrow> trades_view \<Rightarrow> rat option res" where
  "market_price trade_count v =
     bind_res (view_trades (Some (int trade_count)) None v) (\<lambda>trades_list.
     let ts = (if trade_count = 0 then rev trades_list else last_reversed trade_count trades_list) in
     if ts = [] then Inr None
     else if sort_key (\<lambda>t. - td_timestamp t) ts \<noteq> ts then Inl AssertionError
     else Inl AttributeError)"

section \<open>The invariant of the view\<close>

definition trades_ok :: "trades_view \<Rightarrow> bool" where
  "trades_ok v \<longleftrightarrow> dict_wf (pending_offer_by_id v) \<and> sd_wf (trade_items v) \<and>
     (\<forall>i p. dict_get i (pending_offer_by_id v) = Some p \<longrightarrow> pending_id p = i) \<and>
     (\<forall>k t. sd_get k (trade_items v) = Some t \<longrightarrow> k = (td_timestamp t, o_id (td_offer t)))"

lemma trades_ok_empty: "trades_ok empty_trades"
  by (simp add: trades_ok_def empty_trades_def sd_get_def)

lemma trades_ok_pending: "trades_ok v \<Longrightarrow> trades_ok (snd (add_pending p v))"
  by (auto simp: trades_ok_def add_pending_def modify_def)

lemma trades_ok_set:
  assumes "trades_ok v"
  shows "trades_ok (v\<lparr>pending_offer_by_id := dict_del i (pending_offer_by_id v),
    trade_items := sd_set (ts, o_id b) \<lparr>td_offer = b, td_timestamp = ts\<rparr> (trade_items v),
    trade_by_id := ids\<rparr>)"
  using assms by (auto simp: trades_ok_def sd_get_set sd_wf_set split: if_splits)

lemma report_completed_eq:
  "report_completed i ts v =
    (case dict_get i (pending_offer_by_id v) of
       None \<Rightarrow> (Inr None, v)
     | Some (Entry e) \<Rightarrow>
         (Inl AssertionError, v\<lparr>pending_offer_by_id := dict_del i (pending_offer_by_id v)\<rparr>)
     | Some (Plain b) \<Rightarrow> (Inr (Some (o_id b)),
         v\<lparr>pending_offer_by_id := dict_del i (pending_offer_by_id v),
           trade_items := sd_set (ts, o_id b) \<lparr>td_offer = b, td_timestamp = ts\<rparr> (trade_items v),
           trade_by_id := dict_set (o_id b) \<lparr>td_offer = b, td_timestamp = ts\<rparr> (trade_by_id v)\<rparr>))"
  by (auto simp: report_completed_def prog_simps Let_def split: option.split pending.split)

lemma trades_ok_report: "trades_ok v \<Longrightarrow> trades_ok (snd (report_completed i ts v))"
  by (auto simp: report_completed_eq trades_ok_set split: option.split pending.split)
     (auto simp: trades_ok_def)

lemma trades_of_keys_eq:
  "\<forall>k \<in> set ks. sd_get k d \<noteq> None \<Longrightarrow> trades_of_keys ks d = Inr (map (\<lambda>k. the (sd_get k d)) ks)"
  by (induction ks) auto

lemma sorted_get_map:
  "sd_wf d \<Longrightarrow> map (\<lambda>k. the (sd_get k d)) (filter P (map fst d)) = map snd (filter (P \<circ> fst) d)"
proof -
  assume wf: "sd_wf d"
  have "sd_get (fst x) d = Some (snd x)" if "x \<in> set d" for x
    using that wf sdict.items_mem [of d "fst x" "snd x"] by simp
  then show ?thesis by (auto simp: filter_map o_def)
qed

text \<open>The trades of a period, as a plain filter over all of them in their order.\<close>

lemma view_trades_eq:
  assumes "trades_ok v" and "\<And>t. t \<in> set (trades_values v) \<Longrightarrow> 0 \<le> o_id (td_offer t)"
  shows "view_trades lo hi v = Inr (filter (\<lambda>t.
    (case lo of None \<Rightarrow> True | Some a \<Rightarrow> a \<le> td_timestamp t) \<and>
    (case hi of None \<Rightarrow> True | Some b \<Rightarrow> td_timestamp t < b)) (trades_values v))"
proof -
  let ?d = "trade_items v"
  let ?P = "\<lambda>k. (case map_option (\<lambda>t. (t, 0 :: int)) lo of None \<Rightarrow> True | Some a \<Rightarrow> a \<le> k) \<and>
                (case map_option (\<lambda>t. (t, 0)) hi of None \<Rightarrow> True | Some b \<Rightarrow> k < b)"
  let ?Q = "\<lambda>t. (case lo of None \<Rightarrow> True | Some a \<Rightarrow> a \<le> td_timestamp t) \<and>
                (case hi of None \<Rightarrow> True | Some b \<Rightarrow> td_timestamp t < b)"
  have wf: "sd_wf ?d" using assms(1) by (simp add: trades_ok_def)
  have mem: "sd_get k ?d = Some t \<longleftrightarrow> (k, t) \<in> set ?d" for k t using sdict.items_mem [OF wf] by simp
  have "?P k = ?Q t" if "(k, t) \<in> set ?d" for k t
  proof -
    have "sd_get k ?d = Some t" using that mem by simp
    then have "k = (td_timestamp t, o_id (td_offer t))" using assms(1) unfolding trades_ok_def by blast
    moreover have "0 \<le> o_id (td_offer t)"
      using that by (intro assms(2)) (force simp: trades_values_def sd_values_def)
    ultimately show ?thesis by (cases lo; cases hi) (auto simp: less_eq_prod_simp less_prod_simp)
  qed
  then have "filter (?P \<circ> fst) ?d = filter (?Q \<circ> snd) ?d" by (intro filter_cong) auto
  moreover have "map snd (filter (?Q \<circ> snd) ?d) = filter ?Q (map snd ?d)" by (simp add: filter_map)
  moreover have "sd_irange (map_option (\<lambda>t. (t, 0)) lo) (map_option (\<lambda>t. (t, 0)) hi) ?d =
      filter ?P (map fst ?d)" by (simp only: sd_irange_def)
  moreover have "\<forall>k \<in> set (filter ?P (map fst ?d)). sd_get k ?d \<noteq> None" using mem by auto
  ultimately show ?thesis
    unfolding view_trades_def Let_def trades_values_def sd_values_def
    by (simp only: trades_of_keys_eq sorted_get_map [OF wf])
qed

lemma trades_sorted:
  assumes "trades_ok v" shows "sorted (map td_timestamp (trades_values v))"
proof -
  have wf: "sd_wf (trade_items v)" using assms by (simp add: trades_ok_def)
  have key: "td_timestamp (snd x) = fst (fst x)" if "x \<in> set (trade_items v)" for x
  proof -
    have "sd_get (fst x) (trade_items v) = Some (snd x)"
      using that sdict.items_mem [OF wf, of "fst x" "snd x"] by simp
    then have "fst x = (td_timestamp (snd x), o_id (td_offer (snd x)))"
      using assms unfolding trades_ok_def by blast
    then show ?thesis by simp
  qed
  have "sorted (map fst (trade_items v))" using wf by (simp add: sd_wf_def strict_sorted_iff)
  then have "sorted (map fst (map fst (trade_items v)))"
    by (auto simp: sorted_map less_eq_prod_def elim!: sorted_wrt_mono_rel [rotated])
  moreover have "map td_timestamp (trades_values v) = map fst (map fst (trade_items v))"
    using key by (simp add: trades_values_def sd_values_def)
  ultimately show ?thesis by simp
qed

lemma last_reversed_descending:
  "sorted (map td_timestamp ts) \<Longrightarrow> sorted (map (\<lambda>t. - td_timestamp t) (last_reversed n ts))"
  by (simp add: last_reversed_def sorted_wrt_map sorted_wrt_rev sorted_wrt_drop)

lemma last_reversed_nonempty:
  assumes "xs \<noteq> []" and "0 < n" shows "last_reversed n xs \<noteq> []"
proof -
  have "0 < length xs" using assms(1) by simp
  then have "length xs - n < length xs" using assms(2) by linarith
  then show ?thesis by (simp add: last_reversed_def)
qed

section \<open>Properties\<close>

text \<open>Asking for the trades of a period answers with exactly the trades from its first
  timestamp on and before its last, each once, ordered by time; a missing bound does not bound.\<close>

theorem trades_of_period:
  assumes "trades_ok v" and "\<And>t. t \<in> set (trades_values v) \<Longrightarrow> 0 \<le> o_id (td_offer t)"
  shows "view_trades lo hi v = Inr (filter (\<lambda>t.
      (case lo of None \<Rightarrow> True | Some a \<Rightarrow> a \<le> td_timestamp t) \<and>
      (case hi of None \<Rightarrow> True | Some b \<Rightarrow> td_timestamp t < b)) (trades_values v)) \<and>
    sorted (map td_timestamp (trades_values v))"
  using view_trades_eq [OF assms] trades_sorted [OF assms(1)] by simp

definition demo_trades :: trades_view where
  "demo_trades = snd (report_completed 7 50 (snd (report_completed 3 20
     (snd (add_pending (Plain \<lparr>o_id = 7, o_type = BUY, o_base = 1, o_quote = 1, o_timeout = 0\<rparr>)
     (snd (add_pending (Plain \<lparr>o_id = 3, o_type = BUY, o_base = 1, o_quote = 1, o_timeout = 0\<rparr>)
       empty_trades)))))))"

lemma demo_trades_ok: "trades_ok demo_trades"
  unfolding demo_trades_def
  by (intro trades_ok_report trades_ok_pending trades_ok_empty)

lemma demo_trades_values: "map td_timestamp (trades_values demo_trades) = [20, 50]"
  "map (\<lambda>t. o_id (td_offer t)) (trades_values demo_trades) = [3, 7]"
  by code_simp+

theorem trades_of_period_witness:
  "\<exists>ts. view_trades (Some 30) None demo_trades = Inr ts \<and> map td_timestamp ts = [50]"
proof -
  have "o_id (td_offer t) \<in> {3, 7}" if "t \<in> set (trades_values demo_trades)" for t
    using that arg_cong [OF demo_trades_values(2), of set] by auto
  then have nn: "0 \<le> o_id (td_offer t)" if "t \<in> set (trades_values demo_trades)" for t
    using that by fastforce
  have "view_trades (Some 30) None demo_trades = Inr (filter (\<lambda>t. 30 \<le> td_timestamp t) (trades_values demo_trades))"
    using conjunct1 [OF trades_of_period [OF demo_trades_ok nn, of "Some 30" None]] by simp
  moreover have "map td_timestamp (filter (\<lambda>t. 30 \<le> td_timestamp t) (trades_values demo_trades)) =
      filter (\<lambda>x. 30 \<le> x) [20, 50]"
    by (simp add: demo_trades_values(1) [symmetric] filter_map o_def)
  ultimately show ?thesis by simp
qed

text \<open>An offer that the node saw being taken never becomes a trade: when its completion is
  reported, the entry of the order book that is pending fails the assertion that it is an offer,
  and it is no longer pending afterwards.\<close>

theorem taken_offer_no_trade:
  assumes "book_ok (ms_book s)" and "book_contains i (ms_book s)" and "trades_ok (ms_trades s)"
  shows "\<exists>s'. offer_taken_process i s = (Inr (), s') \<and> \<not> book_contains i (ms_book s') \<and>
    fst (swap_completed_process i ts s') = Inl AssertionError \<and>
    trade_items (ms_trades (snd (swap_completed_process i ts s'))) = trade_items (ms_trades s) \<and>
    get_pending_by_id i (ms_trades (snd (swap_completed_process i ts s'))) = None"
proof -
  obtain e where e: "get_offer_by_id i (ms_book s) = Some e"
    using assms(2) by (auto simp: contains_iff book_map_def)
  have id: "e_id e = i"
    using e assms(1) book_map_id by (simp add: book_map_def)
  obtain b where b: "remove_offer i (ms_book s) = Inr b" "book_map b = (book_map (ms_book s))(i := None)"
    using remove_refines [OF assms(1,2)] by blast
  define v where "v = snd (add_pending (Entry e) (ms_trades s))"
  have run: "offer_taken_process i s = (Inr (), s\<lparr>ms_trades := v, ms_book := b\<rparr>)"
    using assms(2) e b(1)
    by (simp add: offer_taken_process_def prog_simps in_trades_def add_pending_def v_def)
  have get: "dict_get i (pending_offer_by_id v) = Some (Entry e)" "trade_items v = trade_items (ms_trades s)"
    using id by (simp_all add: v_def add_pending_def modify_def)
  have "\<not> book_contains i b" using b(2) by (simp add: contains_iff)
  then show ?thesis
    using run get
    by (simp add: swap_completed_process_def seq_unit in_trades_def report_completed_eq get_pending_by_id_def)
qed

theorem taken_offer_no_trade_witness:
  "\<exists>b s'. insert_offer (example_entry 3 5) empty_book = Inr b \<and>
     offer_taken_process 3 \<lparr>ms_book = b, ms_trades = empty_trades\<rparr> = (Inr (), s') \<and>
     fst (swap_completed_process 3 20 s') = Inl AssertionError"
proof -
  have id: "e_id (example_entry 3 5) = 3" by (simp add: e_id_def example_entry_def)
  obtain b where b: "insert_offer (example_entry 3 5) empty_book = Inr b" "book_ok b"
      "book_map b = [3 \<mapsto> example_entry 3 5]"
    using insert_refines [OF empty_book_ok(1), of "example_entry 3 5" 2] example_price [of 5 3] id
      empty_book_ok(2) by (auto simp: contains_iff)
  then have "book_contains 3 b" by (simp add: contains_iff)
  then show ?thesis
    using taken_offer_no_trade [of "\<lparr>ms_book = b, ms_trades = empty_trades\<rparr>" 3 20] b trades_ok_empty
    by auto
qed

text \<open>The market price cannot be computed: as soon as there is a trade in the period it looks at
  it raises AttributeError.\<close>

theorem market_price_fails:
  assumes "trades_ok v" and "\<And>t. t \<in> set (trades_values v) \<Longrightarrow> 0 \<le> o_id (td_offer t)"
    and "0 < n" and "t \<in> set (trades_values v)" and "int n \<le> td_timestamp t"
  shows "market_price n v = Inl AttributeError"
proof -
  let ?ts = "filter (\<lambda>t. int n \<le> td_timestamp t) (trades_values v)"
  have ts: "view_trades (Some (int n)) None v = Inr ?ts" using view_trades_eq [OF assms(1,2)] by simp
  have "?ts \<noteq> []" using assms(4,5) by (auto simp: filter_empty_conv)
  then have "last_reversed n ?ts \<noteq> []" using assms(3) by (intro last_reversed_nonempty)
  moreover have "sorted (map td_timestamp ?ts)"
    using trades_sorted [OF assms(1)] by (simp add: sorted_wrt_map sorted_wrt_filter)
  then have "sort_key (\<lambda>t. - td_timestamp t) (last_reversed n ?ts) = last_reversed n ?ts"
    by (intro sort_key_id_if_sorted last_reversed_descending)
  ultimately show ?thesis
    using ts assms(3) by (simp add: market_price_def Let_def)
qed

theorem market_price_fails_witness: "market_price 20 demo_trades = Inl AttributeError"
proof -
  have "o_id (td_offer t) \<in> {3, 7}" if "t \<in> set (trades_values demo_trades)" for t
    using that arg_cong [OF demo_trades_values(2), of set] by auto
  then have nn: "0 \<le> o_id (td_offer t)" if "t \<in> set (trades_values demo_trades)" for t
    using that by fastforce
  have "50 \<in> set (map td_timestamp (trades_values demo_trades))" by (simp add: demo_trades_values(1))
  then obtain t where "t \<in> set (trades_values demo_trades)" "td_timestamp t = 50" by auto
  then show ?thesis using market_price_fails [OF demo_trades_ok nn, of 20 t] by simp
qed

end
