(* ===== verification/Offer_Grouping.thy ===== *)
theory Offer_Grouping
  imports Trades Timestamps "HOL-Library.Multiset"
begin

text \<open>
  \<open>raidex_node/offer_grouping.py\<close>: offers grouped by rounded price, trades grouped by price and time,
  and the bins of the price chart, with the queries of \<open>raidex_node.py\<close> that use them. A \<open>Decimal\<close> is
  the rational it stands for; the context of the module is 28 digits and rounding towards minus
  infinity. The clock reading is an argument.
\<close>

section \<open>Decimal arithmetic\<close>

fun digits10 :: "nat \<Rightarrow> nat" where
  "digits10 n = (if n < 10 then 1 else Suc (digits10 (n div 10)))"

declare digits10.simps [simp del]

text \<open>The exponent of the leading digit of a positive number.\<close>

definition dec_exp :: "rat \<Rightarrow> int" where
  "dec_exp x = (if 1 \<le> x then int (digits10 (nat \<lfloor>x\<rfloor>)) - 1
                else - int (digits10 (nat (\<lceil>1 / x\<rceil> - 1))))"

definition dec :: "rat \<Rightarrow> rat" where
  "dec x = (if x = 0 then 0
            else let s = 10 powi (27 - dec_exp \<bar>x\<bar>) in of_int \<lfloor>x * s\<rfloor> / s)"

definition dec_div :: "rat \<Rightarrow> rat \<Rightarrow> rat res" where
  "dec_div a b = (if b = 0 then Inl (if a = 0 then InvalidOperation else ZeroDivisionError)
                  else Inr (dec (a / b)))"

text \<open>\<open>quantize(Decimal(10) ** -n)\<close>: a result of more than 28 digits raises.\<close>

definition quantize :: "int \<Rightarrow> rat \<Rightarrow> rat res" where
  "quantize n x = (let m = \<lfloor>x * 10 ^ nat n\<rfloor> in
     if \<bar>m\<bar> < 10 ^ 28 then Inr (of_int m / 10 ^ nat n) else Inl InvalidOperation)"

definition price_group_precision :: int where "price_group_precision = 1"
definition time_group_interval_ms :: int where "time_group_interval_ms = 10000"

section \<open>Grouped offers\<close>

record grouped_offer =
  go_price :: rat
  go_amount :: int
  go_timeouts :: "int list"

definition new_grouped_offer :: "rat \<Rightarrow> grouped_offer" where
  "new_grouped_offer q = \<lparr>go_price = q, go_amount = 0, go_timeouts = []\<rparr>"

definition go_add :: "int \<Rightarrow> int \<Rightarrow> grouped_offer \<Rightarrow> grouped_offer" where
  "go_add amount timeout g =
     g\<lparr>go_amount := go_amount g + amount, go_timeouts := go_timeouts g @ [timeout]\<rparr>"

definition avg_timeout :: "grouped_offer \<Rightarrow> rat res" where
  "avg_timeout g = int_truediv (sum_list (go_timeouts g)) (int (length (go_timeouts g)))"

definition max_timeout :: "grouped_offer \<Rightarrow> int res" where
  "max_timeout g = (if go_timeouts g = [] then Inl ValueError else Inr (Max (set (go_timeouts g))))"

definition min_timeout :: "grouped_offer \<Rightarrow> int res" where
  "min_timeout g = (if go_timeouts g = [] then Inl ValueError else Inr (Min (set (go_timeouts g))))"

definition e_timeout :: "book_entry \<Rightarrow> int" where
  "e_timeout e = o_timeout (e_offer e)"

definition quantized_price :: "int \<Rightarrow> basic_offer \<Rightarrow> rat res" where
  "quantized_price n b = bind_res (price b) (quantize n)"

fun group_offers_loop ::
  "int \<Rightarrow> book_entry list \<Rightarrow> (rat, grouped_offer) dict \<Rightarrow> (rat, grouped_offer) dict res" where
  "group_offers_loop n [] d = Inr d"
| "group_offers_loop n (e # es) d =
     bind_res (quantized_price n (e_offer e)) (\<lambda>q.
     group_offers_loop n es
       (case dict_get q d of
          None \<Rightarrow> dict_set q (go_add (e_base e) (e_timeout e) (new_grouped_offer q)) d
        | Some g \<Rightarrow> dict_set q (go_add (e_base e) (e_timeout e) g) d))"

definition group_offers :: "int option \<Rightarrow> book_entry list \<Rightarrow> grouped_offer list res" where
  "group_offers precision es =
     (let n = (case precision of None \<Rightarrow> price_group_precision | Some n \<Rightarrow> n) in
      bind_res (group_offers_loop n es []) (\<lambda>d. Inr (sort_key go_price (dict_values d))))"

definition grouped_buys :: "offer_book \<Rightarrow> grouped_offer list res" where
  "grouped_buys b = group_offers None (view_values (buys b))"

definition grouped_sells :: "offer_book \<Rightarrow> grouped_offer list res" where
  "grouped_sells b = group_offers None (view_values (sells b))"

section \<open>Bins of time\<close>

definition find_time_bin :: "int \<Rightarrow> int option \<Rightarrow> int option \<Rightarrow> (int \<times> int) res" where
  "find_time_bin timestmp offset interval =
     (let g = of_int (case interval of None \<Rightarrow> time_group_interval_ms | Some g \<Rightarrow> g);
          off = of_int (case offset of None \<Rightarrow> 0 | Some k \<Rightarrow> k);
          stop_off = dec (off + 1) in
      bind_res (dec_div (of_int timestmp) g) (\<lambda>q.
      let start = dec (dec (of_int \<lfloor>q\<rfloor> * g) + dec (g * off));
          stop = dec (start + dec (g * stop_off)) in
      Inr (int_of_float start, int_of_float stop)))"

fun time_bins_from :: "rat \<Rightarrow> rat \<Rightarrow> nat \<Rightarrow> int list" where
  "time_bins_from g start 0 = []"
| "time_bins_from g start (Suc k) =
     (let t = dec (start + g) in int_of_float t # time_bins_from g t k)"

definition time_bin_gen :: "int \<Rightarrow> nat \<Rightarrow> int \<Rightarrow> int list res" where
  "time_bin_gen current_timestamp nof_bins interval =
     (let g = of_int interval in
      bind_res (dec_div (of_int current_timestamp) g) (\<lambda>q.
      let stop = dec (of_int \<lfloor>q\<rfloor> * g);
          start = dec (stop + dec (g * of_int (- int nof_bins))) in
      Inr (time_bins_from g start nof_bins)))"

section \<open>Grouped trades\<close>

text \<open>\<open>hash\<close> of a Python int on a 64-bit machine.\<close>

definition int_hash :: "int \<Rightarrow> int" where
  "int_hash n = (let r = \<bar>n\<bar> mod (2 ^ 61 - 1); h = (if n < 0 then - r else r) in
     if h = -1 then -2 else h)"

record grouped_trade =
  gt_price :: rat
  gt_type :: offer_type
  gt_amount :: int
  gt_timestamp :: int
  gt_hash :: int

definition new_grouped_trade :: "rat \<Rightarrow> int \<Rightarrow> int \<Rightarrow> offer_type \<Rightarrow> grouped_trade" where
  "new_grouped_trade q ts i t =
     \<lparr>gt_price = q, gt_type = t, gt_amount = 0, gt_timestamp = ts, gt_hash = int_hash (i + ts + 0)\<rparr>"

definition gt_add :: "int \<Rightarrow> grouped_trade \<Rightarrow> grouped_trade" where
  "gt_add amount g = g\<lparr>gt_amount := gt_amount g + amount\<rparr>"

type_synonym trade_key = "rat \<times> int \<times> offer_type"

fun group_trades_loop ::
  "int option \<Rightarrow> int \<Rightarrow> int \<Rightarrow> trade list \<Rightarrow> (trade_key, grouped_trade) dict \<Rightarrow>
    (trade_key, grouped_trade) dict res" where
  "group_trades_loop chunk_size n g [] d = Inr d"
| "group_trades_loop chunk_size n g (t # ts) d =
     bind_res (quantized_price n (td_offer t)) (\<lambda>q.
     bind_res (find_time_bin (td_timestamp t) None (Some g)) (\<lambda>(bucket, _).
     let key = (double q, bucket, o_type (td_offer t));
         d' = (case dict_get key d of
                 None \<Rightarrow> dict_set key (gt_add (o_base (td_offer t))
                   (new_grouped_trade q bucket (o_id (td_offer t)) (o_type (td_offer t)))) d
               | Some x \<Rightarrow> dict_set key (gt_add (o_base (td_offer t)) x) d) in
     if (case chunk_size of None \<Rightarrow> False | Some c \<Rightarrow> int (length d') = c + 1)
     then Inr (dict_del key d')
     else group_trades_loop chunk_size n g ts d'))"

definition group_trades ::
  "trade list \<Rightarrow> int option \<Rightarrow> int option \<Rightarrow> int option \<Rightarrow> grouped_trade list res" where
  "group_trades ts chunk_size precision interval =
     (let n = (case precision of None \<Rightarrow> price_group_precision | Some n \<Rightarrow> n);
          g = (case interval of None \<Rightarrow> time_group_interval_ms | Some g \<Rightarrow> g) in
      bind_res (group_trades_loop chunk_size n g ts []) (\<lambda>d.
      Inr (sort_key (\<lambda>x. (gt_timestamp x, gt_price x)) (dict_values d))))"

definition group_trades_from ::
  "(int option \<Rightarrow> trade list res) \<Rightarrow> int option \<Rightarrow> int option \<Rightarrow> int option \<Rightarrow> grouped_trade list res" where
  "group_trades_from trades_gen_func from_timestamp precision interval =
     (let n = (case precision of None \<Rightarrow> price_group_precision | Some n \<Rightarrow> n);
          g = (case interval of None \<Rightarrow> time_group_interval_ms | Some g \<Rightarrow> g) in
      bind_res (case from_timestamp of
          None \<Rightarrow> Inr None
        | Some t \<Rightarrow> bind_res (find_time_bin t None (Some g)) (\<lambda>(a, _). Inr (Some a))) (\<lambda>from_time.
      bind_res (trades_gen_func from_time) (\<lambda>ts. group_trades ts None (Some n) (Some g))))"

definition get_n_recent_trades :: "trade list \<Rightarrow> int option \<Rightarrow> grouped_trade list res" where
  "get_n_recent_trades ts n = group_trades (rev ts) n None None"

definition grouped_trades :: "trades_view \<Rightarrow> int option \<Rightarrow> grouped_trade list res" where
  "grouped_trades v from_timestamp =
     group_trades_from (\<lambda>t. view_trades t None v) from_timestamp None None"

definition recent_grouped_trades :: "trades_view \<Rightarrow> int option \<Rightarrow> grouped_trade list res" where
  "recent_grouped_trades v chunk_size =
     bind_res (view_trades None None v) (\<lambda>ts. get_n_recent_trades ts chunk_size)"

section \<open>The price chart\<close>

record price_bin =
  pb_open_price :: rat
  pb_close_prices :: "rat list"
  pb_close_timestamp :: "int option"
  pb_min_price :: "rat option"
  pb_max_price :: "rat option"
  pb_amount :: int
  pb_timestamp :: int

definition new_price_bin :: "rat \<Rightarrow> int \<Rightarrow> price_bin" where
  "new_price_bin open_price ts =
     \<lparr>pb_open_price = open_price, pb_close_prices = [], pb_close_timestamp = None,
      pb_min_price = None, pb_max_price = None, pb_amount = 0, pb_timestamp = ts\<rparr>"

definition pb_add :: "int \<Rightarrow> int \<Rightarrow> rat \<Rightarrow> price_bin \<Rightarrow> price_bin" where
  "pb_add ts amount p b =
     (let b1 = (if (case pb_min_price b of None \<Rightarrow> True | Some m \<Rightarrow> p < m)
                then b\<lparr>pb_min_price := Some p\<rparr> else b);
          b2 = (if (case pb_max_price b1 of None \<Rightarrow> True | Some m \<Rightarrow> p > m)
                then b1\<lparr>pb_max_price := Some p\<rparr> else b1);
          b3 = b2\<lparr>pb_amount := pb_amount b2 + amount\<rparr> in
      if (case pb_close_timestamp b3 of None \<Rightarrow> True | Some c \<Rightarrow> ts > c)
      then b3\<lparr>pb_close_timestamp := Some ts, pb_close_prices := [p]\<rparr>
      else if Some ts = pb_close_timestamp b3
      then b3\<lparr>pb_close_prices := pb_close_prices b3 @ [p]\<rparr>
      else b3)"

text \<open>\<open>sum\<close> rounds after every addition.\<close>

definition close_price_decimal :: "price_bin \<Rightarrow> rat res" where
  "close_price_decimal b =
     dec_div (foldl (\<lambda>s p. dec (s + p)) 0 (pb_close_prices b)) (of_nat (length (pb_close_prices b)))"

definition close_price :: "price_bin \<Rightarrow> rat res" where
  "close_price b =
     (case pb_close_timestamp b of
        None \<Rightarrow> Inr (pb_open_price b)
      | Some _ \<Rightarrow> bind_res (close_price_decimal b) (\<lambda>p. Inr (double p)))"

text \<open>The test \<open>or\<close> takes a price of zero for no price.\<close>

definition min_price :: "price_bin \<Rightarrow> rat" where
  "min_price b = (case pb_min_price b of
     None \<Rightarrow> pb_open_price b
   | Some p \<Rightarrow> if p = 0 then pb_open_price b else double p)"

definition max_price :: "price_bin \<Rightarrow> rat" where
  "max_price b = (case pb_max_price b of
     None \<Rightarrow> pb_open_price b
   | Some p \<Rightarrow> if p = 0 then pb_open_price b else double p)"

fun add_trades :: "trade list \<Rightarrow> price_bin \<Rightarrow> price_bin res" where
  "add_trades [] b = Inr b"
| "add_trades (t # ts) b =
     bind_res (quantized_price price_group_precision (td_offer t)) (\<lambda>q.
     add_trades ts (pb_add (td_timestamp t) (o_base (td_offer t)) q b))"

fun price_bins_loop ::
  "(int option \<Rightarrow> int option \<Rightarrow> trade list res) \<Rightarrow> (int \<times> int) list \<Rightarrow> rat \<Rightarrow>
    (int, price_bin) dict \<Rightarrow> (int, price_bin) dict res" where
  "price_bins_loop trades_gen_func [] last_close_price d = Inr d"
| "price_bins_loop trades_gen_func ((a, z) # periods) last_close_price d =
     bind_res (trades_gen_func (Some a) (Some z)) (\<lambda>ts.
     bind_res (add_trades ts (new_price_bin last_close_price a)) (\<lambda>b.
     bind_res (close_price b) (\<lambda>c.
     price_bins_loop trades_gen_func periods c (dict_set a b d))))"

definition make_price_bins ::
  "(int option \<Rightarrow> int option \<Rightarrow> trade list res) \<Rightarrow> datetime \<Rightarrow> nat \<Rightarrow> rat \<Rightarrow> price_bin list res" where
  "make_price_bins trades_gen_func now nof_buckets interval =
     bind_res (float_mul interval 1000) (\<lambda>ms.
     let g = int_of_float ms in
     bind_res (time_now now) (\<lambda>current.
     bind_res (time_bin_gen current 2 g) (\<lambda>starts.
     bind_res (time_bin_gen (starts ! 0) (nof_buckets + 1) g) (\<lambda>from_times.
     bind_res (time_bin_gen (starts ! 1) (nof_buckets + 1) g) (\<lambda>to_times.
     bind_res (price_bins_loop trades_gen_func (zip from_times to_times) 0 []) (\<lambda>d.
     if length d \<noteq> nof_buckets + 1 then Inl AssertionError
     else Inr (tl (sort_key pb_timestamp (dict_values d)))))))))"

definition price_chart_bins :: "trades_view \<Rightarrow> datetime \<Rightarrow> int \<Rightarrow> rat \<Rightarrow> price_bin list res" where
  "price_chart_bins v now nof_buckets interval =
     (if nof_buckets < 1 \<or> interval < 0 then Inl ValueError
      else make_price_bins (\<lambda>a z. view_trades a z v) now (nat nof_buckets) interval)"

section \<open>Decimal arithmetic on whole numbers is exact below 28 digits\<close>

lemma digits10_le: "n < 10 ^ k \<Longrightarrow> 0 < k \<Longrightarrow> digits10 n \<le> k"
proof (induction n arbitrary: k rule: digits10.induct)
  case (1 n)
  show ?case
  proof (cases "n < 10")
    case True
    then show ?thesis using 1 by (simp add: digits10.simps [of n])
  next
    case False
    obtain j where k: "k = Suc j" using 1 by (cases k) auto
    have "0 < j" using 1 False k by (cases j) auto
    moreover have "n div 10 < 10 ^ j" using 1 k by (simp add: div_less_iff_less_mult mult.commute)
    ultimately have "digits10 (n div 10) \<le> j" using 1 False by blast
    then show ?thesis using False k by (simp add: digits10.simps [of n])
  qed
qed

lemma dec_exp_le:
  assumes "0 < x" and "x < 10 ^ 28" shows "dec_exp x \<le> 27"
proof (cases "1 \<le> x")
  case True
  have "x < of_int (10 ^ 28)" using assms(2) by simp
  then have "\<lfloor>x\<rfloor> < 10 ^ 28" by (simp only: floor_less_iff)
  then have "int (nat \<lfloor>x\<rfloor>) < int (10 ^ 28)" using True by simp
  then have "nat \<lfloor>x\<rfloor> < 10 ^ 28" by (simp only: of_nat_less_iff)
  then have "digits10 (nat \<lfloor>x\<rfloor>) \<le> 28" by (rule digits10_le) simp
  then show ?thesis using True by (simp add: dec_exp_def)
qed (simp add: dec_exp_def)

text \<open>Below 28 digits the scale of the rounding is a whole number.\<close>

lemma dec_scaled:
  assumes "\<bar>x\<bar> < 10 ^ 28"
  obtains N :: int where "0 < N" and "dec x = of_int \<lfloor>x * of_int N\<rfloor> / of_int N"
proof (cases "x = 0")
  case True
  then show ?thesis using that [of 1] by (simp add: dec_def)
next
  case False
  have e: "dec_exp \<bar>x\<bar> \<le> 27" using False assms by (intro dec_exp_le) auto
  have "(10::rat) powi (27 - dec_exp \<bar>x\<bar>) = of_int (10 ^ nat (27 - dec_exp \<bar>x\<bar>))"
    using e by (simp add: power_int_def)
  then have "dec x = of_int \<lfloor>x * of_int (10 ^ nat (27 - dec_exp \<bar>x\<bar>))\<rfloor>
      / of_int (10 ^ nat (27 - dec_exp \<bar>x\<bar>))"
    using False by (simp only: dec_def Let_def) simp
  then show ?thesis by (intro that [of "10 ^ nat (27 - dec_exp \<bar>x\<bar>)"]) simp_all
qed

lemma dec_of_int [simp]:
  assumes "\<bar>n\<bar> < 10 ^ 28" shows "dec (of_int n) = of_int n"
proof -
  have "\<bar>of_int n :: rat\<bar> < of_int (10 ^ 28)"
    using assms by (simp only: of_int_less_iff flip: of_int_abs)
  then have "\<bar>of_int n :: rat\<bar> < 10 ^ 28" by simp
  then obtain N :: int where "0 < N" "dec (of_int n) = of_int \<lfloor>of_int n * of_int N :: rat\<rfloor> / of_int N"
    by (rule dec_scaled)
  then show ?thesis unfolding of_int_mult [symmetric] floor_of_int by (simp add: of_int_mult)
qed

lemma floor_dec:
  assumes "\<bar>x\<bar> < 10 ^ 28" shows "\<lfloor>dec x\<rfloor> = \<lfloor>x\<rfloor>"
proof -
  obtain N :: int where N: "0 < N" "dec x = of_int \<lfloor>x * of_int N\<rfloor> / of_int N"
    using assms by (rule dec_scaled)
  have "of_int (\<lfloor>x\<rfloor> * N) \<le> x * of_int N" using N(1) by simp
  then have lo: "\<lfloor>x\<rfloor> * N \<le> \<lfloor>x * of_int N\<rfloor>" by (simp only: le_floor_iff)
  have "x * of_int N < (of_int \<lfloor>x\<rfloor> + 1) * of_int N"
    using N(1) floor_correct [of x] by (intro mult_strict_right_mono) simp_all
  then have "x * of_int N < of_int ((\<lfloor>x\<rfloor> + 1) * N)" by simp
  then have hi: "\<lfloor>x * of_int N\<rfloor> < (\<lfloor>x\<rfloor> + 1) * N" by (simp only: floor_less_iff)
  have "\<lfloor>dec x\<rfloor> = \<lfloor>x * of_int N\<rfloor> div N" unfolding N(2) by (rule floor_divide_of_int_eq)
  also have "\<dots> = \<lfloor>x\<rfloor>" using lo hi N(1) by (intro int_div_pos_eq [where r = "\<lfloor>x * of_int N\<rfloor> - \<lfloor>x\<rfloor> * N"])
      (auto simp: algebra_simps)
  finally show ?thesis .
qed

lemma dec_div_floor:
  assumes "0 < g" and "\<bar>t\<bar> < 10 ^ 28"
  obtains q where "dec_div (of_int t) (of_int g) = Inr q" and "\<lfloor>q\<rfloor> = t div g"
proof -
  have "1 * \<bar>of_int t\<bar> \<le> (of_int g :: rat) * \<bar>of_int t\<bar>"
    using assms(1) by (intro mult_right_mono) simp_all
  then have "\<bar>of_int t\<bar> / of_int g \<le> (\<bar>of_int t\<bar> :: rat)"
    using assms(1) by (simp add: pos_divide_le_eq mult.commute)
  moreover have "(of_int \<bar>t\<bar> :: rat) < of_int (10 ^ 28)" using assms(2) by (simp only: of_int_less_iff)
  ultimately have "\<bar>of_int t / of_int g :: rat\<bar> < 10 ^ 28"
    using assms(1) by (simp add: abs_divide)
  then have "\<lfloor>dec (of_int t / of_int g)\<rfloor> = \<lfloor>of_int t / of_int g :: rat\<rfloor>" by (rule floor_dec)
  also have "\<dots> = t div g" by (rule floor_divide_of_int_eq)
  finally show ?thesis using assms(1) that [of "dec (of_int t / of_int g)"] by (simp add: dec_div_def)
qed

section \<open>Bins of time\<close>

lemma dec_whole:
  assumes "\<bar>a\<bar> < 10 ^ 28" and "x = of_int a" shows "dec x = of_int a"
  using dec_of_int [OF assms(1)] assms(2) by (simp only:)

lemma bin_start_bound:
  assumes "0 < g" and "\<bar>t\<bar> < 10 ^ 26" and "g < (10 ^ 26 :: int)" shows "\<bar>t div g * g\<bar> < 2 * 10 ^ 26"
proof -
  have "0 \<le> t mod g" "t mod g < g" using assms(1) by simp_all
  then have "\<bar>t - t mod g\<bar> < 2 * 10 ^ 26" using assms by linarith
  then show ?thesis by (simp add: minus_mod_eq_div_mult)
qed

text \<open>
  A bin starts at a multiple of the interval; for an offset \<open>k\<close> its end is \<open>k + 1\<close> intervals later.
\<close>

lemma find_time_bin_eq:
  assumes "0 < g" and "\<bar>t\<bar> < 10 ^ 26" and "g < 10 ^ 26" and "\<bar>k\<bar> < 10 ^ 26" and "g * \<bar>k\<bar> < 10 ^ 26"
  shows "find_time_bin t (Some k) (Some g) =
    Inr (t div g * g + g * k, t div g * g + g * k + g * (k + 1))"
proof -
  have t: "\<bar>t\<bar> < 10 ^ 28" using assms(2) by simp
  obtain q where q: "dec_div (of_int t) (of_int g) = Inr q" "\<lfloor>q\<rfloor> = t div g"
    using assms(1) t by (rule dec_div_floor)
  have m: "\<bar>t div g * g\<bar> < 2 * 10 ^ 26" using assms(1-3) by (rule bin_start_bound)
  have gk: "\<bar>g * k\<bar> < 10 ^ 26" using assms(1,5) by (simp add: abs_mult)
  have gk1: "\<bar>g * (k + 1)\<bar> < 2 * 10 ^ 26" using gk assms(1,3) by (simp add: distrib_left abs_less_iff)
  have d1: "dec (of_int k + 1) = of_int (k + 1)" using assms(4) by (intro dec_whole) auto
  have d2: "dec (of_int (t div g) * of_int g) = of_int (t div g * g)" using m by (intro dec_whole) auto
  have d3: "dec (of_int g * of_int k) = of_int (g * k)" using gk by (intro dec_whole) auto
  have d4: "dec (of_int (t div g * g) + of_int (g * k)) = of_int (t div g * g + g * k)"
    using m gk by (intro dec_whole) auto
  have d5: "dec (of_int g * of_int (k + 1)) = of_int (g * (k + 1))"
    using gk1 by (intro dec_whole) (simp_all only: of_int_mult, simp)
  have d6: "dec (of_int (t div g * g + g * k) + of_int (g * (k + 1))) =
      of_int (t div g * g + g * k + g * (k + 1))"
    using m gk gk1 by (intro dec_whole) (simp_all only: of_int_add, simp add: abs_less_iff)
  show ?thesis
    unfolding find_time_bin_def Let_def option.case q(1) bind_res.simps q(2) d1 d2 d3 d4 d5 d6
      int_of_float_of_int ..
qed

lemma time_bins_from_eq:
  "0 < g \<Longrightarrow> \<bar>a\<bar> < 10 ^ 27 \<Longrightarrow> \<bar>a + int n * g\<bar> < 10 ^ 27 \<Longrightarrow>
    time_bins_from (of_int g) (of_int a) n = map (\<lambda>i. a + (int i + 1) * g) [0..<n]"
proof (induction n arbitrary: a)
  case (Suc n)
  have "a + g \<le> a + int (Suc n) * g" "a \<le> a + g" using Suc.prems(1) by (simp_all add: distrib_right)
  then have b: "\<bar>a + g\<bar> < 10 ^ 27" using Suc.prems(2,3) by linarith
  then have d: "dec (of_int a + of_int g) = of_int (a + g)" by (intro dec_whole) auto
  have e: "a + g + int n * g = a + int (Suc n) * g" by (simp add: distrib_right)
  have "time_bins_from (of_int g) (of_int (a + g)) n = map (\<lambda>i. a + g + (int i + 1) * g) [0..<n]"
    using Suc.prems b by (intro Suc.IH) (simp_all only: e)
  then show ?case
    unfolding time_bins_from.simps Let_def d int_of_float_of_int
    by (simp add: upt_conv_Cons map_Suc_upt [symmetric] algebra_simps del: upt_Suc)
qed simp

lemma time_bin_gen_eq:
  assumes "0 < g" and "\<bar>t\<bar> < 10 ^ 26" and "int n * g < 10 ^ 26" and "g < 10 ^ 26"
  shows "time_bin_gen t n g = Inr (map (\<lambda>i. t div g * g - (int n - int i - 1) * g) [0..<n])"
proof -
  have t: "\<bar>t\<bar> < 10 ^ 28" using assms(2) by simp
  obtain q where q: "dec_div (of_int t) (of_int g) = Inr q" "\<lfloor>q\<rfloor> = t div g"
    using assms(1) t by (rule dec_div_floor)
  have m: "\<bar>t div g * g\<bar> < 2 * 10 ^ 26" using assms(1,2,4) by (rule bin_start_bound)
  have ng: "\<bar>g * - int n\<bar> < 10 ^ 26" using assms(1,3) by (simp add: abs_mult mult.commute)
  have d1: "dec (of_int (t div g) * of_int g) = of_int (t div g * g)" using m by (intro dec_whole) auto
  have d2: "dec (of_int g * of_int (- int n)) = of_int (g * - int n)" using ng by (intro dec_whole) auto
  have d3: "dec (of_int (t div g * g) + of_int (g * - int n)) = of_int (t div g * g + g * - int n)"
    using m ng by (intro dec_whole) auto
  have e: "t div g * g + g * - int n + int n * g = t div g * g" by (simp add: mult.commute)
  have b: "\<bar>t div g * g + g * - int n\<bar> < 10 ^ 27"
    by (rule order.strict_trans1 [OF abs_triangle_ineq]) 
      (rule order.strict_trans [OF add_strict_mono [OF m ng]], simp)
  have "time_bins_from (of_int g) (of_int (t div g * g + g * - int n)) n =
      map (\<lambda>i. t div g * g + g * - int n + (int i + 1) * g) [0..<n]"
    using assms(1) m b by (intro time_bins_from_eq) (simp_all only: e, simp)
  then show ?thesis
    unfolding time_bin_gen_def Let_def q(1) bind_res.simps q(2) d1 d2 d3
    by (simp add: algebra_simps)
qed

section \<open>Sums over dictionaries\<close>

lemma dict_sum_set:
  fixes f :: "'v \<Rightarrow> int"
  shows "sum_list (map f (dict_values (dict_set k v d))) =
    sum_list (map f (dict_values d)) + f v - (case dict_get k d of None \<Rightarrow> 0 | Some w \<Rightarrow> f w)"
  by (induction d) (auto simp: dict_values_def dict_set_def dict_get_def)

lemma dict_length_set: "length (dict_set k v d) = (if dict_mem k d then length d else Suc (length d))"
  by (induction d) (auto simp: dict_set_def dict_mem_def dict_get_def)

lemma dict_del_set_new: "\<not> dict_mem k d \<Longrightarrow> dict_del k (dict_set k v d) = d"
  by (induction d) (auto simp: dict_set_def dict_del_def dict_mem_def dict_get_def split: if_splits)

section \<open>What a group of offers holds\<close>

definition at_price :: "int \<Rightarrow> rat \<Rightarrow> book_entry list \<Rightarrow> book_entry list" where
  "at_price n q es = filter (\<lambda>e. quantized_price n (e_offer e) = Inr q) es"

definition group_of :: "int \<Rightarrow> rat \<Rightarrow> book_entry list \<Rightarrow> grouped_offer option" where
  "group_of n q es = (if at_price n q es = [] then None
     else Some \<lparr>go_price = q, go_amount = sum_list (map e_base (at_price n q es)),
                go_timeouts = map e_timeout (at_price n q es)\<rparr>)"

lemma group_of_snoc:
  "quantized_price n (e_offer e) = Inr q \<Longrightarrow> group_of n q' (xs @ [e]) =
    (if q' \<noteq> q then group_of n q' xs
     else Some (go_add (e_base e) (e_timeout e)
       (case group_of n q xs of None \<Rightarrow> new_grouped_offer q | Some g \<Rightarrow> g)))"
  by (auto simp: group_of_def at_price_def go_add_def new_grouped_offer_def)

lemma group_loop:
  "group_offers_loop n es d = Inr d' \<Longrightarrow> dict_wf d \<Longrightarrow> (\<And>q. dict_get q d = group_of n q xs) \<Longrightarrow>
    dict_wf d' \<and> (\<forall>q. dict_get q d' = group_of n q (xs @ es)) \<and>
    (\<forall>e \<in> set es. \<exists>q. quantized_price n (e_offer e) = Inr q) \<and>
    sum_list (map go_amount (dict_values d')) =
      sum_list (map go_amount (dict_values d)) + sum_list (map e_base es)"
proof (induction es arbitrary: d xs)
  case (Cons e es)
  obtain q where q: "quantized_price n (e_offer e) = Inr q"
    using Cons.prems(1) by (auto simp: bind_res_Inr_iff)
  define x where "x = go_add (e_base e) (e_timeout e)
    (case dict_get q d of None \<Rightarrow> new_grouped_offer q | Some g \<Rightarrow> g)"
  have "group_offers_loop n es (dict_set q x d) = Inr d'"
    using Cons.prems(1) q by (auto simp: x_def split: option.splits)
  moreover have "dict_get p (dict_set q x d) = group_of n p (xs @ [e])" for p
    using Cons.prems(3) by (simp add: group_of_snoc [OF q] x_def)
  ultimately have "dict_wf d' \<and> (\<forall>q. dict_get q d' = group_of n q ((xs @ [e]) @ es)) \<and>
    (\<forall>e \<in> set es. \<exists>q. quantized_price n (e_offer e) = Inr q) \<and>
    sum_list (map go_amount (dict_values d')) =
      sum_list (map go_amount (dict_values (dict_set q x d))) + sum_list (map e_base es)"
    using Cons.prems(2) by (intro Cons.IH) simp_all
  then show ?case using q
    by (auto simp: dict_sum_set x_def go_add_def new_grouped_offer_def split: option.splits)
qed simp

lemma group_of_price: "group_of n q es = Some g \<Longrightarrow> go_price g = q"
  by (auto simp: group_of_def split: if_splits)

lemma quantize_bounds: "quantize n x = Inr q \<Longrightarrow> q \<le> x \<and> x < q + 1 / 10 ^ nat n"
proof -
  assume "quantize n x = Inr q"
  then have q: "q = of_int \<lfloor>x * 10 ^ nat n\<rfloor> / 10 ^ nat n"
    by (simp add: quantize_def Let_def split: if_splits)
  have "of_int \<lfloor>x * 10 ^ nat n\<rfloor> \<le> x * 10 ^ nat n \<and> x * 10 ^ nat n < of_int \<lfloor>x * 10 ^ nat n\<rfloor> + 1"
    by linarith
  then show ?thesis unfolding q add_divide_distrib [symmetric]
    by (simp add: pos_divide_le_eq pos_less_divide_eq)
qed

text \<open>Values of a dictionary stored under their own key, sorted by it: strictly ascending.\<close>

lemma sorted_by_own_key:
  fixes f :: "'v \<Rightarrow> 'k::linorder"
  assumes "dict_wf d" and "\<And>k v. dict_get k d = Some v \<Longrightarrow> f v = k"
  shows "sorted_wrt (<) (map f (sort_key f (dict_values d)))"
proof -
  have "map f (dict_values d) = map fst d"
    using assms by (auto simp: dict_values_def dict_in_set_get intro!: map_cong)
  then have "distinct (map f (dict_values d))" using assms(1) by (simp add: dict_wf_def)
  then have "distinct (map f (sort_key f (dict_values d)))"
    by (simp add: distinct_map)
  then show ?thesis by (simp add: strict_sorted_iff)
qed

text \<open>C35: Grouping offers by price loses nothing: the groups come in strictly ascending price, each
  offer is in the group whose price is its own rounded down to one decimal, and a group holds the
  sum of the amounts and, in their order, the timeouts of exactly the offers at its price.\<close>

theorem group_offers_correct:
  assumes "group_offers None es = Inr gs"
  shows "sorted_wrt (<) (map go_price gs) \<and>
    (\<forall>e \<in> set es. \<exists>g \<in> set gs. \<exists>p. e_price e = Inr p \<and> go_price g \<le> p \<and> p < go_price g + 1 / 10 \<and>
       e \<in> set (at_price 1 (go_price g) es)) \<and>
    (\<forall>g \<in> set gs. at_price 1 (go_price g) es \<noteq> [] \<and>
       go_amount g = sum_list (map e_base (at_price 1 (go_price g) es)) \<and>
       go_timeouts g = map e_timeout (at_price 1 (go_price g) es)) \<and>
    sum_list (map go_amount gs) = sum_list (map e_base es)"
proof -
  obtain d where d: "group_offers_loop 1 es [] = Inr d" "gs = sort_key go_price (dict_values d)"
    using assms by (auto simp: group_offers_def price_group_precision_def bind_res_Inr_iff)
  have "dict_wf d \<and> (\<forall>q. dict_get q d = group_of 1 q ([] @ es)) \<and>
    (\<forall>e \<in> set es. \<exists>q. quantized_price 1 (e_offer e) = Inr q) \<and>
    sum_list (map go_amount (dict_values d)) =
      sum_list (map go_amount (dict_values ([] :: (rat, grouped_offer) dict))) + sum_list (map e_base es)"
    using d(1) by (rule group_loop) (simp_all add: group_of_def at_price_def)
  then have wf: "dict_wf d" and get: "\<And>q. dict_get q d = group_of 1 q es"
    and q: "\<And>e. e \<in> set es \<Longrightarrow> \<exists>q. quantized_price 1 (e_offer e) = Inr q"
    and sum: "sum_list (map go_amount (dict_values d)) = sum_list (map e_base es)"
    by (auto simp: dict_values_def)
  have mem: "g \<in> set gs \<longleftrightarrow> (\<exists>q. group_of 1 q es = Some g)" for g
    using d(2) by (simp add: dict_values_set_iff [OF wf] get)
  have "\<exists>g \<in> set gs. \<exists>p. e_price e = Inr p \<and> go_price g \<le> p \<and> p < go_price g + 1 / 10 \<and>
      e \<in> set (at_price 1 (go_price g) es)" if e: "e \<in> set es" for e
  proof -
    obtain k where k: "quantized_price 1 (e_offer e) = Inr k" using q [OF e] by blast
    then obtain p where p: "e_price e = Inr p" "quantize 1 p = Inr k"
      by (auto simp: quantized_price_def bind_res_Inr_iff e_price_def)
    have me: "e \<in> set (at_price 1 k es)" using e k by (simp add: at_price_def)
    then have "at_price 1 k es \<noteq> []" by auto
    then obtain g where g: "group_of 1 k es = Some g" by (simp add: group_of_def)
    then have "go_price g = k" by (rule group_of_price)
    then show ?thesis using mem g p me quantize_bounds [OF p(2)] by auto
  qed
  moreover have "sorted_wrt (<) (map go_price gs)"
    unfolding d(2) using wf get group_of_price by (intro sorted_by_own_key) simp_all
  moreover have "mset gs = mset (dict_values d)" using d(2) by simp
  then have "sum_list (map go_amount gs) = sum_list (map e_base es)"
    using sum by (metis mset_map sum_mset_sum_list)
  ultimately show ?thesis using mem by (auto simp: group_of_def split: if_splits)
qed

theorem group_offers_correct_witness:
  "\<exists>gs. group_offers None [example_entry 3 5, example_entry 4 7] = Inr gs \<and>
     sum_list (map go_amount gs) = 12 \<and> sorted_wrt (<) (map go_price gs)"
proof -
  have "quantize 1 2 = Inr 2" by (simp add: quantize_def)
  then have q: "quantized_price 1 (e_offer (example_entry i n)) = Inr 2" if "n = 5 \<or> n = 7" for i n
    using that example_price [of n i] by (auto simp: quantized_price_def e_price_def)
  obtain gs where gs: "group_offers None [example_entry 3 5, example_entry 4 7] = Inr gs"
    by (simp add: group_offers_def price_group_precision_def q)
  have "e_base (example_entry i n) = n" for i n by (simp add: e_base_def example_entry_def)
  then show ?thesis using gs group_offers_correct [OF gs] by (intro exI [of _ gs]) simp
qed

section \<open>Trades in groups\<close>

definition counted :: "trade list \<Rightarrow> int" where
  "counted ts = sum_list (map (\<lambda>t. o_base (td_offer t)) ts)"

lemma trades_loop_sum:
  "group_trades_loop None n g ts d = Inr d' \<Longrightarrow>
    sum_list (map gt_amount (dict_values d')) = sum_list (map gt_amount (dict_values d)) + counted ts"
proof (induction ts arbitrary: d)
  case (Cons t ts)
  then obtain q bucket x where q: "quantized_price n (td_offer t) = Inr q"
    "find_time_bin (td_timestamp t) None (Some g) = Inr (bucket, x)"
    by (auto simp: bind_res_Inr_iff)
  then show ?case using Cons.prems Cons.IH
    by (auto simp: Let_def dict_sum_set gt_add_def new_grouped_trade_def counted_def
        split: option.splits)
qed (simp add: counted_def)

text \<open>With a chunk size the loop stops before the first trade that would open one group too many.\<close>

lemma trades_loop_chunk:
  "group_trades_loop (Some c) n g ts d = Inr d' \<Longrightarrow> int (length d) \<le> c \<Longrightarrow>
    int (length d') \<le> c \<and> (\<exists>k \<le> length ts. group_trades_loop None n g (take k ts) d = Inr d' \<and>
      (k < length ts \<longrightarrow> int (length d') = c))"
proof (induction ts arbitrary: d)
  case (Cons t ts)
  obtain q bucket x where q: "quantized_price n (td_offer t) = Inr q"
    "find_time_bin (td_timestamp t) None (Some g) = Inr (bucket, x)"
    using Cons.prems(1) by (auto simp: bind_res_Inr_iff)
  define key where "key = (double q, bucket, o_type (td_offer t))"
  define y where "y = gt_add (o_base (td_offer t)) (case dict_get key d of
    None \<Rightarrow> new_grouped_trade q bucket (o_id (td_offer t)) (o_type (td_offer t)) | Some y \<Rightarrow> y)"
  have step: "group_trades_loop ch n g (t # us) d =
      (if (case ch of None \<Rightarrow> False | Some c \<Rightarrow> int (length (dict_set key y d)) = c + 1)
       then Inr (dict_del key (dict_set key y d)) else group_trades_loop ch n g us (dict_set key y d))"
    for ch us
    by (simp add: q Let_def key_def [symmetric]) (simp add: y_def key_def split: option.splits)
  show ?case
  proof (cases "int (length (dict_set key y d)) = c + 1")
    case True
    then have new: "\<not> dict_mem key d" using Cons.prems(2) by (auto simp: dict_length_set)
    then have "d' = d" using Cons.prems(1) True by (simp only: step) (simp add: dict_del_set_new)
    moreover have "int (length d) = c" using True new by (simp add: dict_length_set)
    ultimately show ?thesis by (intro conjI exI [of _ 0]) auto
  next
    case False
    then have "group_trades_loop (Some c) n g ts (dict_set key y d) = Inr d'"
      using Cons.prems(1) by (simp only: step) simp
    moreover have "int (length (dict_set key y d)) \<le> c"
      using False Cons.prems(2) by (auto simp: dict_length_set split: if_splits)
    ultimately obtain k where k: "int (length d') \<le> c" "k \<le> length ts"
      "group_trades_loop None n g (take k ts) (dict_set key y d) = Inr d'"
      "k < length ts \<longrightarrow> int (length d') = c" using Cons.IH by blast
    then have "group_trades_loop None n g (take (Suc k) (t # ts)) d = Inr d'"
      by (simp only: take_Suc_Cons step) simp
    then show ?thesis using k by (intro conjI exI [of _ "Suc k"]) auto
  qed
qed simp

text \<open>C36: Asking for at most c groups of trades is grouping a prefix of the trades: the answer has
  at most c groups, is exactly the grouping of the first trades, accounts for all their amounts,
  and stops short of all trades only when it has c groups.\<close>

theorem group_trades_chunk:
  assumes "group_trades ts (Some c) None None = Inr gs" and "0 \<le> c"
  shows "int (length gs) \<le> c \<and>
    (\<exists>k \<le> length ts. group_trades (take k ts) None None None = Inr gs \<and>
       sum_list (map gt_amount gs) = counted (take k ts) \<and>
       (k < length ts \<longrightarrow> int (length gs) = c))"
proof -
  obtain d where d: "group_trades_loop (Some c) price_group_precision time_group_interval_ms ts [] = Inr d"
    "gs = sort_key (\<lambda>x. (gt_timestamp x, gt_price x)) (dict_values d)"
    using assms(1) by (auto simp: group_trades_def bind_res_Inr_iff)
  obtain k where k: "int (length d) \<le> c" "k \<le> length ts"
    "group_trades_loop None price_group_precision time_group_interval_ms (take k ts) [] = Inr d"
    "k < length ts \<longrightarrow> int (length d) = c"
    using trades_loop_chunk [OF d(1)] assms(2) by auto
  have len: "length gs = length d" by (simp add: d(2) dict_values_def)
  have "mset gs = mset (dict_values d)" by (simp add: d(2))
  then have "sum_list (map gt_amount gs) = sum_list (map gt_amount (dict_values d))"
    by (metis mset_map sum_mset_sum_list)
  also have "\<dots> = counted (take k ts)" using trades_loop_sum [OF k(3)] by (simp add: dict_values_def)
  finally show ?thesis using k len d(2) by (auto simp: group_trades_def)
qed

lemma find_time_bin_None:
  "0 < g \<Longrightarrow> \<bar>t\<bar> < 10 ^ 26 \<Longrightarrow> g < 10 ^ 26 \<Longrightarrow>
    find_time_bin t None (Some g) = Inr (t div g * g, t div g * g + g)"
  using find_time_bin_eq [of g t 0] by (simp add: find_time_bin_def)

definition example_trade :: "int \<Rightarrow> trade" where
  "example_trade ts = \<lparr>td_offer = e_offer (example_entry 3 5), td_timestamp = ts\<rparr>"

lemma example_trade_keys:
  assumes "\<bar>ts\<bar> < 10 ^ 26"
  shows "quantized_price 1 (td_offer (example_trade ts)) = Inr 2"
    and "find_time_bin (td_timestamp (example_trade ts)) None (Some 10000) =
      Inr (ts div 10000 * 10000, ts div 10000 * 10000 + 10000)"
    and "td_offer (example_trade ts) = e_offer (example_entry 3 5)"
  using assms example_price [of 5 3] find_time_bin_None [of 10000 ts]
  by (simp_all add: quantized_price_def e_price_def example_trade_def quantize_def)

lemma example_entry_offer:
  "o_type (e_offer (example_entry i n)) = SELL" "o_base (e_offer (example_entry i n)) = n"
  "o_id (e_offer (example_entry i n)) = i"
  by (simp_all add: example_entry_def)

lemma example_trade_price: "quantized_price 1 (e_offer (example_entry 3 5)) = Inr 2"
  using example_trade_keys(1) [of 0] example_trade_keys(3) [of 0] by simp

theorem group_trades_chunk_witness:
  "\<exists>gs. group_trades [example_trade 3, example_trade 4, example_trade 20000] (Some 1) None None = Inr gs \<and>
     length gs \<le> 1 \<and> (\<exists>k \<le> 3. sum_list (map gt_amount gs) =
       counted (take k [example_trade 3, example_trade 4, example_trade 20000]))"
proof -
  let ?ts = "[example_trade 3, example_trade 4, example_trade 20000]"
  obtain gs where gs: "group_trades ?ts (Some 1) None None = Inr gs"
    by (simp add: group_trades_def price_group_precision_def time_group_interval_ms_def
        example_trade_keys example_entry_offer example_trade_price Let_def dict_length_set)
  from group_trades_chunk [OF gs] obtain k where k: "int (length gs) \<le> 1" "k \<le> length ?ts"
    "sum_list (map gt_amount gs) = counted (take k ?ts)" by auto
  then have "k \<le> 3" by simp
  with gs k show ?thesis by (intro exI [of _ gs]) auto
qed

section \<open>The bins of the chart\<close>

lemma pb_add_simps [simp]:
  "pb_timestamp (pb_add ts a p b) = pb_timestamp b"
  "pb_amount (pb_add ts a p b) = pb_amount b + a"
  "pb_open_price (pb_add ts a p b) = pb_open_price b"
  by (simp_all add: pb_add_def Let_def)

lemma add_trades_bin:
  "add_trades ts b = Inr b' \<Longrightarrow> pb_timestamp b' = pb_timestamp b \<and>
    pb_open_price b' = pb_open_price b \<and> pb_amount b' = pb_amount b + counted ts"
  by (induction ts arbitrary: b) (auto simp: bind_res_Inr_iff counted_def)

text \<open>What the loop has built: one bin per period, each opening at the price the last one closed at.\<close>

fun bins_of ::
  "(int option \<Rightarrow> int option \<Rightarrow> trade list res) \<Rightarrow> (int \<times> int) list \<Rightarrow> rat \<Rightarrow> price_bin list \<Rightarrow> bool" where
  "bins_of f [] c bs \<longleftrightarrow> bs = []"
| "bins_of f ((a, z) # ps) c bs \<longleftrightarrow> (\<exists>b bs' ts c'. bs = b # bs' \<and> f (Some a) (Some z) = Inr ts \<and>
     pb_timestamp b = a \<and> pb_open_price b = c \<and> pb_amount b = counted ts \<and>
     close_price b = Inr c' \<and> bins_of f ps c' bs')"

lemma price_bins_loop_bins:
  "price_bins_loop f ps c d = Inr d' \<Longrightarrow> distinct (map fst ps) \<Longrightarrow>
    \<forall>a \<in> set (map fst ps). \<not> dict_mem a d \<Longrightarrow>
    \<exists>bs. dict_values d' = dict_values d @ bs \<and> bins_of f ps c bs"
proof (induction ps arbitrary: c d)
  case (Cons p ps)
  obtain a z where p: "p = (a, z)" by (cases p)
  then obtain ts b c' where s: "f (Some a) (Some z) = Inr ts"
    "add_trades ts (new_price_bin c a) = Inr b" "close_price b = Inr c'"
    "price_bins_loop f ps c' (dict_set a b d) = Inr d'"
    using Cons.prems(1) by (auto simp: bind_res_Inr_iff)
  obtain bs where bs: "dict_values d' = dict_values (dict_set a b d) @ bs" "bins_of f ps c' bs"
    using Cons.IH [OF s(4)] Cons.prems(2,3) p by auto
  have "dict_values (dict_set a b d) = dict_values d @ [b]"
    using Cons.prems(3) p by (simp add: dict_values_set_new)
  moreover have "pb_timestamp b = a" "pb_open_price b = c" "pb_amount b = counted ts"
    using add_trades_bin [OF s(2)] by (simp_all add: new_price_bin_def)
  ultimately show ?case using bs s p by (intro exI [of _ "b # bs"]) auto
qed simp

lemma bins_of_length: "bins_of f ps c bs \<Longrightarrow> length bs = length ps"
  by (induction f ps c bs rule: bins_of.induct) auto

lemma bins_of_nth:
  "bins_of f ps c bs \<Longrightarrow> i < length ps \<Longrightarrow>
    pb_timestamp (bs ! i) = fst (ps ! i) \<and>
    (\<exists>ts. f (Some (fst (ps ! i))) (Some (snd (ps ! i))) = Inr ts \<and> pb_amount (bs ! i) = counted ts) \<and>
    (Suc i < length ps \<longrightarrow> close_price (bs ! i) = Inr (pb_open_price (bs ! Suc i)))"
proof (induction ps arbitrary: c bs i)
  case (Cons p ps)
  obtain a z where p: "p = (a, z)" by (cases p)
  then obtain b bs' ts c' where s: "bs = b # bs'" "f (Some a) (Some z) = Inr ts"
    "pb_timestamp b = a" "pb_amount b = counted ts" "close_price b = Inr c'" "bins_of f ps c' bs'"
    using Cons.prems(1) by auto
  show ?case
  proof (cases i)
    case 0
    have "pb_open_price (bs' ! 0) = c'" if "0 < length ps"
      using that s(6) by (cases ps) auto
    then show ?thesis using s p 0 by simp
  next
    case (Suc j)
    then show ?thesis using Cons.IH [OF s(6), of j] Cons.prems(2) s(1) by simp
  qed
qed simp

lemma chart_periods:
  assumes "0 < g" and "\<bar>t\<bar> < 10 ^ 25" and "(int n + 2) * g < 10 ^ 25"
  shows "time_bin_gen t 2 g = Inr [t div g * g - g, t div g * g]"
    and "time_bin_gen (t div g * g - g) (n + 1) g =
      Inr (map (\<lambda>i. t div g * g - (int n - int i + 1) * g) [0..<n + 1])"
    and "time_bin_gen (t div g * g) (n + 1) g =
      Inr (map (\<lambda>i. t div g * g - (int n - int i) * g) [0..<n + 1])"
proof -
  define z where "z = t div g * g"
  have le: "1 * g \<le> (int n + 2) * g" "2 * g \<le> (int n + 2) * g" "(int n + 1) * g \<le> (int n + 2) * g"
    using assms(1) by (intro mult_right_mono; simp)+
  have "0 \<le> t mod g" "t mod g < g" "z = t - t mod g"
    using assms(1) by (simp_all add: z_def minus_mod_eq_div_mult)
  then have z: "\<bar>z\<bar> < 3 * 10 ^ 25" "\<bar>z - g\<bar> < 3 * 10 ^ 25" using assms le by linarith+
  have bound: "x < 10 ^ 26" if "x < 3 * 10 ^ 25" for x :: int using that by simp
  have small: "x < 3 * 10 ^ 25" if "x < 10 ^ 25" for x :: int using that by simp
  have b: "g < 10 ^ 26" "int 2 * g < 10 ^ 26" "int (n + 1) * g < 10 ^ 26" "\<bar>t\<bar> < 10 ^ 26"
    using le assms(2,3) by (intro bound small; simp add: add.commute)+
  have zb: "\<bar>z\<bar> < 10 ^ 26" "\<bar>z - g\<bar> < 10 ^ 26" using z by (intro bound; simp)+
  have d: "z div g * g = z" "(z - g) div g * g = z - g"
    using assms(1) by (simp_all add: z_def left_diff_distrib)
  show "time_bin_gen t 2 g = Inr [t div g * g - g, t div g * g]"
    using time_bin_gen_eq [OF assms(1) b(4,2,1)] by (simp add: upt_rec numeral_2_eq_2)
  show "time_bin_gen (t div g * g - g) (n + 1) g =
      Inr (map (\<lambda>i. t div g * g - (int n - int i + 1) * g) [0..<n + 1])"
    using time_bin_gen_eq [OF assms(1) zb(2) b(3,1)] d unfolding z_def
    by (simp add: algebra_simps del: upt_Suc)
  show "time_bin_gen (t div g * g) (n + 1) g =
      Inr (map (\<lambda>i. t div g * g - (int n - int i) * g) [0..<n + 1])"
    using time_bin_gen_eq [OF assms(1) zb(1) b(3,1)] d unfolding z_def
    by (simp add: algebra_simps del: upt_Suc)
qed

lemma make_price_bins_eq:
  assumes "make_price_bins f now n interval = Inr bs" and "float_mul interval 1000 = Inr ms"
    and "time_now now = Inr t" and "g = int_of_float ms"
    and g: "0 < g" and "\<bar>t\<bar> < 10 ^ 25" and "(int n + 2) * g < 10 ^ 25"
  shows "length bs = n \<and> (\<forall>i < n. let a = t div g * g - (int n - int i) * g in
    pb_timestamp (bs ! i) = a \<and>
    (\<exists>ts. f (Some a) (Some (a + g)) = Inr ts \<and> pb_amount (bs ! i) = counted ts) \<and>
    (Suc i < n \<longrightarrow> close_price (bs ! i) = Inr (pb_open_price (bs ! Suc i))))"
proof -
  note periods = chart_periods [OF g assms(6,7)]
  define z where "z = t div g * g"
  define ps where "ps = map (\<lambda>i. (z - (int n - int i + 1) * g, z - (int n - int i) * g)) [0..<n + 1]"
  have "zip (map (\<lambda>i. z - (int n - int i + 1) * g) [0..<n + 1])
      (map (\<lambda>i. z - (int n - int i) * g) [0..<n + 1]) = ps"
    unfolding ps_def by (simp add: zip_map_map zip_same_conv_map del: upt_Suc)
  then obtain d where d: "price_bins_loop f ps 0 [] = Inr d"
    "bs = tl (sort_key pb_timestamp (dict_values d))"
    using assms(1) periods unfolding make_price_bins_def z_def assms(2,3) bind_res.simps Let_def
      assms(4) [symmetric]
    by (auto simp: bind_res_Inr_iff simp del: upt_Suc split: if_splits)
  have fst: "map fst ps = map (\<lambda>i. z - (int n - int i + 1) * g) [0..<n + 1]"
    by (simp add: ps_def o_def del: upt_Suc)
  have inc: "sorted_wrt (<) (map fst ps)"
    unfolding fst sorted_wrt_map using g
    by (intro sorted_wrt_mono_rel [OF _ sorted_wrt_upt]) auto
  then obtain cs where cs: "dict_values d = cs" "bins_of f ps 0 cs"
    using price_bins_loop_bins [OF d(1)] by (auto simp: strict_sorted_iff dict_values_def)
  have len: "length cs = n + 1" using bins_of_length [OF cs(2)] by (simp add: ps_def)
  have "map pb_timestamp cs = map fst ps"
    using bins_of_nth [OF cs(2)] len by (intro nth_equalityI) (auto simp: ps_def simp del: upt_Suc)
  then have "sort_key pb_timestamp cs = cs"
    using inc by (intro sort_key_id_if_sorted) (simp add: strict_sorted_iff)
  then have bs: "bs = tl cs" using d(2) cs(1) by simp
  have nth: "bs ! i = cs ! Suc i" if "i < n" for i using that len bs by (simp add: nth_tl)
  have p: "ps ! Suc i = (z - (int n - int i) * g, z - (int n - int i) * g + g)" "Suc i < length ps"
    if "i < n" for i
    using that by (simp_all add: ps_def algebra_simps del: upt_Suc)
  have lps: "length ps = Suc n" by (simp add: ps_def)
  have "length bs = n" using bs len by simp
  moreover have "pb_timestamp (bs ! i) = z - (int n - int i) * g \<and>
    (\<exists>ts. f (Some (z - (int n - int i) * g)) (Some (z - (int n - int i) * g + g)) = Inr ts \<and>
       pb_amount (bs ! i) = counted ts) \<and>
    (Suc i < n \<longrightarrow> close_price (bs ! i) = Inr (pb_open_price (bs ! Suc i)))" if i: "i < n" for i
    using bins_of_nth [OF cs(2) p(2) [OF i]] nth [of "Suc i"]
    unfolding p(1) [OF i] fst_conv snd_conv lps nth [OF i] by simp
  ultimately show ?thesis unfolding z_def Let_def by blast
qed

text \<open>C34: The price chart tiles time: asked for n bins it returns exactly n, of one interval each,
  without gaps or overlaps, the last one ending at the last multiple of the interval before the
  clock; a bin's amount is that of the trades in its half-open period, and each bin opens at the
  price at which the one before it closed.\<close>

theorem price_chart_tiles:
  assumes "price_chart_bins v now n interval = Inr bs"
    and "trades_ok v" and "\<And>x. x \<in> set (trades_values v) \<Longrightarrow> 0 \<le> o_id (td_offer x)"
    and "float_mul interval 1000 = Inr ms" and "time_now now = Inr t"
    and "g = int_of_float ms" and "0 < g" and "\<bar>t\<bar> < 10 ^ 25" and "(n + 2) * g < 10 ^ 25"
  shows "int (length bs) = n \<and> (\<forall>i < length bs. let a = t div g * g - (n - int i) * g in
    pb_timestamp (bs ! i) = a \<and>
    pb_amount (bs ! i) = counted (filter (\<lambda>x. a \<le> td_timestamp x \<and> td_timestamp x < a + g) (trades_values v)) \<and>
    (Suc i < length bs \<longrightarrow> close_price (bs ! i) = Inr (pb_open_price (bs ! Suc i))))"
proof -
  have n: "1 \<le> n" "make_price_bins (\<lambda>a z. view_trades a z v) now (nat n) interval = Inr bs"
    using assms(1) by (auto simp: price_chart_bins_def split: if_splits)
  have "(int (nat n) + 2) * g < 10 ^ 25" using n(1) assms(9) by simp
  note bins = make_price_bins_eq [OF n(2) assms(4-8) this]
  have "view_trades (Some a) (Some (a + g)) v = Inr (filter (\<lambda>x. a \<le> td_timestamp x \<and> td_timestamp x < a + g)
      (trades_values v))" for a
    using view_trades_eq [OF assms(2,3), of "Some a" "Some (a + g)"] by simp
  then show ?thesis using bins n(1) by (auto simp: Let_def)
qed

theorem price_chart_tiles_witness:
  "\<exists>bs. price_chart_bins empty_trades 25000000 2 10 = Inr bs \<and> length bs = 2 \<and>
     pb_timestamp (bs ! 0) = 0 \<and> pb_timestamp (bs ! 1) = 10000"
proof -
  have ms: "float_mul 10 1000 = Inr (of_int 10000)"
    using to_double_of_int [of 10000] by (simp add: float_mul_def)
  have t: "time_now 25000000 = Inr 25000"
    using dt_to_ms_whole [of 25000] by (simp add: time_now_def)
  have v: "view_trades a z empty_trades = Inr []" for a z
    using view_trades_eq [OF trades_ok_empty, of a z] by (simp add: empty_trades_def trades_values_def sd_values_def)
  have p: "time_bin_gen 25000 2 10000 = Inr [10000, 20000]"
    "time_bin_gen 10000 3 10000 = Inr [-10000, 0, 10000]"
    "time_bin_gen 20000 3 10000 = Inr [0, 10000, 20000]"
    using chart_periods [of 10000 25000 2] by (simp_all add: upt_rec)
  have "\<exists>bs. price_chart_bins empty_trades 25000000 2 10 = Inr bs"
    unfolding price_chart_bins_def make_price_bins_def ms t bind_res.simps Let_def int_of_float_of_int p
    by (simp add: v close_price_def new_price_bin_def dict_length_set p)
  then obtain bs where bs: "price_chart_bins empty_trades 25000000 2 10 = Inr bs" by blast
  have "x \<in> set (trades_values empty_trades) \<Longrightarrow> 0 \<le> o_id (td_offer x)" for x
    by (simp add: empty_trades_def trades_values_def sd_values_def)
  from price_chart_tiles [OF bs trades_ok_empty this ms t, of 10000]
  have len: "int (length bs) = 2"
    and i: "\<forall>i < length bs. pb_timestamp (bs ! i) = 25000 div 10000 * 10000 - (2 - int i) * 10000"
    using int_of_float_of_int [of 10000] by (simp_all add: Let_def)
  have "length bs = 2" using len by simp
  with i [rule_format, of 0] i [rule_format, of 1] bs show ?thesis by (intro exI [of _ bs]) simp
qed

text \<open>Every timestamp falls into the bin found for it, which is one interval wide and starts at a
  multiple of the interval; with an offset k the start moves by k intervals and the width grows to
  k + 1 intervals, so the end is the start of the next bin only for offset 0.\<close>

theorem time_bin_holds:
  assumes "0 < g" and "\<bar>t\<bar> < 10 ^ 26" and "g < 10 ^ 26" and "\<bar>k\<bar> < 10 ^ 26" and "g * \<bar>k\<bar> < 10 ^ 26"
  shows "\<exists>a. find_time_bin t None (Some g) = Inr (a, a + g) \<and> a \<le> t \<and> t < a + g \<and> g dvd a \<and>
    find_time_bin t (Some k) (Some g) = Inr (a + k * g, a + k * g + (k + 1) * g)"
proof (intro exI conjI)
  let ?a = "t div g * g"
  show "find_time_bin t None (Some g) = Inr (?a, ?a + g)" using assms by (intro find_time_bin_None)
  have "0 \<le> t mod g" "t mod g < g" "?a = t - t mod g" using assms(1) by (simp_all add: minus_mod_eq_div_mult)
  then show "?a \<le> t" "t < ?a + g" by linarith+
  show "g dvd ?a" by simp
  show "find_time_bin t (Some k) (Some g) = Inr (?a + k * g, ?a + k * g + (k + 1) * g)"
    using find_time_bin_eq [OF assms] by (simp add: mult.commute)
qed

theorem time_bin_holds_witness:
  "\<exists>a. find_time_bin 25000 None (Some 10000) = Inr (a, a + 10000) \<and> a \<le> 25000 \<and>
     find_time_bin 25000 (Some 1) (Some 10000) = Inr (a + 10000, a + 30000)"
  using time_bin_holds [of 10000 25000 1] by auto

end
