(* ===== verification/Trader_Mock.thy ===== *)
theory Trader_Mock
  imports Offers Refunds Timestamps "HOL-Library.Char_ord"
begin

text \<open>
  \<open>trader_mock/trader.py\<close>: the trader that stands in for the payment network, its clients with their
  balances, and the listeners for transfers. The hash of strings and the clock reading are arguments.
  A method that waits for a result is modelled in two steps, before and after the result is there;
  a client, an asynchronous result and the queue of a listener are known by number.
\<close>

section \<open>Printed forms\<close>

definition digit_char :: "nat \<Rightarrow> char" where
  "digit_char n = char_of (if n < 10 then 48 + n else 87 + n)"

fun show_nat :: "nat \<Rightarrow> string" where
  "show_nat n = (if n < 10 then [digit_char n] else show_nat (n div 10) @ [digit_char (n mod 10)])"

declare show_nat.simps [simp del]

definition show_int :: "int \<Rightarrow> string" where
  "show_int n = (if n < 0 then ''-'' @ show_nat (nat (- n)) else show_nat (nat n))"

fun show_type :: "offer_type \<Rightarrow> string" where
  "show_type BUY = ''OfferType.BUY''"
| "show_type SELL = ''OfferType.SELL''"

text \<open>\<open>str\<close> of bytes is their \<open>repr\<close>: the quote is a double one only for bytes with a single and
  without a double quote.\<close>

definition repr_byte :: "nat \<Rightarrow> nat \<Rightarrow> string" where
  "repr_byte quote_code b =
     (if b = 92 then [char_of (92::nat), char_of (92::nat)]
      else if b = quote_code then [char_of (92::nat), char_of b]
      else if b = 9 then [char_of (92::nat), CHR ''t'']
      else if b = 10 then [char_of (92::nat), CHR ''n'']
      else if b = 13 then [char_of (92::nat), CHR ''r'']
      else if b < 32 \<or> 127 \<le> b
      then [char_of (92::nat), CHR ''x'', digit_char (b div 16), digit_char (b mod 16)]
      else [char_of b])"

definition show_bytes :: "bytes \<Rightarrow> string" where
  "show_bytes bs =
     (let codes = map unat bs; quote_code = (if 39 \<in> set codes \<and> 34 \<notin> set codes then 34 else 39) in
      CHR ''b'' # char_of quote_code # concat (map (repr_byte quote_code) codes) @ [char_of quote_code])"

section \<open>The trader\<close>

record mock_event =
  ev_initiator :: bytes
  ev_amount :: int
  ev_identifier :: int

text \<open>What a listener does with an event before it is queued: nothing, or \<open>TransferReceivedListener\<close>
  with the initiator it may be restricted to.\<close>

datatype transform = No_transform | Received_transform "bytes option"

datatype mock_queued = Raw_event mock_event | Receipt transfer_receipt

record mock_listener =
  ml_address :: bytes
  ml_queue :: nat
  ml_transform :: transform

record mock_client =
  mc_address :: bytes
  mc_base :: int
  mc_quote :: int
  mc_commitment :: int
  mc_running :: bool

record mock =
  mk_expected :: "(int, nat) dict"
  mk_results :: "bool option list"
  mk_listeners :: "(bytes, mock_listener list) dict"
  mk_queues :: "mock_queued list list"
  mk_clients :: "mock_client list"
  mk_update_tasks :: "(nat \<times> nat) list"

definition empty_mock :: mock where
  "empty_mock = \<lparr>mk_expected = [], mk_results = [], mk_listeners = [], mk_queues = [],
     mk_clients = [], mk_update_tasks = []\<rparr>"

definition expect_key ::
  "(string \<Rightarrow> int) \<Rightarrow> offer_type \<Rightarrow> int \<Rightarrow> int \<Rightarrow> bytes \<Rightarrow> bytes \<Rightarrow> int \<Rightarrow> int" where
  "expect_key hash t base_amount quote_amount self_address target_address identifier =
     hash (show_type t @ show_int base_amount @ show_int quote_amount @ show_bytes target_address @
       show_bytes self_address @ show_int identifier)"

definition exchange_key ::
  "(string \<Rightarrow> int) \<Rightarrow> offer_type \<Rightarrow> int \<Rightarrow> int \<Rightarrow> bytes \<Rightarrow> bytes \<Rightarrow> int \<Rightarrow> int" where
  "exchange_key hash t base_amount quote_amount self_address target_address identifier =
     hash (show_type t @ show_int base_amount @ show_int quote_amount @ show_bytes self_address @
       show_bytes target_address @ show_int identifier)"

text \<open>Both return the number of their asynchronous result.\<close>

definition trader_expect ::
  "(string \<Rightarrow> int) \<Rightarrow> offer_type \<Rightarrow> int \<Rightarrow> int \<Rightarrow> bytes \<Rightarrow> bytes \<Rightarrow> int \<Rightarrow> (mock, nat) prog" where
  "trader_expect hash t base_amount quote_amount self_address target_address identifier s =
     (let r = length (mk_results s);
          key = expect_key hash t base_amount quote_amount self_address target_address identifier in
      (Inr r, s\<lparr>mk_results := mk_results s @ [None], mk_expected := dict_set key r (mk_expected s)\<rparr>))"

definition trader_exchange ::
  "(string \<Rightarrow> int) \<Rightarrow> offer_type \<Rightarrow> int \<Rightarrow> int \<Rightarrow> bytes \<Rightarrow> bytes \<Rightarrow> int \<Rightarrow> (mock, nat) prog" where
  "trader_exchange hash t base_amount quote_amount self_address target_address identifier s =
     (let r = length (mk_results s);
          key = exchange_key hash t base_amount quote_amount self_address target_address identifier in
      case dict_get key (mk_expected s) of
        Some e \<Rightarrow> (Inr r, s\<lparr>mk_results := (mk_results s)[e := Some True] @ [Some True],
                            mk_expected := dict_del key (mk_expected s)\<rparr>)
      | None \<Rightarrow> (Inr r, s\<lparr>mk_results := mk_results s @ [Some False]\<rparr>))"

text \<open>\<open>TransferReceivedListener._transform\<close>; every event of the mock is a received payment.\<close>

definition received_transform ::
  "datetime \<Rightarrow> bytes option \<Rightarrow> mock_event \<Rightarrow> transfer_receipt option res" where
  "received_transform now initiator ev =
     (if (case initiator of None \<Rightarrow> False | Some a \<Rightarrow> ev_initiator ev \<noteq> a) then Inr None
      else bind_res (time_now now) (\<lambda>ts.
        if \<not> is_binary_address (ev_initiator ev) then Inl TypeError
        else Inr (Some \<lparr>tr_initiator = ev_initiator ev, tr_amount = ev_amount ev,
                        tr_identifier = ev_identifier ev, tr_timestamp = ts\<rparr>)))"

definition apply_transform :: "datetime \<Rightarrow> transform \<Rightarrow> mock_event \<Rightarrow> mock_queued option res" where
  "apply_transform now f ev =
     (case f of
        No_transform \<Rightarrow> Inr (Some (Raw_event ev))
      | Received_transform initiator \<Rightarrow>
          bind_res (received_transform now initiator ev) (\<lambda>r. Inr (map_option Receipt r)))"

definition put_mock_event :: "datetime \<Rightarrow> mock_event \<Rightarrow> mock_listener \<Rightarrow> (mock, unit) prog" where
  "put_mock_event now ev l =
     seq (lift_res (apply_transform now (ml_transform l) ev)) (\<lambda>x.
     case x of
       None \<Rightarrow> return ()
     | Some y \<Rightarrow> modify (\<lambda>s. s\<lparr>mk_queues := (mk_queues s)[ml_queue l := mk_queues s ! ml_queue l @ [y]]\<rparr>))"

text \<open>The listeners are a \<open>defaultdict\<close>: asking for an address that has none makes an empty list.\<close>

definition trader_transfer ::
  "datetime \<Rightarrow> bytes \<Rightarrow> bytes \<Rightarrow> int \<Rightarrow> int \<Rightarrow> (mock, bool) prog" where
  "trader_transfer now self_address target_address amount identifier =
     seq (modify (\<lambda>s. if dict_mem target_address (mk_listeners s) then s
                      else s\<lparr>mk_listeners := dict_set target_address [] (mk_listeners s)\<rparr>)) (\<lambda>_.
     seq (get_state (\<lambda>s. dict_get target_address (mk_listeners s))) (\<lambda>ls.
     seq (for_each (put_mock_event now \<lparr>ev_initiator = self_address, ev_amount = amount,
                                   ev_identifier = identifier\<rparr>)
            (case ls of None \<Rightarrow> [] | Some xs \<Rightarrow> xs)) (\<lambda>_.
     return True)))"

definition trader_listen :: "bytes \<Rightarrow> transform \<Rightarrow> (mock, mock_listener) prog" where
  "trader_listen address f s =
     (let l = \<lparr>ml_address = address, ml_queue = length (mk_queues s), ml_transform = f\<rparr>;
          ls = (case dict_get address (mk_listeners s) of None \<Rightarrow> [] | Some xs \<Rightarrow> xs) in
      (Inr l, s\<lparr>mk_queues := mk_queues s @ [[]],
                mk_listeners := dict_set address (ls @ [l]) (mk_listeners s)\<rparr>))"

definition trader_stop_listen :: "mock_listener \<Rightarrow> (mock, unit) prog" where
  "trader_stop_listen l s =
     (case dict_get (ml_address l) (mk_listeners s) of
        None \<Rightarrow> (Inl ValueError, s)
      | Some ls \<Rightarrow>
          if l \<in> set ls
          then (Inr (), s\<lparr>mk_listeners := dict_set (ml_address l) (remove1 l ls) (mk_listeners s)\<rparr>)
          else (Inl ValueError, s))"

section \<open>The clients\<close>

definition new_client :: "bytes \<Rightarrow> int \<Rightarrow> mock_client" where
  "new_client address commitment_balance =
     \<lparr>mc_address = address, mc_base = 100, mc_quote = 100, mc_commitment = commitment_balance,
      mc_running = False\<rparr>"

definition execute_exchange :: "offer_type \<Rightarrow> int \<Rightarrow> int \<Rightarrow> mock_client \<Rightarrow> mock_client" where
  "execute_exchange t base_amount quote_amount c =
     (if t = SELL then c\<lparr>mc_base := mc_base c - base_amount, mc_quote := mc_quote c + quote_amount\<rparr>
      else c\<lparr>mc_base := mc_base c + base_amount, mc_quote := mc_quote c - quote_amount\<rparr>)"

definition on_client :: "nat \<Rightarrow> (mock_client \<Rightarrow> mock_client) \<Rightarrow> mock \<Rightarrow> mock" where
  "on_client i f s = s\<lparr>mk_clients := (mk_clients s)[i := f (mk_clients s ! i)]\<rparr>"

text \<open>\<open>TraderClientMock.start\<close>: the task that updates the balance listens with its own queue.\<close>

definition client_start :: "nat \<Rightarrow> (mock, unit) prog" where
  "client_start i s =
     (if mc_running (mk_clients s ! i) then (Inr (), s)
      else seq (trader_listen (mc_address (mk_clients s ! i)) (Received_transform None)) (\<lambda>l.
        modify (\<lambda>s. on_client i (\<lambda>c. c\<lparr>mc_running := True\<rparr>)
          (s\<lparr>mk_update_tasks := mk_update_tasks s @ [(i, ml_queue l)]\<rparr>))) s)"

definition client_expect ::
  "(string \<Rightarrow> int) \<Rightarrow> nat \<Rightarrow> offer_type \<Rightarrow> int \<Rightarrow> int \<Rightarrow> bytes \<Rightarrow> int \<Rightarrow> (mock, nat) prog" where
  "client_expect hash i t base_amount quote_amount target_address identifier s =
     trader_expect hash t base_amount quote_amount (mc_address (mk_clients s ! i)) target_address identifier s"

text \<open>The rest of \<open>expect_exchange_async\<close> once its result \<open>r\<close> is there; \<open>None\<close> while it waits.\<close>

definition client_expected ::
  "nat \<Rightarrow> nat \<Rightarrow> offer_type \<Rightarrow> int \<Rightarrow> int \<Rightarrow> (mock, bool option) prog" where
  "client_expected i r t base_amount quote_amount s =
     (case mk_results s ! r of
        None \<Rightarrow> (Inr None, s)
      | Some True \<Rightarrow> (case opposite t of
            Inl e \<Rightarrow> (Inl e, s)
          | Inr t' \<Rightarrow> (Inr (Some True), on_client i (execute_exchange t' base_amount quote_amount) s))
      | Some False \<Rightarrow> (Inr (Some False), s))"

definition client_exchange ::
  "(string \<Rightarrow> int) \<Rightarrow> nat \<Rightarrow> offer_type \<Rightarrow> int \<Rightarrow> int \<Rightarrow> bytes \<Rightarrow> int \<Rightarrow> (mock, bool) prog" where
  "client_exchange hash i t base_amount quote_amount target_address identifier =
     seq (get_state (\<lambda>s. mc_address (mk_clients s ! i))) (\<lambda>a.
     seq (trader_exchange hash t base_amount quote_amount a target_address identifier) (\<lambda>r.
     seq (get_state (\<lambda>s. mk_results s ! r)) (\<lambda>x.
     if x = Some True
     then seq (modify (on_client i (execute_exchange t base_amount quote_amount))) (\<lambda>_. return True)
     else return False)))"

definition client_transfer :: "datetime \<Rightarrow> nat \<Rightarrow> bytes \<Rightarrow> int \<Rightarrow> int \<Rightarrow> (mock, bool) prog" where
  "client_transfer now i target_address amount identifier s =
     (if \<not> amount \<le> mc_commitment (mk_clients s ! i) then (Inr False, s)
      else seq (trader_transfer now (mc_address (mk_clients s ! i)) target_address amount identifier) (\<lambda>ok.
        if ok then seq (modify (on_client i (\<lambda>c. c\<lparr>mc_commitment := mc_commitment c - amount\<rparr>))) (\<lambda>_. return ok)
        else return ok) s)"

text \<open>One round of \<open>BalanceUpdateTask\<close>: it takes the next receipt of its queue, if there is one.\<close>

definition balance_update :: "nat \<times> nat \<Rightarrow> (mock, unit) prog" where
  "balance_update task s =
     (case mk_queues s ! snd task of
        [] \<Rightarrow> (Inr (), s)
      | Receipt r # rest \<Rightarrow> (Inr (), on_client (fst task) (\<lambda>c. c\<lparr>mc_commitment := mc_commitment c + tr_amount r\<rparr>)
            (s\<lparr>mk_queues := (mk_queues s)[snd task := rest]\<rparr>))
      | Raw_event e # rest \<Rightarrow> (Inl AttributeError, s\<lparr>mk_queues := (mk_queues s)[snd task := rest]\<rparr>))"

section \<open>Exchanges\<close>

lemma keys_meet:
  "exchange_key hash t b q taker maker i = expect_key hash t b q maker taker i"
  by (simp add: exchange_key_def expect_key_def)

lemma opposite_executes:
  "opposite t = Inr t' \<Longrightarrow> mc_base (execute_exchange t' b q c) + mc_base (execute_exchange t b q d) = mc_base c + mc_base d \<and>
    mc_quote (execute_exchange t' b q c) + mc_quote (execute_exchange t b q d) = mc_quote c + mc_quote d"
  by (cases t) (auto simp: execute_exchange_def)

lemma opposite_total: obtains t' where "opposite t = Inr t'"
  by (cases t) auto

lemma client_exchange_eq:
  "dict_get (exchange_key hash t b q (mc_address (mk_clients s ! i)) a n) (mk_expected s) = Some r \<Longrightarrow>
    client_exchange hash i t b q a n s = (Inr True, on_client i (execute_exchange t b q)
      (s\<lparr>mk_results := (mk_results s)[r := Some True] @ [Some True],
         mk_expected := dict_del (exchange_key hash t b q (mc_address (mk_clients s ! i)) a n) (mk_expected s)\<rparr>))"
  by (simp add: client_exchange_def prog_simps trader_exchange_def Let_def nth_append)

text \<open>An exchange that meets an expectation under the same key, whoever made it.\<close>

lemma exchange_meets:
  assumes "i \<noteq> j" and "i < length (mk_clients s)" and "j < length (mk_clients s)"
    and "exchange_key hash t b' q' (mc_address (mk_clients s ! j)) (mc_address (mk_clients s ! i)) n =
         expect_key hash t b q (mc_address (mk_clients s ! i)) (mc_address (mk_clients s ! j)) n"
    and "opposite t = Inr t'"
  shows "\<exists>r s1 s2 s3. client_expect hash i t b q (mc_address (mk_clients s ! j)) n s = (Inr r, s1) \<and>
    client_expected i r t b q s1 = (Inr None, s1) \<and>
    client_exchange hash j t b' q' (mc_address (mk_clients s ! i)) n s1 = (Inr True, s2) \<and>
    client_expected i r t b q s2 = (Inr (Some True), s3) \<and>
    mk_clients s3 = (mk_clients s)[j := execute_exchange t b' q' (mk_clients s ! j),
                                   i := execute_exchange t' b q (mk_clients s ! i)] \<and>
    dict_get (expect_key hash t b q (mc_address (mk_clients s ! i)) (mc_address (mk_clients s ! j)) n)
      (mk_expected s3) = None"
proof -
  let ?a = "mc_address (mk_clients s ! i)" and ?k = "mc_address (mk_clients s ! j)"
  let ?key = "expect_key hash t b q ?a ?k n"
  define s1 where "s1 = s\<lparr>mk_results := mk_results s @ [None],
    mk_expected := dict_set ?key (length (mk_results s)) (mk_expected s)\<rparr>"
  have s1: "mk_clients s1 = mk_clients s" "mk_results s1 = mk_results s @ [None]"
    "mk_expected s1 = dict_set ?key (length (mk_results s)) (mk_expected s)"
    by (simp_all add: s1_def)
  define s2 where "s2 = on_client j (execute_exchange t b' q')
    (s1\<lparr>mk_results := (mk_results s1)[length (mk_results s) := Some True] @ [Some True],
        mk_expected := dict_del ?key (mk_expected s1)\<rparr>)"
  have e: "client_expect hash i t b q ?k n s = (Inr (length (mk_results s)), s1)"
    by (simp add: client_expect_def trader_expect_def Let_def s1_def)
  have x: "client_exchange hash j t b' q' ?a n s1 = (Inr True, s2)"
    using client_exchange_eq [of hash t b' q' s1 j ?a n "length (mk_results s)"] assms(4)
    by (simp add: s1 s2_def)
  have s2: "mk_clients s2 = (mk_clients s)[j := execute_exchange t b' q' (mk_clients s ! j)]"
    "mk_results s2 ! length (mk_results s) = Some True" "dict_get ?key (mk_expected s2) = None"
    by (simp_all add: s2_def on_client_def s1 nth_append)
  have w: "client_expected i (length (mk_results s)) t b q s1 = (Inr None, s1)"
    by (simp add: client_expected_def s1)
  have y: "client_expected i (length (mk_results s)) t b q s2 =
      (Inr (Some True), on_client i (execute_exchange t' b q) s2)"
    using assms(5) by (simp add: client_expected_def s2)
  show ?thesis
    by (intro exI conjI, rule e, rule w, rule x, rule y)
      (use assms in \<open>simp_all add: on_client_def s2\<close>)
qed

text \<open>C37: An exchange on the mock network settles: the maker's expectation waits until the taker makes
  the matching exchange; then both succeed, the two balances change by opposite amounts, no base or
  quote amount is created or lost, nobody else's balance changes, and the expectation is used up.\<close>

theorem exchange_settles:
  assumes "i \<noteq> j" and "i < length (mk_clients s)" and "j < length (mk_clients s)"
  shows "\<exists>r s1 s2 s3. client_expect hash i t b q (mc_address (mk_clients s ! j)) n s = (Inr r, s1) \<and>
    client_expected i r t b q s1 = (Inr None, s1) \<and>
    client_exchange hash j t b q (mc_address (mk_clients s ! i)) n s1 = (Inr True, s2) \<and>
    client_expected i r t b q s2 = (Inr (Some True), s3) \<and>
    mk_clients s3 ! j = execute_exchange t b q (mk_clients s ! j) \<and>
    mc_base (mk_clients s3 ! i) + mc_base (mk_clients s3 ! j) = mc_base (mk_clients s ! i) + mc_base (mk_clients s ! j) \<and>
    mc_quote (mk_clients s3 ! i) + mc_quote (mk_clients s3 ! j) = mc_quote (mk_clients s ! i) + mc_quote (mk_clients s ! j) \<and>
    (\<forall>k. k \<noteq> i \<and> k \<noteq> j \<longrightarrow> mk_clients s3 ! k = mk_clients s ! k) \<and>
    fst (client_exchange hash j t b q (mc_address (mk_clients s ! i)) n s3) = Inr False"
proof -
  obtain t' where t': "opposite t = Inr t'" by (rule opposite_total)
  obtain r s1 s2 s3 where x:
    "client_expect hash i t b q (mc_address (mk_clients s ! j)) n s = (Inr r, s1)"
    "client_expected i r t b q s1 = (Inr None, s1)"
    "client_exchange hash j t b q (mc_address (mk_clients s ! i)) n s1 = (Inr True, s2)"
    "client_expected i r t b q s2 = (Inr (Some True), s3)"
    "mk_clients s3 = (mk_clients s)[j := execute_exchange t b q (mk_clients s ! j),
                                    i := execute_exchange t' b q (mk_clients s ! i)]"
    "dict_get (expect_key hash t b q (mc_address (mk_clients s ! i)) (mc_address (mk_clients s ! j)) n)
      (mk_expected s3) = None"
    using exchange_meets [OF assms keys_meet t'] by blast
  have a: "mc_address (mk_clients s3 ! j) = mc_address (mk_clients s ! j)"
    using assms x(5) by (simp add: execute_exchange_def)
  have "fst (client_exchange hash j t b q (mc_address (mk_clients s ! i)) n s3) = Inr False"
    using x(6) by (simp add: client_exchange_def prog_simps trader_exchange_def a keys_meet Let_def)
  then show ?thesis
    using x opposite_executes [OF t', of b q "mk_clients s ! i" "mk_clients s ! j"] assms
    by (intro exI [of _ r] exI [of _ s1] exI [of _ s2] exI [of _ s3]) simp
qed

definition demo_mock :: mock where
  "demo_mock = empty_mock\<lparr>mk_clients := [new_client (replicate 20 1) 10, new_client (replicate 20 2) 10]\<rparr>"

theorem exchange_settles_witness:
  "\<exists>r s1 s2 s3. client_expect (\<lambda>x. int (length x)) 0 SELL 3 6 (replicate 20 2) 7 demo_mock = (Inr r, s1) \<and>
     client_exchange (\<lambda>x. int (length x)) 1 SELL 3 6 (replicate 20 1) 7 s1 = (Inr True, s2) \<and>
     client_expected 0 r SELL 3 6 s2 = (Inr (Some True), s3) \<and>
     mk_clients s3 ! 1 = execute_exchange SELL 3 6 (new_client (replicate 20 2) 10)"
  using exchange_settles [of 0 1 demo_mock "\<lambda>x. int (length x)" SELL 3 6 7]
  by (simp add: demo_mock_def new_client_def) blast

text \<open>
  The key runs the two amounts together. An exchange of 12 for 3 therefore meets an expectation of 1
  for 23, with every hash function, and base amounts appear from nowhere.
\<close>

lemma show_small: "n < 10 \<Longrightarrow> show_nat n = [digit_char n]"
  by (simp add: show_nat.simps)

lemma amounts_run_together: "show_int 12 @ show_int 3 @ x = show_int 1 @ show_int 23 @ x"
  by (simp add: show_int_def show_small show_nat.simps [of 12] show_nat.simps [of 23])

theorem mock_key_ambiguous:
  assumes "i \<noteq> j" and "i < length (mk_clients s)" and "j < length (mk_clients s)"
  shows "\<exists>r s1 s2 s3. client_expect hash i BUY 1 23 (mc_address (mk_clients s ! j)) n s = (Inr r, s1) \<and>
    client_exchange hash j BUY 12 3 (mc_address (mk_clients s ! i)) n s1 = (Inr True, s2) \<and>
    client_expected i r BUY 1 23 s2 = (Inr (Some True), s3) \<and>
    mc_base (mk_clients s3 ! i) + mc_base (mk_clients s3 ! j) =
      mc_base (mk_clients s ! i) + mc_base (mk_clients s ! j) + 11"
proof -
  have "exchange_key hash BUY 12 3 a k n = expect_key hash BUY 1 23 k a n" for a k
    by (simp add: exchange_key_def expect_key_def amounts_run_together)
  then obtain r s1 s2 s3 where
    "client_expect hash i BUY 1 23 (mc_address (mk_clients s ! j)) n s = (Inr r, s1)"
    "client_exchange hash j BUY 12 3 (mc_address (mk_clients s ! i)) n s1 = (Inr True, s2)"
    "client_expected i r BUY 1 23 s2 = (Inr (Some True), s3)"
    "mk_clients s3 = (mk_clients s)[j := execute_exchange BUY 12 3 (mk_clients s ! j),
                                    i := execute_exchange SELL 1 23 (mk_clients s ! i)]"
    using exchange_meets [of i j s hash BUY 12 3 n 1 23 SELL] assms by auto
  then show ?thesis using assms
    by (intro exI [of _ r] exI [of _ s1] exI [of _ s2] exI [of _ s3]) (simp add: execute_exchange_def)
qed

section \<open>Transfers\<close>

lemma client_transfer_insufficient:
  "mc_commitment (mk_clients s ! i) < amount \<Longrightarrow> client_transfer now i a amount n s = (Inr False, s)"
  by (simp add: client_transfer_def)

text \<open>
  A transfer to an address nobody listens on is reported as successful, and the amount is gone: the
  listeners are a \<open>defaultdict\<close>, so the branch for a missing listener is never taken.
\<close>

theorem transfer_without_listener:
  assumes "amount \<le> mc_commitment (mk_clients s ! i)" and "dict_get a (mk_listeners s) = None"
  shows "\<exists>s'. client_transfer now i a amount n s = (Inr True, s') \<and> mk_queues s' = mk_queues s \<and>
    mk_clients s' = (mk_clients s)[i := (mk_clients s ! i)\<lparr>mc_commitment :=
      mc_commitment (mk_clients s ! i) - amount\<rparr>]"
  using assms
  by (simp add: client_transfer_def trader_transfer_def prog_simps dict_mem_def on_client_def)

text \<open>With one listener that updates the balance, a transfer moves the amount.\<close>

theorem transfer_moves_amount:
  assumes "amount \<le> mc_commitment (mk_clients s ! i)" and "i \<noteq> j"
    and "i < length (mk_clients s)" and "j < length (mk_clients s)"
    and "dict_get a (mk_listeners s) = Some [\<lparr>ml_address = a, ml_queue = k, ml_transform = Received_transform None\<rparr>]"
    and "k < length (mk_queues s)" and "mk_queues s ! k = []"
    and "is_binary_address (mc_address (mk_clients s ! i))" and "time_now now = Inr ts"
  shows "\<exists>s1 s2. client_transfer now i a amount n s = (Inr True, s1) \<and>
    balance_update (j, k) s1 = (Inr (), s2) \<and>
    mc_commitment (mk_clients s2 ! i) = mc_commitment (mk_clients s ! i) - amount \<and>
    mc_commitment (mk_clients s2 ! j) = mc_commitment (mk_clients s ! j) + amount"
  using assms
  by (simp add: client_transfer_def trader_transfer_def prog_simps dict_mem_def on_client_def
      put_mock_event_def apply_transform_def received_transform_def balance_update_def)

end
