(* ===== verification/Wire.thy ===== *)
theory Wire
  imports Messages Py_Float "HOL-Library.Countable"
begin

text \<open>
  \<open>Envelope\<close> of \<open>messages.py\<close>: a message as base64 text of its RLP form inside a JSON object, and the
  \<open>encode\<close> and \<open>decode\<close> of \<open>transport/client.py\<close>. The base64 codec of Python's library is written out.
  The JSON text form and the RLP decoder are fields of a record that the definitions take as an
  argument.
\<close>

section \<open>JSON values\<close>

datatype json =
    JNull | JBool bool | JInt int | JFloat rat | JStr string | JList "json list"
  | JObj "(string \<times> json) list"

record wire =
  json_dumps :: "json \<Rightarrow> string"
  json_loads :: "string \<Rightarrow> json res"
  rlp_decode :: "msg_class \<Rightarrow> bytes \<Rightarrow> message res"

section \<open>Base64\<close>

definition b64_char :: "nat \<Rightarrow> char" where
  "b64_char n = char_of
     (if n < 26 then 65 + n else if n < 52 then 71 + n else if n < 62 then n - 4
      else if n = 62 then 43 else 47)"

definition b64_value :: "char \<Rightarrow> nat option" where
  "b64_value c = (let n = of_char c in
     if 65 \<le> n \<and> n \<le> 90 then Some (n - 65)
     else if 97 \<le> n \<and> n \<le> 122 then Some (n - 71)
     else if 48 \<le> n \<and> n \<le> 57 then Some (n + 4)
     else if n = 43 then Some 62
     else if n = 47 then Some 63
     else None)"

fun b64_line :: "nat list \<Rightarrow> string" where
  "b64_line [] = []"
| "b64_line [a] = [b64_char (a div 4), b64_char (a mod 4 * 16), CHR ''='', CHR ''='']"
| "b64_line [a, b] =
     [b64_char (a div 4), b64_char (a mod 4 * 16 + b div 16), b64_char (b mod 16 * 4), CHR ''='']"
| "b64_line (a # b # c # bs) =
     b64_char (a div 4) # b64_char (a mod 4 * 16 + b div 16) # b64_char (b mod 16 * 4 + c div 64)
       # b64_char (c mod 64) # b64_line bs"

text \<open>\<open>encodebytes\<close>: lines of at most 57 bytes, each ended by a newline.\<close>

definition newline :: char where
  "newline = char_of (10 :: nat)"

function b64_encode :: "nat list \<Rightarrow> string" where
  "b64_encode bs =
     (if bs = [] then [] else b64_line (take 57 bs) @ newline # b64_encode (drop 57 bs))"
  by auto
termination by (relation "measure length") auto

declare b64_encode.simps [simp del]

text \<open>
  \<open>decodebytes\<close>: the position in the group of four, the bits left over and the padding seen so far.
  Characters outside the alphabet are skipped; padding that completes a group ends the data.
\<close>

definition prepend :: "nat \<Rightarrow> nat list res \<Rightarrow> nat list res" where
  "prepend x r = bind_res r (\<lambda>bs. Inr (x # bs))"

fun b64_decode_from :: "nat \<Rightarrow> nat \<Rightarrow> nat \<Rightarrow> string \<Rightarrow> nat list res" where
  "b64_decode_from q left pads [] = (if q = 0 then Inr [] else Inl ValueError)"
| "b64_decode_from q left pads (c # cs) =
     (if c = CHR ''='' then
        (if 2 \<le> q \<and> 4 \<le> q + (pads + 1) then Inr []
         else b64_decode_from q left (if 2 \<le> q then pads + 1 else pads) cs)
      else case b64_value c of
        None \<Rightarrow> b64_decode_from q left pads cs
      | Some v \<Rightarrow>
          if q = 0 then b64_decode_from 1 v 0 cs
          else if q = 1 then prepend ((left * 4 + v div 16) mod 256) (b64_decode_from 2 (v mod 16) 0 cs)
          else if q = 2 then prepend ((left * 16 + v div 4) mod 256) (b64_decode_from 3 (v mod 4) 0 cs)
          else prepend ((left * 64 + v) mod 256) (b64_decode_from 0 0 0 cs))"

definition b64_decode :: "string \<Rightarrow> nat list res" where
  "b64_decode cs = b64_decode_from 0 0 0 cs"

section \<open>The envelope\<close>

definition envelope_version :: int where
  "envelope_version = 1"

definition envelope_encode :: "bytes \<Rightarrow> string" where
  "envelope_encode data = b64_encode (map unat data)"

definition envelope_decode :: "string \<Rightarrow> bytes res" where
  "envelope_decode data = bind_res (b64_decode data) (\<lambda>ns. Inr (map of_nat ns))"

definition envelop :: "crypto \<Rightarrow> wire \<Rightarrow> message \<Rightarrow> string res" where
  "envelop C W m =
     (if \<not> is_instance m RLPHashable then Inl AssertionError
      else bind_res (dict_item (class_of m) types_msg_map) (\<lambda>name.
        bind_res (rlp_encode C (serial [] m)) (\<lambda>raw.
        Inr (json_dumps W (JObj [(''version'', JInt envelope_version), (''msg'', JStr name),
          (''data'', JStr (envelope_encode raw))])))))"

text \<open>Python compares numbers and truth values across their types.\<close>

fun json_is_int :: "json \<Rightarrow> int \<Rightarrow> bool" where
  "json_is_int (JInt n) k \<longleftrightarrow> n = k"
| "json_is_int (JFloat x) k \<longleftrightarrow> x = of_int k"
| "json_is_int (JBool b) k \<longleftrightarrow> (if b then 1 else 0) = k"
| "json_is_int _ k \<longleftrightarrow> False"

text \<open>Looking up a value as a key: a list or an object is not hashable.\<close>

definition msg_type_item :: "json \<Rightarrow> msg_class res" where
  "msg_type_item x =
     (case x of
        JStr name \<Rightarrow> dict_item name msg_types_map
      | JList _ \<Rightarrow> Inl TypeError
      | JObj _ \<Rightarrow> Inl TypeError
      | _ \<Rightarrow> Inl KeyError)"

definition envelope_open :: "wire \<Rightarrow> string \<Rightarrow> message res" where
  "envelope_open W data =
     bind_res (json_loads W data) (\<lambda>j.
     case j of
       JObj d \<Rightarrow>
         bind_res (dict_item ''version'' d) (\<lambda>version.
         bind_res (dict_item ''msg'' d) (\<lambda>name.
         if \<not> json_is_int version envelope_version then Inl ValueError
         else bind_res (msg_type_item name) (\<lambda>klass.
           bind_res (dict_item ''data'' d) (\<lambda>x.
           case x of
             JStr text \<Rightarrow> bind_res (envelope_decode text) (\<lambda>raw. rlp_decode W klass raw)
           | _ \<Rightarrow> Inl AttributeError))))
     | _ \<Rightarrow> Inl AssertionError)"

section \<open>What the clients send and hear\<close>

text \<open>What is sent or heard on a topic: a message, or a value that is not one.\<close>

datatype payload = Msg message | Raw json

definition wire_encode :: "crypto \<Rightarrow> wire \<Rightarrow> payload \<Rightarrow> string res" where
  "wire_encode C W x =
     (case x of
        Raw (JStr text) \<Rightarrow> Inr text
      | Msg m \<Rightarrow> if is_instance m Signed then envelop C W m else Inl PlainException
      | _ \<Rightarrow> Inl PlainException)"

definition wire_decode :: "wire \<Rightarrow> json \<Rightarrow> payload res" where
  "wire_decode W x =
     (case x of
        JStr text \<Rightarrow>
          (case envelope_open W text of
             Inr m \<Rightarrow> Inr (Msg m)
           | Inl e \<Rightarrow> if e = ValueError then Inr (Raw x) else Inl e)
      | _ \<Rightarrow> Inl TypeError)"

section \<open>Base64 round trip\<close>

lemma b64_char_value: "n < 64 \<Longrightarrow> b64_value (b64_char n) = Some n"
  by (auto simp: b64_value_def b64_char_def Let_def)

lemma b64_char_not_pad: "n < 64 \<Longrightarrow> b64_char n \<noteq> CHR ''=''"
proof
  assume n: "n < 64" and "b64_char n = CHR ''=''"
  then have "of_char (b64_char n) = (of_char CHR ''='' :: nat)" by simp
  then show False using n by (auto simp: b64_char_def split: if_splits)
qed

lemma b64_char_step [simp]:
  "n < 64 \<Longrightarrow> b64_decode_from q left pads (b64_char n # cs) =
     (if q = 0 then b64_decode_from 1 n 0 cs
      else if q = 1 then prepend ((left * 4 + n div 16) mod 256) (b64_decode_from 2 (n mod 16) 0 cs)
      else if q = 2 then prepend ((left * 16 + n div 4) mod 256) (b64_decode_from 3 (n mod 4) 0 cs)
      else prepend ((left * 64 + n) mod 256) (b64_decode_from 0 0 0 cs))"
  using b64_char_value [of n] b64_char_not_pad [of n] by (simp add: b64_decode_from.simps(2))

lemma b64_pad_steps [simp]:
  "b64_decode_from 2 left 0 (CHR ''='' # CHR ''='' # cs) = Inr []"
  "b64_decode_from 3 left 0 (CHR ''='' # cs) = Inr []"
  by (simp_all add: b64_decode_from.simps(2))

declare b64_decode_from.simps(2) [simp del]

text \<open>At the start of a group nothing of what came before matters.\<close>

lemma b64_start: "b64_decode_from 0 left pads cs = b64_decode_from 0 0 0 cs"
proof (induction cs arbitrary: left pads)
  case (Cons c cs)
  show ?case
    using Cons.IH [of left pads] by (simp add: b64_decode_from.simps(2) split: option.split)
qed simp

lemma bits_together:
  fixes a b c :: nat
  assumes "a < 256" "b < 256" "c < 256"
  shows "a div 4 * 4 + (a mod 4 * 16 + b div 16) div 16 = a"
    and "(a mod 4 * 16 + b div 16) mod 16 * 16 + (b mod 16 * 4 + c div 64) div 4 = b"
    and "(b mod 16 * 4 + c div 64) mod 4 * 64 + c mod 64 = c"
    and "a div 4 < 64" "a mod 4 * 16 + b div 16 < 64" "b mod 16 * 4 + c div 64 < 64" "c mod 64 < 64"
proof -
  have x: "b div 16 < 16" "c div 64 < 4" using assms by (simp_all add: div_less_iff_less_mult)
  show "a div 4 * 4 + (a mod 4 * 16 + b div 16) div 16 = a" using x by simp
  show "(a mod 4 * 16 + b div 16) mod 16 * 16 + (b mod 16 * 4 + c div 64) div 4 = b" using x by simp
  show "(b mod 16 * 4 + c div 64) mod 4 * 64 + c mod 64 = c" using x by simp
  show "a div 4 < 64" using assms(1) by (simp add: div_less_iff_less_mult)
  have "a mod 4 \<le> 3" "b mod 16 \<le> 15" by simp_all
  then show "a mod 4 * 16 + b div 16 < 64" "b mod 16 * 4 + c div 64 < 64" using x by linarith+
qed simp

lemma b64_line_back:
  "\<forall>b \<in> set bs. b < 256 \<Longrightarrow>
    b64_decode_from 0 left pads (b64_line bs @ rest) =
      foldr prepend bs (if length bs mod 3 = 0 then b64_decode_from 0 0 0 rest else Inr [])"
proof (induction bs arbitrary: left pads rule: b64_line.induct)
  case 1
  show ?case by (simp add: b64_start [of left pads])
next
  case (2 a)
  then show ?case using bits_together [of a 0 0] by simp
next
  case (3 a b)
  then show ?case using bits_together [of a b 0] by simp
next
  case (4 a b c bs)
  have "Suc (Suc (Suc (length bs))) mod 3 = length bs mod 3" by presburger
  moreover have "b div 16 < 16" "c div 64 < 4" using 4(2) by (simp_all add: div_less_iff_less_mult)
  ultimately show ?case using 4 bits_together(1,4-7) [of a b c] by simp
qed

lemma foldr_prepend: "foldr prepend bs (Inr cs) = Inr (bs @ cs)"
  by (induction bs) (simp_all add: prepend_def)

lemma foldr_prepend_prefix: "foldr prepend (bs @ cs) r = foldr prepend bs (foldr prepend cs r)"
  by simp

lemma newline_skipped: "b64_decode_from 0 0 0 (newline # cs) = b64_decode_from 0 0 0 cs"
proof -
  have "b64_value newline = None" "newline \<noteq> CHR ''=''" by code_simp+
  then show ?thesis by (simp add: b64_decode_from.simps(2))
qed

lemma b64_roundtrip_from:
  "\<forall>b \<in> set bs. b < 256 \<Longrightarrow> b64_decode_from 0 0 0 (b64_encode bs) = Inr bs"
proof (induction bs rule: b64_encode.induct)
  case (1 bs)
  show ?case
  proof (cases "bs = []")
    case True
    then show ?thesis by (simp add: b64_encode.simps [of "[]"])
  next
    case False
    let ?rest = "newline # b64_encode (drop 57 bs)"
    have small: "\<forall>b \<in> set (take 57 bs). b < 256" using 1(2) by (auto dest: in_set_takeD)
    have rest: "b64_decode_from 0 0 0 ?rest = Inr (drop 57 bs)"
      unfolding newline_skipped using 1(2) by (intro 1(1) [OF False]) (auto dest: in_set_dropD)
    have full: "length (take 57 bs) mod 3 = 0 \<or> drop 57 bs = []" by auto
    have "b64_encode bs = b64_line (take 57 bs) @ ?rest"
      using False by (subst b64_encode.simps) simp
    then have "b64_decode_from 0 0 0 (b64_encode bs) = foldr prepend (take 57 bs)
        (if length (take 57 bs) mod 3 = 0 then b64_decode_from 0 0 0 ?rest else Inr [])"
      using b64_line_back [OF small, of 0 0 ?rest] by (simp only:)
    also have "\<dots> = foldr prepend (take 57 bs) (Inr (drop 57 bs))"
      unfolding rest using full by auto
    finally show ?thesis by (simp add: foldr_prepend)
  qed
qed

theorem base64_roundtrip: "envelope_decode (envelope_encode data) = Inr data"
proof -
  have "unat w < 256" for w :: "8 word" using unsigned_less [of w] by simp
  then have "b64_decode (b64_encode (map unat data)) = Inr (map unat data)"
    unfolding b64_decode_def by (intro b64_roundtrip_from) auto
  then show ?thesis by (simp add: envelope_decode_def envelope_encode_def map_idI)
qed

section \<open>Envelope round trip\<close>

text \<open>
  Python documents that \<open>loads\<close> gives back what \<open>dumps\<close> was given, for objects whose keys are distinct
  strings and whose values are text, whole numbers or null.
\<close>

fun flat_value :: "json \<Rightarrow> bool" where
  "flat_value JNull \<longleftrightarrow> True"
| "flat_value (JInt n) \<longleftrightarrow> True"
| "flat_value (JStr x) \<longleftrightarrow> True"
| "flat_value _ \<longleftrightarrow> False"

definition json_lossless :: "wire \<Rightarrow> bool" where
  "json_lossless W \<longleftrightarrow> (\<forall>d. dict_wf d \<and> (\<forall>v \<in> set (dict_values d). flat_value v) \<longrightarrow>
     json_loads W (json_dumps W (JObj d)) = Inr (JObj d))"

definition rlp_lossless :: "crypto \<Rightarrow> wire \<Rightarrow> message \<Rightarrow> bool" where
  "rlp_lossless C W m \<longleftrightarrow>
     (\<forall>raw. rlp_encode C (serial [] m) = Inr raw \<longrightarrow> rlp_decode W (class_of m) raw = Inr m)"

lemma types_back:
  assumes "dict_item c types_msg_map = Inr name" shows "dict_item name msg_types_map = Inr c"
proof -
  have "(c, name) \<in> set types_msg_map" using assms by (simp add: dict_get_in_set)
  then have "(name, c) \<in> set msg_types_map" by (auto simp: types_msg_map_eval)
  moreover have "dict_wf msg_types_map" by code_simp
  ultimately show ?thesis by (simp add: dict_in_set_get)
qed

lemma envelope_open_envelop:
  assumes "envelop C W m = Inr text" and "json_lossless W" and "rlp_lossless C W m"
  shows "envelope_open W text = Inr m"
proof -
  obtain name raw where n: "dict_item (class_of m) types_msg_map = Inr name"
    "rlp_encode C (serial [] m) = Inr raw"
    "text = json_dumps W (JObj [(''version'', JInt envelope_version), (''msg'', JStr name),
       (''data'', JStr (envelope_encode raw))])"
    using assms(1) unfolding envelop_def by (auto simp only: bind_res_Inr_iff split: if_splits)
  have "json_loads W text = Inr (JObj [(''version'', JInt envelope_version), (''msg'', JStr name),
      (''data'', JStr (envelope_encode raw))])"
    unfolding n(3) using assms(2) by (simp add: json_lossless_def dict_wf_def dict_values_def)
  moreover have "rlp_decode W (class_of m) raw = Inr m" using assms(3) n(2) by (simp add: rlp_lossless_def)
  ultimately show ?thesis
    using types_back [OF n(1)]
    by (simp add: envelope_open_def dict_item_def dict_get_def msg_type_item_def base64_roundtrip)
qed

text \<open>C21: what is put into an envelope comes out of it: the base64 lines decode to the bytes that were
  encoded, whatever they are; and for a lossless text form of objects and a lossless RLP codec the
  receiver of an enveloped message has the same message of the same class, and a signed message
  is sent in this form.\<close>

theorem envelope_roundtrip:
  assumes "envelop C W m = Inr text" and "json_lossless W" and "rlp_lossless C W m"
  shows "wire_decode W (JStr text) = Inr (Msg m) \<and>
    (is_instance m Signed \<longrightarrow> wire_encode C W (Msg m) = Inr text) \<and>
    envelope_decode (envelope_encode data) = Inr data"
  using envelope_open_envelop [OF assms] assms(1)
  by (simp add: wire_decode_def wire_encode_def base64_roundtrip)

instance json :: countable
  by countable_datatype

text \<open>A codec that satisfies the laws for one message.\<close>

definition example_wire :: "message \<Rightarrow> wire" where
  "example_wire m = \<lparr>json_dumps = (\<lambda>j. CHR ''x'' # replicate (to_nat j) CHR ''x''),
     json_loads = (\<lambda>t. Inr (from_nat (length t - 1))), rlp_decode = (\<lambda>_ _. Inr m)\<rparr>"

lemma example_wire_laws: "json_lossless (example_wire m)" "rlp_lossless C (example_wire m) m"
  by (simp_all add: json_lossless_def rlp_lossless_def example_wire_def)

theorem envelope_roundtrip_witness:
  "\<exists>text. envelop example_crypto (example_wire (OfferTaken 7 (Some [1]))) (OfferTaken 7 (Some [1])) = Inr text \<and>
     wire_decode (example_wire (OfferTaken 7 (Some [1]))) (JStr text) = Inr (Msg (OfferTaken 7 (Some [1])))"
proof -
  let ?m = "OfferTaken 7 (Some [1])"
  obtain doc where t: "envelop example_crypto (example_wire ?m) ?m = Inr doc"
    by (simp add: envelop_def example_crypto_def is_instance_def types_msg_map_def msg_types_map_def
        dict_set_def dict_get_def dict_item_def)
  from envelope_roundtrip [OF t example_wire_laws] t show ?thesis by blast
qed

end
