(* ===== verification/Topic_Client.thy ===== *)
theory Topic_Client
  imports Wire Clients
begin

text \<open>
  The broker as nodes reach it: the server that keeps a stream per request (\<open>message_broker/server.py\<close>)
  and the client with one streaming task per topic (\<open>transport/client.py\<close>). A stream of the server, a
  task, and the queue of a listener are known by number; the HTTP library hands a posted body to
  the server and its lines to the task.
\<close>

section \<open>The server\<close>

record server =
  sv_streams :: "(string, nat list) dict"
  sv_queues :: "nat \<Rightarrow> json list"
  sv_next :: nat
  nof_listeners :: int

definition empty_server :: server where
  "empty_server = \<lparr>sv_streams = [], sv_queues = (\<lambda>_. []), sv_next = 0, nof_listeners = 0\<rparr>"

definition streams_of :: "string \<Rightarrow> server \<Rightarrow> nat list" where
  "streams_of t s = (case dict_get t (sv_streams s) of None \<Rightarrow> [] | Some qs \<Rightarrow> qs)"

definition messages_for :: "string \<Rightarrow> server \<Rightarrow> nat \<times> server" where
  "messages_for t s = (sv_next s, s\<lparr>sv_streams := dict_set t (streams_of t s @ [sv_next s]) (sv_streams s),
     sv_queues := (sv_queues s)(sv_next s := []), sv_next := sv_next s + 1,
     nof_listeners := nof_listeners s + 1\<rparr>)"

text \<open>The connection is closed: the listener of the stream stops.\<close>

definition stream_closed :: "string \<Rightarrow> nat \<Rightarrow> (server, unit) prog" where
  "stream_closed t q =
     seq (modify (\<lambda>s. s\<lparr>nof_listeners := nof_listeners s - 1\<rparr>)) (\<lambda>_.
     seq (get_state (streams_of t)) (\<lambda>qs.
     if q \<in> set qs then modify (\<lambda>s. s\<lparr>sv_streams := dict_set t (remove1 q qs) (sv_streams s)\<rparr>)
     else throw ValueError))"

text \<open>A body without a message posts None, which no stream gets. The answer says if somebody listens.\<close>

definition send_message :: "string \<Rightarrow> json option \<Rightarrow> (server, bool) prog" where
  "send_message t body_message s =
     (let s1 = (if dict_mem t (sv_streams s) then s else s\<lparr>sv_streams := dict_set t [] (sv_streams s)\<rparr>);
          qs = streams_of t s1 in
      if qs = [] then (Inr False, s1)
      else (Inr True, case body_message of
              None \<Rightarrow> s1
            | Some JNull \<Rightarrow> s1
            | Some x \<Rightarrow> s1\<lparr>sv_queues := (\<lambda>q. if q \<in> set qs then sv_queues s1 q @ [x] else sv_queues s1 q)\<rparr>))"

text \<open>The next line of a stream, \<open>None\<close> while it has to wait.\<close>

definition stream_next :: "wire \<Rightarrow> nat \<Rightarrow> server \<Rightarrow> (string \<times> server) option" where
  "stream_next W q s =
     (case sv_queues s q of
        [] \<Rightarrow> None
      | x # xs \<Rightarrow> Some (json_dumps W (JObj [(''data'', x)]), s\<lparr>sv_queues := (sv_queues s)(q := xs)\<rparr>))"

section \<open>The client\<close>

record topic_encoders = encoders +
  is_hex_address :: "string \<Rightarrow> bool"

definition encode_topic :: "topic_encoders \<Rightarrow> topic \<Rightarrow> string res" where
  "encode_topic E t =
     (case t of
        Broadcast \<Rightarrow> Inr ''broadcast''
      | Topic x \<Rightarrow> Inr (if is_hex_address E x then encode_token E x else x)
      | Address a \<Rightarrow> if is_binary_address a then Inr (encode_address E a) else Inl TypeError)"

datatype wire_heard = Heard heard | Heard_raw json

text \<open>
  A task blocks until the server answers, then reads lines. \<open>stop\<close> marks the iterator as closed, which
  the iterator notices when it is asked for the line after the one it waits for.
\<close>

datatype phase = Connecting | Streaming | Closing | Ended

record stream_task =
  tk_topic :: string
  tk_transform :: "listener_kind option"
  tk_listeners :: "topic_listener list"
  tk_phase :: phase

record broker_client =
  topic_task_map :: "(string, nat) dict"
  listener_task_map :: "(topic_listener, nat) dict"
  bc_tasks :: "stream_task list"
  bc_queues :: "nat \<Rightarrow> wire_heard list"
  bc_next :: nat

definition empty_client :: broker_client where
  "empty_client = \<lparr>topic_task_map = [], listener_task_map = [], bc_tasks = [],
     bc_queues = (\<lambda>_. []), bc_next = 0\<rparr>"

definition on_task :: "nat \<Rightarrow> (stream_task \<Rightarrow> stream_task) \<Rightarrow> broker_client \<Rightarrow> broker_client" where
  "on_task r f c = c\<lparr>bc_tasks := (bc_tasks c)[r := f (bc_tasks c ! r)]\<rparr>"

definition create_listener :: "nat \<Rightarrow> listener_kind option \<Rightarrow> (broker_client, topic_listener) prog" where
  "create_listener r k c =
     (let l = \<lparr>ln_topic = Topic (tk_topic (bc_tasks c ! r)), ln_queue = bc_next c, ln_transform = k\<rparr> in
      (Inr l, on_task r (\<lambda>t. t\<lparr>tk_listeners := tk_listeners t @ [l]\<rparr>)
         (c\<lparr>bc_queues := (bc_queues c)(bc_next c := []), bc_next := bc_next c + 1\<rparr>)))"

definition task_for :: "string \<Rightarrow> listener_kind option \<Rightarrow> (broker_client, nat) prog" where
  "task_for t k c =
     (case dict_get t (topic_task_map c) of
        Some r \<Rightarrow> (Inr r, c)
      | None \<Rightarrow> (Inr (length (bc_tasks c)),
          c\<lparr>bc_tasks := bc_tasks c @ [\<lparr>tk_topic = t, tk_transform = k, tk_listeners = [], tk_phase = Connecting\<rparr>],
            topic_task_map := dict_set t (length (bc_tasks c)) (topic_task_map c)\<rparr>))"

definition client_listen_encoded :: "string \<Rightarrow> listener_kind option \<Rightarrow> (broker_client, topic_listener) prog" where
  "client_listen_encoded t k =
     seq (task_for t k) (\<lambda>r.
     seq (create_listener r k) (\<lambda>l.
     seq (modify (\<lambda>c. c\<lparr>listener_task_map := dict_set l r (listener_task_map c)\<rparr>)) (\<lambda>_.
     return l)))"

definition client_listen_on ::
  "topic_encoders \<Rightarrow> topic \<Rightarrow> listener_kind option \<Rightarrow> (broker_client, topic_listener) prog" where
  "client_listen_on E t k = seq (lift_res (encode_topic E t)) (\<lambda>x. client_listen_encoded x k)"

definition task_stop :: "stream_task \<Rightarrow> stream_task" where
  "task_stop t = (if tk_phase t = Streaming then t\<lparr>tk_phase := Closing\<rparr> else t)"

definition client_stop_listen :: "topic_listener \<Rightarrow> (broker_client, unit) prog" where
  "client_stop_listen l c =
     (case dict_get l (listener_task_map c) of
        None \<Rightarrow> (Inl PlainException, c)
      | Some r \<Rightarrow>
          if l \<notin> set (tk_listeners (bc_tasks c ! r)) then (Inl ValueError, c)
          else (let c1 = (on_task r (\<lambda>t. t\<lparr>tk_listeners := remove1 l (tk_listeners t)\<rparr>) c)
                     \<lparr>listener_task_map := dict_del l (listener_task_map c)\<rparr> in
                (Inr (), if tk_listeners (bc_tasks c1 ! r) = [] then on_task r task_stop c1 else c1)))"

text \<open>The server has answered the request of the task.\<close>

definition task_connected :: "nat \<Rightarrow> broker_client \<Rightarrow> broker_client" where
  "task_connected r c = on_task r (\<lambda>t. if tk_phase t = Connecting then t\<lparr>tk_phase := Streaming\<rparr> else t) c"

definition heard_payload :: "crypto \<Rightarrow> payload \<Rightarrow> topic_listener \<Rightarrow> wire_heard option res" where
  "heard_payload C x l =
     (case x of
        Msg m \<Rightarrow> (case ln_transform l of
            None \<Rightarrow> Inr (Some (Heard (Heard_message m)))
          | Some k \<Rightarrow> bind_res (transform_of C k m) (\<lambda>h. Inr (map_option Heard h)))
      | Raw j \<Rightarrow> (case ln_transform l of None \<Rightarrow> Inr (Some (Heard_raw j)) | Some _ \<Rightarrow> Inr None))"

definition client_deliver :: "crypto \<Rightarrow> payload \<Rightarrow> topic_listener \<Rightarrow> (broker_client, unit) prog" where
  "client_deliver C x l =
     seq (lift_res (heard_payload C x l)) (\<lambda>h.
     case h of
       None \<Rightarrow> return ()
     | Some y \<Rightarrow> modify (\<lambda>c. c\<lparr>bc_queues := (bc_queues c)(ln_queue l := bc_queues c (ln_queue l) @ [y])\<rparr>))"

definition line_payload :: "wire \<Rightarrow> string \<Rightarrow> payload res" where
  "line_payload W line =
     bind_res (json_loads W line) (\<lambda>j.
     case j of
       JObj d \<Rightarrow> bind_res (dict_item ''data'' d) (wire_decode W)
     | _ \<Rightarrow> Inl TypeError)"

definition task_line :: "crypto \<Rightarrow> wire \<Rightarrow> nat \<Rightarrow> string \<Rightarrow> (broker_client, unit) prog" where
  "task_line C W r line =
     (if line = [] then return ()
      else seq (lift_res (line_payload W line)) (\<lambda>x.
        seq (get_state (\<lambda>c. tk_listeners (bc_tasks c ! r))) (\<lambda>ls.
        for_each (client_deliver C x) ls)))"

text \<open>A line arrives: an exception ends the task, and so does the line after which it finds itself closed.\<close>

definition stream_line :: "crypto \<Rightarrow> wire \<Rightarrow> nat \<Rightarrow> string \<Rightarrow> (broker_client, unit) prog" where
  "stream_line C W r line c =
     (if tk_phase (bc_tasks c ! r) \<notin> {Streaming, Closing} then (Inr (), c)
      else case task_line C W r line c of
        (Inl e, c') \<Rightarrow> (Inl e, on_task r (\<lambda>t. t\<lparr>tk_phase := Ended\<rparr>) c')
      | (Inr _, c') \<Rightarrow> (Inr (), if tk_phase (bc_tasks c ! r) = Closing
            then on_task r (\<lambda>t. t\<lparr>tk_phase := Ended\<rparr>) c' else c'))"

text \<open>The request of \<open>send\<close> and of \<open>broadcast\<close>: a topic and the text for it.\<close>

definition client_send_encoded :: "crypto \<Rightarrow> wire \<Rightarrow> string \<Rightarrow> payload \<Rightarrow> (string \<times> string) res" where
  "client_send_encoded C W t x = bind_res (wire_encode C W x) (\<lambda>doc. Inr (t, doc))"

definition client_send :: "crypto \<Rightarrow> wire \<Rightarrow> topic_encoders \<Rightarrow> topic \<Rightarrow> payload \<Rightarrow> (string \<times> string) res" where
  "client_send C W E t x = bind_res (encode_topic E t) (\<lambda>u. client_send_encoded C W u x)"

definition client_broadcast :: "crypto \<Rightarrow> wire \<Rightarrow> payload \<Rightarrow> (string \<times> string) res" where
  "client_broadcast C W x = client_send_encoded C W ''broadcast'' x"

section \<open>Delivery\<close>

lemma client_deliver_eq:
  "\<not> hearing_raises C m l \<Longrightarrow> client_deliver C (Msg m) l c =
    (Inr (), c\<lparr>bc_queues := (bc_queues c)(ln_queue l := bc_queues c (ln_queue l) @ map Heard (hears C m l))\<rparr>)"
  by (auto simp: client_deliver_def heard_payload_def hears_def hearing_raises_def prog_simps
      split: option.splits sum.splits)

text \<open>The first listener whose transform raises ends the delivery; those before it have heard the message.\<close>

definition reached :: "crypto \<Rightarrow> message \<Rightarrow> topic_listener list \<Rightarrow> topic_listener list" where
  "reached C m = takeWhile (\<lambda>l. \<not> hearing_raises C m l)"

lemma reached_simps [simp]:
  "reached C m [] = []"
  "reached C m (l # ls) = (if hearing_raises C m l then [] else l # reached C m ls)"
  by (simp_all add: reached_def)

lemma reached_subset: "set (reached C m ls) \<subseteq> set ls"
  by (auto simp: reached_def dest: set_takeWhileD)

lemma client_deliver_raises:
  "hearing_raises C m l \<Longrightarrow> \<exists>e. client_deliver C (Msg m) l c = (Inl e, c)"
  by (auto simp: client_deliver_def heard_payload_def hearing_raises_def prog_simps split: option.splits sum.splits)

lemma client_deliver_all:
  assumes "distinct (map ln_queue ls)"
  shows "\<exists>x qs. for_each (client_deliver C (Msg m)) ls c = (x, c\<lparr>bc_queues := qs\<rparr>) \<and>
    (x = Inr () \<longleftrightarrow> reached C m ls = ls) \<and>
    (\<forall>l \<in> set (reached C m ls). qs (ln_queue l) = bc_queues c (ln_queue l) @ map Heard (hears C m l)) \<and>
    (\<forall>q. q \<notin> ln_queue ` set (reached C m ls) \<longrightarrow> qs q = bc_queues c q)"
  using assms
proof (induction ls arbitrary: c)
  case Nil
  then show ?case by (intro exI [of _ "Inr ()"] exI [of _ "bc_queues c"]) (simp add: return_def)
next
  case (Cons l ls)
  show ?case
  proof (cases "hearing_raises C m l")
    case True
    then obtain e where "client_deliver C (Msg m) l c = (Inl e, c)" using client_deliver_raises by blast
    then show ?thesis using True
      by (intro exI [of _ "Inl e"] exI [of _ "bc_queues c"]) (simp add: seq_def)
  next
    case False
    define d where "d = c\<lparr>bc_queues := (bc_queues c)(ln_queue l := bc_queues c (ln_queue l) @ map Heard (hears C m l))\<rparr>"
    obtain x qs where qs: "for_each (client_deliver C (Msg m)) ls d = (x, d\<lparr>bc_queues := qs\<rparr>)"
        "x = Inr () \<longleftrightarrow> reached C m ls = ls"
        "\<forall>k \<in> set (reached C m ls). qs (ln_queue k) = bc_queues d (ln_queue k) @ map Heard (hears C m k)"
        "\<forall>q. q \<notin> ln_queue ` set (reached C m ls) \<longrightarrow> qs q = bc_queues d q"
      using Cons.IH [of d] Cons.prems by auto
    have other: "ln_queue k \<noteq> ln_queue l" if "k \<in> set (reached C m ls)" for k
      using that Cons.prems reached_subset [of C m ls] by (metis distinct.simps(2) image_eqI list.set_map list.simps(9) subsetD)
    then have fresh: "ln_queue l \<notin> ln_queue ` set (reached C m ls)" by force
    have "client_deliver C (Msg m) l c = (Inr (), d)" using False by (simp add: client_deliver_eq d_def)
    then have "for_each (client_deliver C (Msg m)) (l # ls) c = (x, c\<lparr>bc_queues := qs\<rparr>)"
      using qs(1) by (simp add: seq_def d_def)
    moreover have "bc_queues d = (bc_queues c)(ln_queue l := bc_queues c (ln_queue l) @ map Heard (hears C m l))"
      by (simp add: d_def)
    ultimately show ?thesis
      using qs(2-4) other fresh False by (intro exI [of _ x] exI [of _ qs]) auto
  qed
qed

lemma posted_line:
  assumes "q \<in> set (streams_of t s)"
  shows "\<exists>s1. send_message t (Some (JStr doc)) s = (Inr True, s1) \<and>
    (\<forall>p. sv_queues s1 p = sv_queues s p @ (if p \<in> set (streams_of t s) then [JStr doc] else []))"
proof -
  have "dict_mem t (sv_streams s)" "streams_of t s \<noteq> []"
    using assms by (cases "dict_get t (sv_streams s)"; auto simp: streams_of_def dict_mem_def)+
  then show ?thesis by (simp add: send_message_def Let_def)
qed

lemma line_payload_eq:
  assumes "json_lossless W" and "wire_decode W (JStr doc) = Inr x"
  shows "line_payload W (json_dumps W (JObj [(''data'', JStr doc)])) = Inr x"
  using assms by (simp add: line_payload_def json_lossless_def dict_wf_def dict_values_def
      dict_item_def dict_get_def)

text \<open>C20: A signed message crosses the wire unchanged, for codecs (JSON and RLP) that lose nothing: what one
  node posts to a topic is put at the end of every stream on the topic and of no other; when it is its turn
  there, its line is decoded to the same message by the node that reads the stream, and each listener of
  the task, up to the first whose class refuses the message with an exception, gets it exactly once, in the form
  its class hears it; no other queue changes. If none refuses, the task goes on reading as before; otherwise
  the listeners from there on get nothing and the task ends.\<close>

theorem wire_delivers:
  assumes "encode_topic E t = Inr u" and "is_instance m Signed" and "envelop C W m = Inr doc"
    and "json_lossless W" and "rlp_lossless C W m" and "q \<in> set (streams_of u s)"
    and "tk_phase (bc_tasks c ! r) = Streaming" and "ls = tk_listeners (bc_tasks c ! r)"
    and "distinct (map ln_queue ls)" and "json_dumps W (JObj [(''data'', JStr doc)]) \<noteq> []"
  shows "client_send C W E t (Msg m) = Inr (u, doc) \<and>
    (\<exists>s1 line x c'. send_message u (Some (JStr doc)) s = (Inr True, s1) \<and>
       (\<forall>p. sv_queues s1 p = sv_queues s p @ (if p \<in> set (streams_of u s) then [JStr doc] else [])) \<and>
       (\<forall>s2 later. sv_queues s2 q = JStr doc # later \<longrightarrow>
          stream_next W q s2 = Some (line, s2\<lparr>sv_queues := (sv_queues s2)(q := later)\<rparr>)) \<and>
       stream_line C W r line c = (x, c') \<and>
       (\<forall>l \<in> set (reached C m ls). bc_queues c' (ln_queue l) = bc_queues c (ln_queue l) @ map Heard (hears C m l)) \<and>
       (\<forall>k. k \<notin> ln_queue ` set (reached C m ls) \<longrightarrow> bc_queues c' k = bc_queues c k) \<and>
       (if reached C m ls = ls then x = Inr () \<and> bc_tasks c' = bc_tasks c
        else (\<exists>e. x = Inl e) \<and> bc_tasks c' = (bc_tasks c)[r := (bc_tasks c ! r)\<lparr>tk_phase := Ended\<rparr>]))"
proof
  show "client_send C W E t (Msg m) = Inr (u, doc)"
    using assms(1-3) by (simp add: client_send_def client_send_encoded_def wire_encode_def)
  let ?line = "json_dumps W (JObj [(''data'', JStr doc)])"
  obtain s1 where s: "send_message u (Some (JStr doc)) s = (Inr True, s1)"
      "\<forall>p. sv_queues s1 p = sv_queues s p @ (if p \<in> set (streams_of u s) then [JStr doc] else [])"
    using posted_line [OF assms(6)] by blast
  have "wire_decode W (JStr doc) = Inr (Msg m)"
    using envelope_open_envelop [OF assms(3-5)] by (simp add: wire_decode_def)
  then have line: "line_payload W ?line = Inr (Msg m)" by (rule line_payload_eq [OF assms(4)])
  obtain x qs where qs: "for_each (client_deliver C (Msg m)) ls c = (x, c\<lparr>bc_queues := qs\<rparr>)"
      "x = Inr () \<longleftrightarrow> reached C m ls = ls"
      "\<forall>l \<in> set (reached C m ls). qs (ln_queue l) = bc_queues c (ln_queue l) @ map Heard (hears C m l)"
      "\<forall>q. q \<notin> ln_queue ` set (reached C m ls) \<longrightarrow> qs q = bc_queues c q"
    using client_deliver_all [OF assms(9)] by blast
  have task: "task_line C W r ?line c = (x, c\<lparr>bc_queues := qs\<rparr>)"
    using assms(8,10) line qs(1) by (simp add: task_line_def prog_simps)
  define c' where "c' = (if reached C m ls = ls then c\<lparr>bc_queues := qs\<rparr>
    else on_task r (\<lambda>t. t\<lparr>tk_phase := Ended\<rparr>) (c\<lparr>bc_queues := qs\<rparr>))"
  have run: "stream_line C W r ?line c = (x, c')"
    using assms(7) task qs(2) by (cases x) (simp_all add: stream_line_def c'_def)
  have end_task: "if reached C m ls = ls then x = Inr () \<and> bc_tasks c' = bc_tasks c
      else (\<exists>e. x = Inl e) \<and> bc_tasks c' = (bc_tasks c)[r := (bc_tasks c ! r)\<lparr>tk_phase := Ended\<rparr>]"
    using qs(2) by (cases x) (simp_all add: c'_def on_task_def)
  have "bc_queues c' = qs" by (simp add: c'_def on_task_def)
  then show "\<exists>s1 line x c'. send_message u (Some (JStr doc)) s = (Inr True, s1) \<and>
       (\<forall>p. sv_queues s1 p = sv_queues s p @ (if p \<in> set (streams_of u s) then [JStr doc] else [])) \<and>
       (\<forall>s2 later. sv_queues s2 q = JStr doc # later \<longrightarrow>
          stream_next W q s2 = Some (line, s2\<lparr>sv_queues := (sv_queues s2)(q := later)\<rparr>)) \<and>
       stream_line C W r line c = (x, c') \<and>
       (\<forall>l \<in> set (reached C m ls). bc_queues c' (ln_queue l) = bc_queues c (ln_queue l) @ map Heard (hears C m l)) \<and>
       (\<forall>k. k \<notin> ln_queue ` set (reached C m ls) \<longrightarrow> bc_queues c' k = bc_queues c k) \<and>
       (if reached C m ls = ls then x = Inr () \<and> bc_tasks c' = bc_tasks c
        else (\<exists>e. x = Inl e) \<and> bc_tasks c' = (bc_tasks c)[r := (bc_tasks c ! r)\<lparr>tk_phase := Ended\<rparr>])"
    using s qs(3,4) run end_task
    by (intro exI [of _ s1] exI [of _ ?line] exI [of _ x] exI [of _ c']) (simp add: stream_next_def)
qed

definition demo_taken :: message where
  "demo_taken = OfferTaken 7 (Some [1])"

definition demo_server :: server where
  "demo_server = snd (messages_for ''broadcast'' empty_server)"

definition demo_client :: broker_client where
  "demo_client = task_connected 0 (snd (client_listen_encoded ''broadcast'' (Some OfferTakenListener) empty_client))"

definition demo_encoders :: topic_encoders where
  "demo_encoders = \<lparr>encode_address = (\<lambda>_. ''0x''), encode_token = (\<lambda>x. x), encode_hex = (\<lambda>_. ''0x''),
     is_hex_address = (\<lambda>_. False)\<rparr>"

text \<open>An offer of tokens that are not traded here, heard by a listener for offers between two others.\<close>

definition demo_foreign :: message where
  "demo_foreign = ProvenOffer (SwapOffer [1] 1 [2] 1 7 0) None (Some [1])"

definition other_market :: token_pair where
  "other_market = \<lparr>tp_base = [3], tp_base_decimal = 3, tp_quote = [4], tp_quote_decimal = 18\<rparr>"

definition demo_mixed :: broker_client where
  "demo_mixed = task_connected 0 (snd (client_listen_encoded ''broadcast'' None
     (snd (client_listen_encoded ''broadcast'' (Some (OfferListener other_market))
     (snd (client_listen_encoded ''broadcast'' (Some MessageListener) empty_client))))))"

theorem wire_delivers_witness:
  "(\<exists>doc s1 s2 line c'. send_message ''broadcast'' (Some (JStr doc)) demo_server = (Inr True, s1) \<and>
     stream_next (example_wire demo_taken) 0 s1 = Some (line, s2) \<and>
     stream_line example_crypto (example_wire demo_taken) 0 line demo_client = (Inr (), c') \<and>
     bc_queues c' 0 = [Heard (Heard_offer_id 7)]) \<and>
   (\<exists>line e c'. stream_line example_crypto (example_wire demo_foreign) 0 line demo_mixed = (Inl e, c') \<and>
     bc_queues c' 0 = [Heard (Heard_message demo_foreign)] \<and> bc_queues c' 1 = [] \<and> bc_queues c' 2 = [] \<and>
     tk_phase (bc_tasks c' ! 0) = Ended)"
proof
  let ?W = "example_wire demo_taken"
  let ?l = "\<lparr>ln_topic = Topic ''broadcast'', ln_queue = 0, ln_transform = Some OfferTakenListener\<rparr>"
  obtain doc where doc: "envelop example_crypto ?W demo_taken = Inr doc"
    by (simp add: envelop_def example_crypto_def is_instance_def types_msg_map_def msg_types_map_def
        dict_set_def dict_get_def dict_item_def demo_taken_def)
  have srv: "streams_of ''broadcast'' demo_server = [0]" "sv_queues demo_server 0 = []"
    by (simp_all add: demo_server_def messages_for_def streams_of_def empty_server_def)
  have top: "encode_topic demo_encoders Broadcast = Inr ''broadcast''" by (simp add: encode_topic_def)
  have q: "0 \<in> set (streams_of ''broadcast'' demo_server)" using srv by simp
  have c: "tk_phase (bc_tasks demo_client ! 0) = Streaming" "tk_listeners (bc_tasks demo_client ! 0) = [?l]"
    "bc_queues demo_client 0 = []"
    by (simp_all add: demo_client_def client_listen_encoded_def task_for_def create_listener_def
        empty_client_def prog_simps Let_def on_task_def task_connected_def)
  have h: "transform_of example_crypto OfferTakenListener demo_taken = Inr (Some (Heard_offer_id 7))"
    by (simp add: transform_of_def offer_taken_transform_def is_instance_def demo_taken_def)
  have sgn: "is_instance demo_taken Signed" by (simp add: is_instance_def demo_taken_def)
  have ne: "json_dumps ?W (JObj [(''data'', JStr doc)]) \<noteq> []" by (simp add: example_wire_def)
  have r: "reached example_crypto demo_taken [?l] = [?l]" by (simp add: hearing_raises_def h)
  from wire_delivers [OF top sgn doc example_wire_laws q c(1) c(2) [symmetric] _ ne, unfolded r]
  obtain s1 line x c' where x: "send_message ''broadcast'' (Some (JStr doc)) demo_server = (Inr True, s1)"
    "sv_queues s1 0 = [JStr doc]" "\<And>s2 later. sv_queues s2 0 = JStr doc # later \<Longrightarrow>
       stream_next ?W 0 s2 = Some (line, s2\<lparr>sv_queues := (sv_queues s2)(0 := later)\<rparr>)"
    "stream_line example_crypto ?W 0 line demo_client = (Inr (), c')" "bc_queues c' 0 = [Heard (Heard_offer_id 7)]"
    using srv c(3) by (auto simp: hears_def h)
  show "\<exists>doc s1 s2 line c'. send_message ''broadcast'' (Some (JStr doc)) demo_server = (Inr True, s1) \<and>
     stream_next ?W 0 s1 = Some (line, s2) \<and> stream_line example_crypto ?W 0 line demo_client = (Inr (), c') \<and>
     bc_queues c' 0 = [Heard (Heard_offer_id 7)]"
    by (intro exI conjI, rule x(1), rule x(3) [OF x(2)], rule x(4), rule x(5))
next
  let ?W = "example_wire demo_foreign" and ?l = "\<lambda>n k. \<lparr>ln_topic = Topic ''broadcast'', ln_queue = n, ln_transform = k\<rparr>"
  let ?ls = "[?l 0 (Some MessageListener), ?l 1 (Some (OfferListener other_market)), ?l 2 None]"
  obtain doc where doc: "envelop example_crypto ?W demo_foreign = Inr doc"
    by (simp add: envelop_def example_crypto_def is_instance_def types_msg_map_def msg_types_map_def
        dict_set_def dict_get_def dict_item_def demo_foreign_def)
  have srv: "streams_of ''broadcast'' demo_server = [0]"
    by (simp add: demo_server_def messages_for_def streams_of_def empty_server_def)
  have top: "encode_topic demo_encoders Broadcast = Inr ''broadcast''" by (simp add: encode_topic_def)
  have q: "0 \<in> set (streams_of ''broadcast'' demo_server)" using srv by simp
  have c: "tk_phase (bc_tasks demo_mixed ! 0) = Streaming" "tk_listeners (bc_tasks demo_mixed ! 0) = ?ls"
    "length (bc_tasks demo_mixed) = 1" "bc_queues demo_mixed 0 = []" "bc_queues demo_mixed 1 = []" "bc_queues demo_mixed 2 = []"
    by (simp_all add: demo_mixed_def client_listen_encoded_def task_for_def create_listener_def
        empty_client_def prog_simps Let_def on_task_def task_connected_def dict_get_def dict_set_def)
  have sgn: "is_instance demo_foreign Signed" by (simp add: is_instance_def demo_foreign_def)
  have ne: "json_dumps ?W (JObj [(''data'', JStr doc)]) \<noteq> []" by (simp add: example_wire_def)
  have h: "transform_of example_crypto MessageListener demo_foreign = Inr (Some (Heard_message demo_foreign))"
    "transform_of example_crypto (OfferListener other_market) demo_foreign = Inl AssertionError"
    by (simp_all add: transform_of_def offer_listener_transform_def is_instance_def demo_foreign_def get_offer_type_def
        other_market_def)
  have r: "reached example_crypto demo_foreign ?ls = [?l 0 (Some MessageListener)]"
    by (simp add: hearing_raises_def h)
  from wire_delivers [OF top sgn doc example_wire_laws q c(1) c(2) [symmetric] _ ne, unfolded r]
  obtain line e c' where x: "stream_line example_crypto ?W 0 line demo_mixed = (Inl e, c')"
    "bc_queues c' 0 = [Heard (Heard_message demo_foreign)]" "bc_queues c' 1 = []" "bc_queues c' 2 = []"
    "bc_tasks c' = (bc_tasks demo_mixed)[0 := (bc_tasks demo_mixed ! 0)\<lparr>tk_phase := Ended\<rparr>]"
    using c(4-6) by (auto simp: hears_def h)
  moreover have "tk_phase (bc_tasks c' ! 0) = Ended" using x(5) c(3) by simp
  ultimately show "\<exists>line e c'. stream_line example_crypto ?W 0 line demo_mixed = (Inl e, c') \<and>
     bc_queues c' 0 = [Heard (Heard_message demo_foreign)] \<and> bc_queues c' 1 = [] \<and> bc_queues c' 2 = [] \<and>
     tk_phase (bc_tasks c' ! 0) = Ended"
    by blast
qed

section \<open>Listening\<close>

lemma task_for_known:
  "dict_get t (topic_task_map c) = Some r \<Longrightarrow> task_for t k c = (Inr r, c)"
  by (simp add: task_for_def)

text \<open>
  A task that has ended stays in the map of topics. Whoever listens on its topic again gets a
  listener of the ended task, and no line ever reaches it.
\<close>

theorem ended_task_reused:
  assumes "dict_get t (topic_task_map c) = Some r" and "r < length (bc_tasks c)"
    and "tk_phase (bc_tasks c ! r) = Ended"
  shows "\<exists>l c'. client_listen_encoded t k c = (Inr l, c') \<and> l \<in> set (tk_listeners (bc_tasks c' ! r)) \<and>
    task_connected r c' = c' \<and> (\<forall>line. stream_line C W r line c' = (Inr (), c'))"
  using assms
  by (simp add: client_listen_encoded_def task_for_known prog_simps create_listener_def Let_def
      on_task_def task_connected_def stream_line_def nth_list_update list_update_same_conv)

text \<open>How a task ends: its last listener stops, and one more line comes.\<close>

theorem stopped_task_ends:
  assumes "dict_get l (listener_task_map c) = Some r" and "r < length (bc_tasks c)"
    and "tk_phase (bc_tasks c ! r) = Streaming" and "tk_listeners (bc_tasks c ! r) = [l]"
    and "line_payload W line = Inr x" and "line \<noteq> []"
  shows "\<exists>c1 c2. client_stop_listen l c = (Inr (), c1) \<and> stream_line C W r line c1 = (Inr (), c2) \<and>
    tk_phase (bc_tasks c2 ! r) = Ended \<and> bc_queues c2 = bc_queues c"
  using assms
  by (simp add: client_stop_listen_def Let_def on_task_def task_stop_def stream_line_def
      task_line_def prog_simps)

end
