(* ===== verification/Topic_Invariant.thy ===== *)
theory Topic_Invariant
  imports Topic_Client
begin

text \<open>
  The state of a client of the broker over any sequence of calls, lines and connections: its two maps and
  the listener lists of its tasks agree, and every listener has a queue of its own.
\<close>

section \<open>Well-formed clients\<close>

definition task_ok :: "broker_client \<Rightarrow> nat \<Rightarrow> bool" where
  "task_ok c r \<longleftrightarrow>
     distinct (tk_listeners (bc_tasks c ! r)) \<and>
     (\<forall>l \<in> set (tk_listeners (bc_tasks c ! r)).
        ln_queue l < bc_next c \<and> ln_topic l = Topic (tk_topic (bc_tasks c ! r)))"

definition maps_ok :: "broker_client \<Rightarrow> bool" where
  "maps_ok c \<longleftrightarrow>
     (\<forall>t r. dict_get t (topic_task_map c) = Some r \<longrightarrow>
        r < length (bc_tasks c) \<and> tk_topic (bc_tasks c ! r) = t) \<and>
     (\<forall>l r. dict_get l (listener_task_map c) = Some r \<longleftrightarrow>
        r < length (bc_tasks c) \<and> l \<in> set (tk_listeners (bc_tasks c ! r)))"

definition queues_apart :: "broker_client \<Rightarrow> bool" where
  "queues_apart c \<longleftrightarrow>
     (\<forall>l k. dict_mem l (listener_task_map c) \<longrightarrow> dict_mem k (listener_task_map c) \<longrightarrow>
        ln_queue l = ln_queue k \<longrightarrow> l = k)"

definition client_ok :: "broker_client \<Rightarrow> bool" where
  "client_ok c \<longleftrightarrow> maps_ok c \<and> (\<forall>r < length (bc_tasks c). task_ok c r) \<and> queues_apart c"

lemmas client_ok_defs = client_ok_def maps_ok_def task_ok_def queues_apart_def

lemma client_ok_empty: "client_ok empty_client"
  by (simp add: client_ok_defs empty_client_def dict_get_def dict_mem_def)

text \<open>The fields the conditions read.\<close>

lemma client_ok_queues [simp]: "client_ok (c\<lparr>bc_queues := q\<rparr>) = client_ok c"
  by (simp add: client_ok_defs)

lemma client_ok_same:
  assumes "topic_task_map d = topic_task_map c" and "listener_task_map d = listener_task_map c"
    and "bc_next d = bc_next c" and "length (bc_tasks d) = length (bc_tasks c)"
    and "\<And>q. tk_topic (bc_tasks d ! q) = tk_topic (bc_tasks c ! q)"
    and "\<And>q. tk_listeners (bc_tasks d ! q) = tk_listeners (bc_tasks c ! q)"
  shows "client_ok d = client_ok c"
  unfolding client_ok_defs assms by (rule refl)

lemma on_task_phase:
  assumes "tk_topic (f (bc_tasks c ! r)) = tk_topic (bc_tasks c ! r)"
    and "tk_listeners (f (bc_tasks c ! r)) = tk_listeners (bc_tasks c ! r)"
  shows "client_ok (on_task r f c) = client_ok c"
  using assms
  by (intro client_ok_same; cases "r < length (bc_tasks c)")
     (auto simp: on_task_def nth_list_update list_update_beyond)

lemma client_ok_connected: "client_ok (task_connected r c) = client_ok c"
  unfolding task_connected_def by (rule on_task_phase) simp_all

lemma client_ok_stop: "client_ok (on_task r task_stop c) = client_ok c"
  by (rule on_task_phase) (simp_all add: task_stop_def)

lemma client_ok_end: "client_ok (on_task r (\<lambda>t. t\<lparr>tk_phase := p\<rparr>) c) = client_ok c"
  by (rule on_task_phase) simp_all

section \<open>The operations\<close>

lemma client_ok_task_for:
  assumes ok: "client_ok c" and "task_for t k c = (x, d)"
  shows "client_ok d \<and> (\<exists>r. x = Inr r \<and> r < length (bc_tasks d) \<and> tk_topic (bc_tasks d ! r) = t)"
proof (cases "dict_get t (topic_task_map c)")
  case None
  let ?n = "length (bc_tasks c)"
  let ?new = "\<lparr>tk_topic = t, tk_transform = k, tk_listeners = [], tk_phase = Connecting\<rparr>"
  have d: "x = Inr ?n" "d = c\<lparr>bc_tasks := bc_tasks c @ [?new], topic_task_map := dict_set t ?n (topic_task_map c)\<rparr>"
    using assms(2) None by (simp_all add: task_for_def)
  have same: "bc_tasks d ! q = bc_tasks c ! q" if "q < ?n" for q using that by (simp add: d nth_append)
  have new: "bc_tasks d ! ?n = ?new" by (simp add: d)
  have "maps_ok d"
    using ok same new by (fastforce simp: client_ok_def maps_ok_def d less_Suc_eq nth_append split: if_splits)
  moreover have "task_ok d q" if "q < length (bc_tasks d)" for q
  proof (cases "q = ?n")
    case True
    then show ?thesis by (simp add: task_ok_def new)
  next
    case False
    then have "q < ?n" using that d by simp
    then show ?thesis using ok same by (simp add: client_ok_def task_ok_def) (simp add: d)
  qed
  moreover have "queues_apart d" using ok by (simp add: client_ok_def queues_apart_def d)
  ultimately show ?thesis using new d(1) unfolding client_ok_def by (simp add: d(2))
next
  case (Some r)
  then show ?thesis using assms by (auto simp: task_for_def client_ok_def maps_ok_def)
qed

lemma client_ok_new_listener:
  assumes ok: "client_ok c" and r: "r < length (bc_tasks c)"
    and "create_listener r k c = (Inr l, c1)"
  shows "client_ok (c1\<lparr>listener_task_map := dict_set l r (listener_task_map c1)\<rparr>)"
proof -
  have l0: "l = \<lparr>ln_topic = Topic (tk_topic (bc_tasks c ! r)), ln_queue = bc_next c, ln_transform = k\<rparr>"
    using assms(3) by (simp add: create_listener_def Let_def)
  then have l: "ln_queue l = bc_next c" "ln_topic l = Topic (tk_topic (bc_tasks c ! r))" by simp_all
  have c1: "c1 = on_task r (\<lambda>t. t\<lparr>tk_listeners := tk_listeners t @ [l]\<rparr>)
         (c\<lparr>bc_queues := (bc_queues c)(bc_next c := []), bc_next := bc_next c + 1\<rparr>)"
    using arg_cong [OF assms(3), of snd] unfolding l0 create_listener_def Let_def snd_conv by (rule sym)
  have old: "ln_queue j < bc_next c" if "q < length (bc_tasks c)" "j \<in> set (tk_listeners (bc_tasks c ! q))" for j q
    using ok that unfolding client_ok_def task_ok_def by blast
  have new: "l \<notin> set (tk_listeners (bc_tasks c ! q))" if "q < length (bc_tasks c)" for q
    using old [OF that, of l] l(1) by auto
  have unknown: "dict_get l (listener_task_map c) = None"
    using ok new by (cases "dict_get l (listener_task_map c)") (auto simp: client_ok_def maps_ok_def)
  have known: "ln_queue j < bc_next c" if "dict_get j (listener_task_map c) = Some q" for j q
    using ok old that by (auto simp: client_ok_def maps_ok_def)
  let ?d = "c1\<lparr>listener_task_map := dict_set l r (listener_task_map c1)\<rparr>"
  have tasks: "tk_listeners (bc_tasks ?d ! q) =
      (if q = r then tk_listeners (bc_tasks c ! r) @ [l] else tk_listeners (bc_tasks c ! q))"
    "tk_topic (bc_tasks ?d ! q) = tk_topic (bc_tasks c ! q)" "length (bc_tasks ?d) = length (bc_tasks c)" for q
    using r by (simp_all add: c1 on_task_def nth_list_update)
  have "maps_ok ?d"
    using ok r new unknown unfolding maps_ok_def tasks
    by (auto simp: c1 on_task_def client_ok_def maps_ok_def)
  moreover have "task_ok ?d q" if "q < length (bc_tasks ?d)" for q
  proof -
    have q: "q < length (bc_tasks c)" using that tasks by simp
    then have "task_ok c q" using ok by (simp add: client_ok_def)
    moreover have "bc_next ?d = Suc (bc_next c)" by (simp add: c1 on_task_def)
    ultimately show ?thesis
      using new [OF r] l unfolding task_ok_def tasks by (cases "q = r") (auto simp: less_Suc_eq)
  qed
  moreover have "queues_apart ?d"
    unfolding queues_apart_def
  proof (intro allI impI)
    have mem: "dict_mem j (listener_task_map ?d) \<longleftrightarrow> j = l \<or> dict_mem j (listener_task_map c)" for j
      by (simp add: c1 on_task_def dict_mem_def)
    have fresh: "ln_queue j \<noteq> ln_queue l" if "dict_mem j (listener_task_map c)" for j
      using that known [of j] l(1) by (auto simp: dict_mem_def)
    have old_apart: "queues_apart c" using ok by (simp add: client_ok_def)
    fix j i
    assume "dict_mem j (listener_task_map ?d)" "dict_mem i (listener_task_map ?d)" "ln_queue j = ln_queue i"
    then show "j = i" using mem [of j] mem [of i] fresh [of j] fresh [of i] old_apart
      unfolding queues_apart_def by metis
  qed
  ultimately show ?thesis unfolding client_ok_def by blast
qed

lemma client_ok_listen:
  assumes "client_ok c" and "client_listen_encoded t k c = (x, c')"
  shows "client_ok c' \<and> (\<exists>l. x = Inr l \<and> ln_topic l = Topic t \<and> dict_mem l (listener_task_map c'))"
proof -
  obtain y c1 where "task_for t k c = (y, c1)" by fastforce
  with client_ok_task_for [OF assms(1) this] obtain r where
    1: "task_for t k c = (Inr r, c1)" "client_ok c1" "r < length (bc_tasks c1)" "tk_topic (bc_tasks c1 ! r) = t"
    by blast
  obtain l c2 where 2: "create_listener r k c1 = (Inr l, c2)" by (auto simp: create_listener_def Let_def)
  have "x = Inr l" "c' = c2\<lparr>listener_task_map := dict_set l r (listener_task_map c2)\<rparr>"
    using assms(2) by (simp_all add: client_listen_encoded_def seq_apply 1(1) 2 modify_apply return_apply)
  moreover have "ln_topic l = Topic t" using 2 1(4) by (auto simp: create_listener_def Let_def)
  ultimately show ?thesis using client_ok_new_listener [OF 1(2,3) 2] by (simp add: dict_mem_def)
qed

lemma client_ok_drop:
  assumes ok: "client_ok c" and l: "dict_get l (listener_task_map c) = Some r"
  shows "client_ok ((on_task r (\<lambda>t. t\<lparr>tk_listeners := remove1 l (tk_listeners t)\<rparr>) c)
           \<lparr>listener_task_map := dict_del l (listener_task_map c)\<rparr>)" (is "client_ok ?d")
proof -
  have r: "r < length (bc_tasks c)" "l \<in> set (tk_listeners (bc_tasks c ! r))"
    using ok l by (auto simp: client_ok_def maps_ok_def)
  have dist: "distinct (tk_listeners (bc_tasks c ! r))" using ok r by (simp add: client_ok_def task_ok_def)
  have only: "l \<in> set (tk_listeners (bc_tasks c ! q)) \<Longrightarrow> q < length (bc_tasks c) \<Longrightarrow> q = r" for q
    using ok l unfolding client_ok_def maps_ok_def by (metis option.inject)
  have tasks: "tk_listeners (bc_tasks ?d ! q) =
      (if q = r then remove1 l (tk_listeners (bc_tasks c ! r)) else tk_listeners (bc_tasks c ! q))"
    "tk_topic (bc_tasks ?d ! q) = tk_topic (bc_tasks c ! q)" "length (bc_tasks ?d) = length (bc_tasks c)" for q
    using r by (simp_all add: on_task_def nth_list_update)
  have "maps_ok ?d"
    using ok dist only unfolding maps_ok_def tasks
    by (auto simp: on_task_def client_ok_def maps_ok_def set_remove1_eq)
  moreover have "task_ok ?d q" if "q < length (bc_tasks ?d)" for q
    using ok that dist unfolding task_ok_def tasks
    by (auto simp: on_task_def client_ok_def task_ok_def distinct_remove1)
  moreover have "queues_apart ?d"
    using ok by (auto simp: queues_apart_def client_ok_def on_task_def dict_mem_def split: if_splits)
  ultimately show ?thesis unfolding client_ok_def by blast
qed

lemma stop_listen_eq:
  assumes "client_ok c"
  shows "fst (client_stop_listen l c) =
      (if dict_mem l (listener_task_map c) then Inr () else Inl PlainException)"
    and "client_ok (snd (client_stop_listen l c))"
proof -
  have known: "l \<in> set (tk_listeners (bc_tasks c ! r))" if "dict_get l (listener_task_map c) = Some r" for r
    using assms that by (simp add: client_ok_def maps_ok_def)
  then show "fst (client_stop_listen l c) =
      (if dict_mem l (listener_task_map c) then Inr () else Inl PlainException)"
    by (auto simp: client_stop_listen_def dict_mem_def Let_def split: option.splits)
  show "client_ok (snd (client_stop_listen l c))"
    using assms known client_ok_drop [OF assms, of l]
    by (auto simp: client_stop_listen_def Let_def client_ok_stop split: option.splits)
qed

lemma deliver_ok: "preserves client_ok (client_deliver C x l)"
  unfolding client_deliver_def
  by (intro preserves_intros preserves_modify) (simp split: option.split)

lemma task_line_ok: "preserves client_ok (task_line C W r line)"
  unfolding task_line_def by (intro preserves_intros deliver_ok)

lemma stream_line_ok: "client_ok c \<Longrightarrow> client_ok (snd (stream_line C W r line c))"
  using preservesD [OF task_line_ok, of c]
  by (auto simp: stream_line_def client_ok_end split: prod.split sum.split)

section \<open>A client in use\<close>

text \<open>What can happen to a client: its owner listens or stops, one of its tasks gets its answer or a line.\<close>

datatype client_call =
    Listen string "listener_kind option" | Stop topic_listener | Connected nat | Line nat string

fun client_step :: "crypto \<Rightarrow> wire \<Rightarrow> client_call \<Rightarrow> broker_client \<Rightarrow> broker_client" where
  "client_step C W (Listen t k) c = snd (client_listen_encoded t k c)"
| "client_step C W (Stop l) c = snd (client_stop_listen l c)"
| "client_step C W (Connected r) c = (if r < length (bc_tasks c) then task_connected r c else c)"
| "client_step C W (Line r line) c =
     (if r < length (bc_tasks c) then snd (stream_line C W r line c) else c)"

abbreviation client_steps :: "crypto \<Rightarrow> wire \<Rightarrow> broker_client \<Rightarrow> broker_client \<Rightarrow> bool" where
  "client_steps C W c d \<equiv> \<exists>call. d = client_step C W call c"

lemma client_step_ok: "client_ok c \<Longrightarrow> client_ok (client_step C W call c)"
  using client_ok_listen [of c] stop_listen_eq(2) [of c] stream_line_ok
  by (cases call) (auto simp: client_ok_connected prod_eq_iff)

interpretation client_system: step_system empty_client "client_steps C W" client_ok for C W
  by unfold_locales (auto intro: client_ok_empty client_step_ok)

text \<open>The queues a line can reach.\<close>

definition queue_kept :: "nat \<Rightarrow> wire_heard list \<Rightarrow> broker_client \<Rightarrow> bool" where
  "queue_kept q x c \<longleftrightarrow> bc_queues c q = x"

lemma deliver_kept: "ln_queue l \<noteq> q \<Longrightarrow> preserves (queue_kept q x) (client_deliver C y l)"
  unfolding client_deliver_def
  by (intro preserves_seq preserves_lift preserves_option preserves_return preserves_modify)
     (simp add: queue_kept_def)

lemma stream_line_kept:
  assumes "\<forall>l \<in> set (tk_listeners (bc_tasks c ! r)). ln_queue l \<noteq> q"
  shows "bc_queues (snd (stream_line C W r line c)) q = bc_queues c q"
proof -
  have each: "\<forall>l \<in> set ls. ln_queue l \<noteq> q \<Longrightarrow> queue_kept q x d \<Longrightarrow>
      queue_kept q x (snd (for_each (client_deliver C y) ls d))" for ls y x d
  proof (induction ls arbitrary: d)
    case (Cons l ls)
    then have "queue_kept q x (snd (client_deliver C y l d))"
      using deliver_kept [of l q x C y] by (simp add: preserves_def)
    then show ?case using Cons by (auto simp: seq_def split: prod.split sum.split)
  qed (simp add: return_def)
  have "queue_kept q (bc_queues c q) (snd (task_line C W r line c))"
    using each [OF assms] by (auto simp: task_line_def prog_simps queue_kept_def split: sum.split)
  then show ?thesis
    by (auto simp: stream_line_def queue_kept_def on_task_def split: prod.splits sum.splits)
qed

section \<open>A queue nobody writes to any more\<close>

definition silent :: "nat \<Rightarrow> wire_heard list \<Rightarrow> broker_client \<Rightarrow> bool" where
  "silent q x c \<longleftrightarrow> client_ok c \<and> q < bc_next c \<and> bc_queues c q = x \<and>
     (\<forall>k. dict_mem k (listener_task_map c) \<longrightarrow> ln_queue k \<noteq> q)"

lemma listen_fields:
  assumes "client_listen_encoded t k c = (x, d)"
  shows "\<exists>l r. ln_queue l = bc_next c \<and> listener_task_map d = dict_set l r (listener_task_map c) \<and>
    bc_next d = Suc (bc_next c) \<and> bc_queues d = (bc_queues c)(bc_next c := [])"
proof -
  have "\<exists>r c1. task_for t k c = (Inr r, c1) \<and> bc_next c1 = bc_next c \<and>
      listener_task_map c1 = listener_task_map c \<and> bc_queues c1 = bc_queues c"
    by (simp add: task_for_def split: option.split)
  then obtain r c1 where 1: "task_for t k c = (Inr r, c1)" "bc_next c1 = bc_next c"
      "listener_task_map c1 = listener_task_map c" "bc_queues c1 = bc_queues c"
    by blast
  show ?thesis
    using assms
    by (intro exI [of _ "\<lparr>ln_topic = Topic (tk_topic (bc_tasks c1 ! r)), ln_queue = bc_next c,
          ln_transform = k\<rparr>"] exI [of _ r])
       (auto simp: client_listen_encoded_def seq_apply 1 create_listener_def Let_def modify_apply
        return_apply on_task_def)
qed

lemma stop_fields:
  "bc_next (snd (client_stop_listen l c)) = bc_next c" "bc_queues (snd (client_stop_listen l c)) = bc_queues c"
  "dict_mem k (listener_task_map (snd (client_stop_listen l c))) \<Longrightarrow> dict_mem k (listener_task_map c)"
  "client_stop_listen l c = (Inr (), d) \<Longrightarrow> \<not> dict_mem l (listener_task_map d)"
  by (auto simp: client_stop_listen_def Let_def on_task_def dict_mem_def split: option.splits if_splits)

lemma connected_fields:
  "bc_next (task_connected r c) = bc_next c" "bc_queues (task_connected r c) = bc_queues c"
  "listener_task_map (task_connected r c) = listener_task_map c"
  by (simp_all add: task_connected_def on_task_def)

definition same_listeners :: "broker_client \<Rightarrow> broker_client \<Rightarrow> bool" where
  "same_listeners c d \<longleftrightarrow> bc_next d = bc_next c \<and> listener_task_map d = listener_task_map c"

lemma task_line_same: "same_listeners c (snd (task_line C W r line c))"
proof -
  have "preserves (same_listeners c) (client_deliver C y l)" for y l
    unfolding client_deliver_def
    by (intro preserves_intros preserves_modify) (simp add: same_listeners_def)
  then have "preserves (same_listeners c) (task_line C W r line)"
    unfolding task_line_def by (intro preserves_intros)
  then show ?thesis by (simp add: preserves_def same_listeners_def)
qed

lemma stream_line_same: "same_listeners c (snd (stream_line C W r line c))"
  using task_line_same [of c C W r line]
  by (auto simp: stream_line_def same_listeners_def on_task_def split: prod.split sum.split)

lemma silent_step:
  assumes "silent q x c" shows "silent q x (client_step C W call c)"
proof -
  have ok: "client_ok (client_step C W call c)" using assms client_step_ok by (simp add: silent_def)
  show ?thesis
  proof (cases call)
    case (Listen t k)
    obtain y d where d: "client_listen_encoded t k c = (y, d)" by fastforce
    obtain l r where l: "ln_queue l = bc_next c" "listener_task_map d = dict_set l r (listener_task_map c)"
      "bc_next d = Suc (bc_next c)" "bc_queues d = (bc_queues c)(bc_next c := [])"
      using listen_fields [OF d] by blast
    have "dict_mem j (listener_task_map d) \<longleftrightarrow> j = l \<or> dict_mem j (listener_task_map c)" for j
      by (simp add: l(2) dict_mem_def)
    then show ?thesis using assms ok d l(1,3,4) Listen by (auto simp: silent_def)
  next
    case (Stop l)
    then show ?thesis using assms ok stop_fields(1,2) [of l c] stop_fields(3) [of _ l c]
      by (auto simp: silent_def)
  next
    case (Connected r)
    then show ?thesis using assms ok by (simp add: silent_def connected_fields)
  next
    case (Line r line)
    show ?thesis
    proof (cases "r < length (bc_tasks c)")
      case True
      then have "dict_mem l (listener_task_map c)" if "l \<in> set (tk_listeners (bc_tasks c ! r))" for l
        using assms that unfolding silent_def client_ok_def maps_ok_def dict_mem_def by blast
      then have "bc_queues (snd (stream_line C W r line c)) q = bc_queues c q"
        using assms by (intro stream_line_kept) (auto simp: silent_def)
      then show ?thesis using assms ok stream_line_same [of c C W r line] Line True
        by (simp add: silent_def same_listeners_def)
    next
      case False
      then show ?thesis using assms Line by simp
    qed
  qed
qed

lemma silent_run: "reachable_from (client_steps C W) c d \<Longrightarrow> silent q x c \<Longrightarrow> silent q x d"
  by (induction rule: reachable_from.induct) (auto simp: silent_step)

section \<open>Properties\<close>

text \<open>C22: the state of a client of the broker is well formed after any sequence of calls, answers and
  lines: its two maps agree with the listeners of its tasks, each listener is registered once, with a
  queue of its own and the topic of its task; so stopping a registered listener always succeeds,
  and stopping any other raises the exception for unknown listeners and no other.\<close>

theorem client_stays_typed:
  assumes "reachable_from (client_steps C W) empty_client c"
  shows "client_ok c \<and> fst (client_stop_listen l c) =
    (if dict_mem l (listener_task_map c) then Inr () else Inl PlainException)"
  using client_system.inv_reachable [OF assms] stop_listen_eq(1) by blast

text \<open>C23: a listener that has stopped hears nothing more: whatever a client does later, and whatever lines
  its tasks get, the queue of the listener stays as it was.\<close>

theorem stopped_listener_silent:
  assumes "reachable_from (client_steps C W) empty_client c"
    and "client_stop_listen l c = (Inr (), d)" and "reachable_from (client_steps C W) d e"
  shows "bc_queues e (ln_queue l) = bc_queues c (ln_queue l)"
proof -
  have ok: "client_ok c" using assms(1) by (rule client_system.inv_reachable)
  have l: "dict_mem l (listener_task_map c)"
    using stop_listen_eq(1) [OF ok, of l] assms(2) by (simp split: if_splits)
  then obtain r where "dict_get l (listener_task_map c) = Some r" by (auto simp: dict_mem_def)
  then have "ln_queue l < bc_next c" using ok unfolding client_ok_def maps_ok_def task_ok_def by blast
  moreover have "ln_queue k \<noteq> ln_queue l" if "dict_mem k (listener_task_map d)" for k
    using that stop_fields(3) [of k l c] stop_fields(4) [OF assms(2)] assms(2) ok l
    unfolding client_ok_def queues_apart_def by (metis snd_conv)
  ultimately have "silent (ln_queue l) (bc_queues c (ln_queue l)) d"
    using stop_fields(1,2) [of l c] stop_listen_eq(2) [OF ok, of l] assms(2) by (simp add: silent_def)
  then show ?thesis using silent_run [OF assms(3)] by (simp add: silent_def)
qed

definition demo_listener :: topic_listener where
  "demo_listener = \<lparr>ln_topic = Topic ''broadcast'', ln_queue = 0, ln_transform = Some OfferTakenListener\<rparr>"

lemma demo_client_run: "reachable_from (client_steps C W) empty_client demo_client"
proof -
  let ?c = "client_step C W (Listen ''broadcast'' (Some OfferTakenListener)) empty_client"
  have "demo_client = client_step C W (Connected 0) ?c"
    by (simp add: demo_client_def client_listen_encoded_def task_for_def empty_client_def prog_simps
        create_listener_def Let_def on_task_def)
  then show ?thesis by (blast intro: reachable_from.intros)
qed

lemma demo_client_knows: "dict_mem demo_listener (listener_task_map demo_client)"
  by (simp add: demo_client_def client_listen_encoded_def task_for_def empty_client_def prog_simps
      create_listener_def Let_def on_task_def task_connected_def demo_listener_def dict_mem_def)

theorem client_stays_typed_witness:
  "fst (client_stop_listen demo_listener demo_client) = Inr ()"
  using client_stays_typed [OF demo_client_run, of demo_listener] demo_client_knows by simp

theorem stopped_listener_silent_witness:
  "bc_queues (client_step example_crypto (example_wire demo_taken) (Line 0 ''x'')
     (snd (client_stop_listen demo_listener demo_client))) 0 = []"
proof -
  let ?C = example_crypto and ?W = "example_wire demo_taken"
  let ?d = "snd (client_stop_listen demo_listener demo_client)"
  have ok: "client_ok demo_client"
    using demo_client_run [of ?C ?W] by (rule client_system.inv_reachable)
  have stop: "client_stop_listen demo_listener demo_client = (Inr (), ?d)"
    using stop_listen_eq(1) [OF ok, of demo_listener] demo_client_knows by (simp add: prod_eq_iff)
  have "reachable_from (client_steps ?C ?W) ?d (client_step ?C ?W (Line 0 ''x'') ?d)"
    by (blast intro: reachable_from.intros)
  from stopped_listener_silent [OF demo_client_run stop this]
  show ?thesis
    by (simp add: demo_listener_def demo_client_def client_listen_encoded_def task_for_def
        empty_client_def prog_simps create_listener_def Let_def on_task_def task_connected_def)
qed

end
