(* ===== verification/Rest.thy ===== *)
theory Rest
  imports Wire Offer_Grouping Node_Invariant
begin

text \<open>
  \<open>api/v0_1/resources.py\<close>: what the resources of the HTTP interface answer, as JSON values, and the calls
  they make on the node. A body or a query argument that is not there is \<open>None\<close>; \<open>int\<close> of a text is
  an argument. An exception other than the abort of the resource becomes an internal error of the
  server. Numbers in a body are those of JSON, so no NaN and no infinity.
\<close>

section \<open>Queries\<close>

definition json_data :: "json \<Rightarrow> json" where
  "json_data x = JObj [(''data'', x)]"

fun map_res :: "('a \<Rightarrow> 'b res) \<Rightarrow> 'a list \<Rightarrow> 'b list res" where
  "map_res f [] = Inr []"
| "map_res f (x # xs) = bind_res (f x) (\<lambda>y. bind_res (map_res f xs) (\<lambda>ys. Inr (y # ys)))"

definition offer_json :: "grouped_offer \<Rightarrow> json res" where
  "offer_json g = bind_res (avg_timeout g) (\<lambda>t.
     Inr (JObj [(''amount'', JInt (go_amount g)), (''price'', JFloat (double (go_price g))),
                (''timeout'', JFloat t)]))"

definition offers_get :: "offer_book \<Rightarrow> json res" where
  "offers_get b =
     bind_res (grouped_buys b) (\<lambda>bs.
     bind_res (grouped_sells b) (\<lambda>ss.
     bind_res (map_res offer_json bs) (\<lambda>buys_json.
     bind_res (map_res offer_json (rev ss)) (\<lambda>sells_json.
     Inr (json_data (JObj [(''buys'', JList buys_json), (''sells'', JList sells_json)]))))))"

fun type_name :: "offer_type \<Rightarrow> string" where
  "type_name BUY = ''BUY''"
| "type_name SELL = ''SELL''"

definition trade_json :: "grouped_trade \<Rightarrow> json" where
  "trade_json t = JObj [(''timestamp'', JInt (gt_timestamp t)), (''amount'', JInt (gt_amount t)),
     (''price'', JFloat (double (gt_price t))), (''type'', JStr (type_name (gt_type t)))]"

text \<open>\<open>None\<close> stays \<open>None\<close>, a text has to be a whole number.\<close>

definition int_arg :: "(string \<Rightarrow> int res) \<Rightarrow> string option \<Rightarrow> int option res" where
  "int_arg int_of x = (case x of None \<Rightarrow> Inr None | Some t \<Rightarrow> bind_res (int_of t) (\<lambda>n. Inr (Some n)))"

definition trades_get :: "(string \<Rightarrow> int res) \<Rightarrow> trades_view \<Rightarrow> string option \<Rightarrow> json res" where
  "trades_get int_of v chunk_size =
     bind_res (int_arg int_of chunk_size) (\<lambda>n.
     bind_res (recent_grouped_trades v n) (\<lambda>ts.
     Inr (json_data (JList (map trade_json ts)))))"

definition bin_json :: "price_bin \<Rightarrow> json res" where
  "bin_json b = bind_res (close_price b) (\<lambda>c.
     Inr (JObj [(''open'', JFloat (pb_open_price b)), (''close'', JFloat c), (''max'', JFloat (max_price b)),
                (''min'', JFloat (min_price b)), (''amount'', JInt (pb_amount b)),
                (''timestamp'', JInt (pb_timestamp b))]))"

definition price_chart_get ::
  "(string \<Rightarrow> int res) \<Rightarrow> datetime \<Rightarrow> trades_view \<Rightarrow> string option \<Rightarrow> string option \<Rightarrow> json res" where
  "price_chart_get int_of now v nof_buckets interval =
     bind_res (int_arg int_of nof_buckets) (\<lambda>n.
     bind_res (int_arg int_of interval) (\<lambda>i.
     case n of
       None \<Rightarrow> Inl TypeError
     | Some k \<Rightarrow>
         if k < 1 then Inl ValueError
         else (case i of
             None \<Rightarrow> Inl TypeError
           | Some sec \<Rightarrow>
               if sec < 0 then Inl ValueError
               else bind_res (float_of_int sec) (\<lambda>x.
                 bind_res (price_chart_bins v now k x) (\<lambda>bs.
                 bind_res (map_res bin_json bs) (\<lambda>js. Inr (json_data (JList js))))))))"

section \<open>Orders\<close>

fun num_json :: "num \<Rightarrow> json" where
  "num_json (PInt n) = JInt n"
| "num_json (PFloat x) = JFloat x"

definition order_json :: "node \<Rightarrow> limit_order \<Rightarrow> json" where
  "order_json s od = JObj [(''amount'', JInt (lo_amount od)), (''price'', num_json (lo_price od)),
     (''order_id'', JInt (lo_id od)), (''type'', JStr (type_name (lo_type od))),
     (''filledAmount'', JInt (amount_traded od s)), (''open'', JBool (order_open od s)),
     (''canceled'', JBool (order_canceled od s))]"

definition orders_get :: "node \<Rightarrow> json" where
  "orders_get s = json_data (JList (map (order_json s) (dict_values (orders s))))"



definition json_item :: "string \<Rightarrow> json \<Rightarrow> json res" where
  "json_item k j = (case j of JObj d \<Rightarrow> dict_item k d | _ \<Rightarrow> Inl TypeError)"







text \<open>Every exception of the call is answered with 400.\<close>

definition orders_delete :: "int \<Rightarrow> node \<Rightarrow> (json \<times> state_change list) res" where
  "orders_delete order_id s =
     (case on_api_call 0 (CancelLimitOrder (Some order_id)) s of
        Inl _ \<Rightarrow> Inl (HttpAbort 400)
      | Inr (i, chs) \<Rightarrow> Inr (json_data (case i of None \<Rightarrow> JNull | Some n \<Rightarrow> JInt n), chs))"

text \<open>The values of a channel request are passed on unchecked; those of other types are not followed.\<close>

definition channels_post :: "json \<Rightarrow> node \<Rightarrow> (json \<times> state_change list) option res" where
  "channels_post kwargs s =
     bind_res (json_item ''partner_address'' kwargs) (\<lambda>p.
     bind_res (json_item ''token_address'' kwargs) (\<lambda>t.
     bind_res (json_item ''deposit'' kwargs) (\<lambda>d.
     case (p, t, d) of
       (JStr partner, JStr token, JInt deposit) \<Rightarrow>
         bind_res (on_api_call 0 (MakeChannel partner token deposit) s) (\<lambda>(_, chs).
         Inr (Some (json_data (JBool True), chs)))
     | _ \<Rightarrow> Inr None)))"

section \<open>Facts\<close>



lemma orders_delete_eq:
  "orders_delete i s =
     (case dict_get i (orders s) of
        None \<Rightarrow> Inl (HttpAbort 400)
      | Some od \<Rightarrow> if order_open od s then Inr (json_data (JInt i), [CancelLimitOrderStateChange (Some i)])
                   else Inl (HttpAbort 400))"
  by (simp add: orders_delete_def on_api_call_def required_def split: option.split)

section \<open>Properties\<close>



end
