(* ===== verification/Service_Mock.thy ===== *)
theory Service_Mock
  imports Prelude
begin

text \<open>
  \<open>raidex_node/commitment_service/mock.py\<close>: the stand-in for the commitment service that the clients of
  one process share. A client is known by number. Its client class is in \<open>Client_Mock\<close>.
\<close>

record mock_swap =
  ms_maker :: nat
  ms_taker :: "nat option"
  ms_maker_executed :: bool
  ms_taker_executed :: bool

definition new_mock_swap :: "nat \<Rightarrow> mock_swap" where
  "new_mock_swap maker = \<lparr>ms_maker = maker, ms_taker = None, ms_maker_executed = False,
     ms_taker_executed = False\<rparr>"

definition try_take :: "nat \<Rightarrow> mock_swap \<Rightarrow> bool \<times> mock_swap" where
  "try_take c w = (if ms_taker w = None then (True, w\<lparr>ms_taker := Some c\<rparr>) else (False, w))"

definition mock_completed :: "mock_swap \<Rightarrow> bool" where
  "mock_completed w \<longleftrightarrow> ms_maker_executed w \<and> ms_taker_executed w"

definition mock_is_taken :: "mock_swap \<Rightarrow> bool" where
  "mock_is_taken w \<longleftrightarrow> ms_taker w \<noteq> None"

definition report_executed :: "nat \<Rightarrow> mock_swap \<Rightarrow> bool \<times> mock_swap" where
  "report_executed c w =
     (if mock_completed w then (False, w)
      else case ms_taker w of
        None \<Rightarrow> (False, w)
      | Some t \<Rightarrow>
          if c \<noteq> ms_maker w \<and> c \<noteq> t then (False, w)
          else if c = ms_maker w then (True, w\<lparr>ms_maker_executed := True\<rparr>)
          else (True, w\<lparr>ms_taker_executed := True\<rparr>))"

type_synonym mock_service = "(int, mock_swap) dict"

definition mock_make_offer :: "nat \<Rightarrow> int \<Rightarrow> mock_service \<Rightarrow> bool \<times> mock_service" where
  "mock_make_offer c i s = (if dict_mem i s then (False, s) else (True, dict_set i (new_mock_swap c) s))"

text \<open>The swap is an object of the dictionary: what changes it changes the entry.\<close>

definition on_mock_swap ::
  "(mock_swap \<Rightarrow> bool \<times> mock_swap) \<Rightarrow> int \<Rightarrow> mock_service \<Rightarrow> bool \<times> mock_service" where
  "on_mock_swap f i s =
     (case dict_get i s of
        None \<Rightarrow> (False, s)
      | Some w \<Rightarrow> (case f w of (ok, w') \<Rightarrow> (ok, dict_set i w' s)))"

definition try_take_offer :: "nat \<Rightarrow> int \<Rightarrow> mock_service \<Rightarrow> bool \<times> mock_service" where
  "try_take_offer c = on_mock_swap (try_take c)"

definition report_swap_executed :: "nat \<Rightarrow> int \<Rightarrow> mock_service \<Rightarrow> bool \<times> mock_service" where
  "report_swap_executed c = on_mock_swap (report_executed c)"

definition swap_is_completed :: "int \<Rightarrow> mock_service \<Rightarrow> bool" where
  "swap_is_completed i s = (case dict_get i s of None \<Rightarrow> False | Some w \<Rightarrow> if mock_completed w then True else False)"

section \<open>Runs of the service\<close>

datatype mock_call = Make nat int | Take nat int | Report nat int

fun mock_step :: "mock_call \<Rightarrow> mock_service \<Rightarrow> bool \<times> mock_service" where
  "mock_step (Make c i) s = mock_make_offer c i s"
| "mock_step (Take c i) s = try_take_offer c i s"
| "mock_step (Report c i) s = report_swap_executed c i s"

text \<open>The calls that were answered with True, in order, and the state after a run.\<close>

fun mock_run :: "mock_call list \<Rightarrow> mock_service \<Rightarrow> mock_call list \<times> mock_service" where
  "mock_run [] s = ([], s)"
| "mock_run (x # xs) s =
     (case mock_step x s of (ok, t) \<Rightarrow>
      case mock_run xs t of (done_calls, u) \<Rightarrow> (if ok then x # done_calls else done_calls, u))"

section \<open>The history of a swap\<close>

text \<open>What has been accepted for an offer determines the state of its swap.\<close>

definition makes :: "int \<Rightarrow> mock_call list \<Rightarrow> mock_call list" where
  "makes i h = filter (\<lambda>x. \<exists>c. x = Make c i) h"

definition takes :: "int \<Rightarrow> mock_call list \<Rightarrow> mock_call list" where
  "takes i h = filter (\<lambda>x. \<exists>c. x = Take c i) h"

definition explains :: "int \<Rightarrow> mock_call list \<Rightarrow> mock_swap option \<Rightarrow> bool" where
  "explains i h x =
     (case x of
        None \<Rightarrow> makes i h = [] \<and> takes i h = [] \<and> (\<forall>c. Report c i \<notin> set h)
      | Some w \<Rightarrow>
          makes i h = [Make (ms_maker w) i] \<and>
          takes i h = (case ms_taker w of None \<Rightarrow> [] | Some t \<Rightarrow> [Take t i]) \<and>
          (ms_maker_executed w \<longleftrightarrow> Report (ms_maker w) i \<in> set h) \<and>
          (ms_taker_executed w \<longleftrightarrow> (\<exists>t. ms_taker w = Some t \<and> t \<noteq> ms_maker w \<and> Report t i \<in> set h)) \<and>
          (\<forall>c. Report c i \<in> set h \<longrightarrow> ms_taker w \<noteq> None \<and> (c = ms_maker w \<or> ms_taker w = Some c)))"

lemma history_snoc [simp]:
  "makes i (h @ [x]) = makes i h @ (if \<exists>c. x = Make c i then [x] else [])"
  "takes i (h @ [x]) = takes i h @ (if \<exists>c. x = Take c i then [x] else [])"
  by (simp_all add: makes_def takes_def)

lemma explains_other:
  "explains i h x \<Longrightarrow> (\<forall>c. y \<noteq> Make c i \<and> y \<noteq> Take c i \<and> y \<noteq> Report c i) \<Longrightarrow> explains i (h @ [y]) x"
  by (auto simp: explains_def split: option.splits)

lemma explains_make: "explains i h None \<Longrightarrow> explains i (h @ [Make c i]) (Some (new_mock_swap c))"
  by (auto simp: explains_def new_mock_swap_def)

lemma explains_take:
  "explains i h (Some w) \<Longrightarrow> try_take c w = (True, w') \<Longrightarrow> explains i (h @ [Take c i]) (Some w')"
  by (auto simp: explains_def try_take_def split: if_splits option.splits)

lemma explains_report:
  "explains i h (Some w) \<Longrightarrow> report_executed c w = (True, w') \<Longrightarrow> explains i (h @ [Report c i]) (Some w')"
  by (auto simp: explains_def report_executed_def split: if_splits option.splits)

lemma refused_keeps:
  "try_take c w = (False, w') \<Longrightarrow> w' = w" "report_executed c w = (False, w') \<Longrightarrow> w' = w"
  by (auto simp: try_take_def report_executed_def split: if_splits option.splits)

lemma explains_step:
  assumes "\<And>i. explains i h (dict_get i s)" and "mock_step x s = (ok, t)"
  shows "explains i (h @ (if ok then [x] else [])) (dict_get i t)"
proof (cases x)
  case (Make c j)
  then show ?thesis
    using assms(1) [of i] assms(2) explains_make [of i h c] explains_other [of i h "dict_get i s" x]
    by (cases "i = j") (auto simp: mock_make_offer_def dict_mem_def split: if_splits)
next
  case (Take c j)
  then show ?thesis
    using assms(1) [of i] assms(2) explains_take [of i h _ c] explains_other [of i h "dict_get i s" x]

    by (cases "i = j") (auto simp: try_take_offer_def on_mock_swap_def dest: refused_keeps split: option.splits prod.splits)
next
  case (Report c j)
  then show ?thesis
    using assms(1) [of i] assms(2) explains_report [of i h _ c] explains_other [of i h "dict_get i s" x]

    by (cases "i = j") (auto simp: report_swap_executed_def on_mock_swap_def dest: refused_keeps split: option.splits prod.splits)
qed

lemma explains_run:
  "(\<And>i. explains i h (dict_get i s)) \<Longrightarrow> mock_run xs s = (acc, t) \<Longrightarrow> explains i (h @ acc) (dict_get i t)"
proof (induction xs arbitrary: h s acc)
  case (Cons x xs)
  obtain ok u where u: "mock_step x s = (ok, u)" by fastforce
  obtain acc' where r: "mock_run xs u = (acc', t)" "acc = (if ok then x # acc' else acc')"
    using Cons.prems(2) u by (auto split: prod.splits)
  have "explains i ((h @ (if ok then [x] else [])) @ acc') (dict_get i t)"
    using explains_step [OF Cons.prems(1) u] r(1) by (rule Cons.IH)
  then show ?case using r(2) by (cases ok) simp_all
qed simp

text \<open>Over any run of the mock service an offer is made once, taken once at most, and only by the
  first that asks; a swap is complete exactly when its maker and a taker other than the maker have
  both reported the execution, and nobody else's report is ever accepted.\<close>

theorem mock_service_history:
  assumes "mock_run calls [] = (accepted, s)"
  shows "length (makes i accepted) \<le> 1 \<and> length (takes i accepted) \<le> length (makes i accepted) \<and>
    (swap_is_completed i s \<longleftrightarrow> (\<exists>m t. m \<noteq> t \<and> {Make m i, Take t i, Report m i, Report t i} \<subseteq> set accepted)) \<and>
    (\<forall>c. Report c i \<in> set accepted \<longrightarrow> Make c i \<in> set accepted \<or> Take c i \<in> set accepted)"
proof -
  have "explains i ([] @ accepted) (dict_get i s)"
    using assms by (rule explains_run [rotated]) (simp add: explains_def makes_def takes_def)
  then have e: "explains i accepted (dict_get i s)" by simp
  have m: "Make c i \<in> set accepted \<longleftrightarrow> Make c i \<in> set (makes i accepted)"
    "Take c i \<in> set accepted \<longleftrightarrow> Take c i \<in> set (takes i accepted)" for c
    by (simp_all add: makes_def takes_def)
  show ?thesis
  proof (cases "dict_get i s")
    case None
    then show ?thesis using e by (auto simp: explains_def swap_is_completed_def m)
  next
    case (Some w)
    then show ?thesis using e
      by (cases "ms_taker w") (auto simp: explains_def swap_is_completed_def mock_completed_def m)
  qed
qed

theorem mock_service_history_witness:
  "\<exists>accepted s. mock_run [Make 1 7, Take 2 7, Take 3 7, Report 1 7, Report 3 7, Report 2 7] [] = (accepted, s) \<and>
     swap_is_completed 7 s \<and> length (takes 7 accepted) \<le> 1"
proof -
  have r: "mock_run [Make 1 7, Take 2 7, Take 3 7, Report 1 7, Report 3 7, Report 2 7] [] =
      ([Make 1 7, Take 2 7, Report 1 7, Report 2 7],
       [(7, \<lparr>ms_maker = 1, ms_taker = Some 2, ms_maker_executed = True, ms_taker_executed = True\<rparr>)])"
    by code_simp
  from mock_service_history [OF r, of 7] have "length (takes 7 [Make 1 7, Take 2 7, Report 1 7, Report 2 7]) \<le> 1"
    "swap_is_completed 7 [(7, \<lparr>ms_maker = 1, ms_taker = Some 2, ms_maker_executed = True, ms_taker_executed = True\<rparr>)]"
    by auto
  with r show ?thesis by blast
qed

end
