(* ===== verification/Accounts.thy ===== *)
theory Accounts
  imports Wire "HOL-Library.Sublist"
begin

text \<open>
  \<open>account.py\<close>: an account over its key store, locked and unlocked by a password. Decrypting a key
  store, the address of a private key and the hexadecimal codec are packages: fields of a record that
  the definitions take as an argument.
\<close>

record key_tools =
  decode_keyfile :: "(string \<times> json) list \<Rightarrow> string \<Rightarrow> bytes res"
  key_address :: "bytes \<Rightarrow> bytes res"
  key_hex_address :: "bytes \<Rightarrow> string res"
  public_key :: "bytes \<Rightarrow> bytes res"
  decode_hex :: "json \<Rightarrow> bytes res"
  hex_text :: "bytes \<Rightarrow> string"

text \<open>An address read from the key store is bytes; one derived from the key is the text \<open>to_address\<close> gives.\<close>

datatype address_form = Addr_bytes bytes | Addr_text string

fun address_known :: "address_form \<Rightarrow> bool" where
  "address_known (Addr_bytes b) = (b \<noteq> [])"
| "address_known (Addr_text x) = (x \<noteq> [])"

record account =
  ac_keystore :: "(string, json) dict"
  ac_locked :: bool
  ac_path :: "string option"
  ac_privkey :: "bytes option"
  ac_address :: "address_form option"

section \<open>The properties of an account\<close>

definition privkey :: "account \<Rightarrow> bytes option" where
  "privkey a = (if \<not> ac_locked a then ac_privkey a else None)"

text \<open>An unlocked account has a key; asking for the public key of None would raise.\<close>

definition pubkey :: "key_tools \<Rightarrow> account \<Rightarrow> bytes option res" where
  "pubkey K a =
     (if \<not> ac_locked a
      then (case privkey a of None \<Rightarrow> Inl AttributeError
            | Some k \<Rightarrow> bind_res (public_key K k) (\<lambda>p. Inr (Some p)))
      else Inr None)"

text \<open>The address is remembered once it is known; an empty one counts as unknown.\<close>

definition account_address :: "key_tools \<Rightarrow> (account, address_form option) prog" where
  "account_address K a =
     (if (case ac_address a of None \<Rightarrow> False | Some x \<Rightarrow> address_known x) then (Inr (ac_address a), a)
      else case dict_get ''address'' (ac_keystore a) of
        Some x \<Rightarrow> (case decode_hex K x of
            Inl e \<Rightarrow> (Inl e, a)
          | Inr b \<Rightarrow> (Inr (Some (Addr_bytes b)), a\<lparr>ac_address := Some (Addr_bytes b)\<rparr>))
      | None \<Rightarrow>
          if \<not> ac_locked a
          then (case privkey a of
              None \<Rightarrow> (Inl AttributeError, a)
            | Some k \<Rightarrow> (case key_hex_address K k of
                  Inl e \<Rightarrow> (Inl e, a)
                | Inr x \<Rightarrow> (Inr (Some (Addr_text x)), a\<lparr>ac_address := Some (Addr_text x)\<rparr>)))
          else (Inr None, a))"

definition canonical_address :: "key_tools \<Rightarrow> account \<Rightarrow> bytes res" where
  "canonical_address K a = (case privkey a of None \<Rightarrow> Inl AttributeError | Some k \<Rightarrow> key_address K k)"

definition account_uuid :: "account \<Rightarrow> json option" where
  "account_uuid a = dict_get ''id'' (ac_keystore a)"

definition set_uuid :: "json option \<Rightarrow> account \<Rightarrow> account" where
  "set_uuid value a =
     (case value of
        Some x \<Rightarrow> a\<lparr>ac_keystore := dict_set ''id'' x (ac_keystore a)\<rparr>
      | None \<Rightarrow> if dict_mem ''id'' (ac_keystore a)
               then a\<lparr>ac_keystore := dict_del ''id'' (ac_keystore a)\<rparr> else a)"

section \<open>Locking\<close>

definition unlock :: "key_tools \<Rightarrow> string \<Rightarrow> (account, unit) prog" where
  "unlock K password a =
     (if ac_locked a
      then (case decode_keyfile K (ac_keystore a) password of
          Inl e \<Rightarrow> (Inl e, a)
        | Inr k \<Rightarrow> seq (account_address K) (\<lambda>_. return ())
            (a\<lparr>ac_privkey := Some k, ac_locked := False\<rparr>))
      else (Inr (), a))"

definition lock :: "account \<Rightarrow> account" where
  "lock a = a\<lparr>ac_privkey := None, ac_locked := True\<rparr>"

text \<open>The constructor: a missing address is fine, one that cannot be decoded is not.\<close>

definition mk_account ::
  "key_tools \<Rightarrow> (string, json) dict \<Rightarrow> string option \<Rightarrow> string option \<Rightarrow> account res" where
  "mk_account K keystore path password =
     bind_res (case dict_get ''address'' keystore of
         None \<Rightarrow> Inr None
       | Some x \<Rightarrow> (case decode_hex K x of
             Inl e \<Rightarrow> if e = KeyError then Inr None else Inl e | Inr b \<Rightarrow> Inr (Some (Addr_bytes b)))) (\<lambda>addr.
     let a = \<lparr>ac_keystore = keystore, ac_locked = True, ac_path = path, ac_privkey = None,
              ac_address = addr\<rparr> in
     case password of
       None \<Rightarrow> Inr a
     | Some p \<Rightarrow> (case unlock K p a of (Inl e, _) \<Rightarrow> Inl e | (Inr _, a') \<Rightarrow> Inr a'))"

section \<open>Key stores as files\<close>

text \<open>\<open>in\<close> of Python: a key of an object, an element of a list, a part of a text.\<close>

definition json_contains :: "string \<Rightarrow> json \<Rightarrow> bool res" where
  "json_contains k j =
     (case j of
        JObj d \<Rightarrow> Inr (dict_mem k d)
      | JList xs \<Rightarrow> Inr (JStr k \<in> set xs)
      | JStr t \<Rightarrow> Inr (sublist k t)
      | _ \<Rightarrow> Inl TypeError)"

fun contains_all :: "string list \<Rightarrow> json \<Rightarrow> bool res" where
  "contains_all [] j = Inr True"
| "contains_all (k # ks) j = bind_res (json_contains k j) (\<lambda>c. if c then contains_all ks j else Inr False)"

definition check_keystore_json :: "json \<Rightarrow> bool res" where
  "check_keystore_json j =
     bind_res (json_contains ''crypto'' j) (\<lambda>c.
     bind_res (if c then Inr True else json_contains ''Crypto'' j) (\<lambda>c.
     if \<not> c then Inr False
     else bind_res (json_contains ''version'' j) (\<lambda>v.
       if \<not> v then Inr False
       else case j of
         JObj d \<Rightarrow>
           bind_res (dict_item ''version'' d) (\<lambda>version.
           if \<not> json_is_int version 3 then Inr False
           else contains_all [''cipher'', ''ciphertext'', ''kdf'', ''mac'']
             (case dict_get ''crypto'' d of
                Some x \<Rightarrow> x
              | None \<Rightarrow> (case dict_get ''Crypto'' d of Some x \<Rightarrow> x | None \<Rightarrow> JNull)))
       | _ \<Rightarrow> Inl TypeError)))"

definition load_account ::
  "key_tools \<Rightarrow> wire \<Rightarrow> string \<Rightarrow> string option \<Rightarrow> string option \<Rightarrow> account res" where
  "load_account K W file path password =
     bind_res (json_loads W file) (\<lambda>j.
     bind_res (check_keystore_json j) (\<lambda>ok.
     if \<not> ok then Inl ValueError
     else case j of JObj d \<Rightarrow> mk_account K d path password | _ \<Rightarrow> Inl TypeError))"

text \<open>\<open>encode_hex\<close> of a text is the hexadecimal form of its characters.\<close>

fun address_hex :: "key_tools \<Rightarrow> address_form \<Rightarrow> string" where
  "address_hex K (Addr_bytes b) = hex_text K b"
| "address_hex K (Addr_text x) = hex_text K (map of_char x)"

definition dump_account ::
  "key_tools \<Rightarrow> wire \<Rightarrow> bool \<Rightarrow> bool \<Rightarrow> (account, string) prog" where
  "dump_account K W include_address include_id =
     seq (get_state (\<lambda>a. dict_item ''crypto'' (ac_keystore a))) (\<lambda>c.
     seq (lift_res c) (\<lambda>crypto.
     seq (get_state (\<lambda>a. dict_item ''version'' (ac_keystore a))) (\<lambda>v.
     seq (lift_res v) (\<lambda>version.
     seq (if include_address then account_address K else return None) (\<lambda>addr.
     seq (get_state account_uuid) (\<lambda>uuid.
     return (json_dumps W (JObj ([(''crypto'', crypto), (''version'', version)] @
       (case addr of None \<Rightarrow> [] | Some b \<Rightarrow> [(''address'', JStr (address_hex K b))]) @
       (if include_id then (case uuid of None \<Rightarrow> [] | Some x \<Rightarrow> if x = JNull then [] else [(''id'', x)])
        else []))))))))))"

section \<open>Facts\<close>

text \<open>A locked account has no key, an unlocked one has one.\<close>

definition account_ok :: "account \<Rightarrow> bool" where
  "account_ok a \<longleftrightarrow> (ac_locked a \<longleftrightarrow> ac_privkey a = None)"

lemma account_address_keeps [simp]:
  "ac_keystore (snd (account_address K a)) = ac_keystore a"
  "ac_locked (snd (account_address K a)) = ac_locked a"
  "ac_privkey (snd (account_address K a)) = ac_privkey a"
  by (auto simp: account_address_def split: option.splits sum.splits)

lemma address_remembered:
  "account_address K a = (Inr (Some x), a') \<Longrightarrow> address_known x \<Longrightarrow>
    account_address K (lock a') = (Inr (Some x), lock a')"
  by (auto simp: account_address_def lock_def split: if_splits option.splits sum.splits)

lemma account_ok_unlock: "account_ok a \<Longrightarrow> account_ok (snd (unlock K p a))"
  by (simp add: unlock_def seq_unit account_ok_def split: sum.split)

lemma account_ok_mk:
  assumes "mk_account K keystore path password = Inr a" shows "account_ok a"
proof -
  define B where "B = (\<lambda>addr. \<lparr>ac_keystore = keystore, ac_locked = True, ac_path = path,
    ac_privkey = None, ac_address = addr\<rparr>)"
  obtain addr where a: "(case password of None \<Rightarrow> Inr (B addr)
      | Some p \<Rightarrow> (case unlock K p (B addr) of (Inl e, _) \<Rightarrow> Inl e | (Inr _, a') \<Rightarrow> Inr a')) = Inr a"
    using assms unfolding mk_account_def bind_res_Inr_iff Let_def B_def by blast
  have ok: "account_ok (B addr)" by (simp add: B_def account_ok_def)
  show ?thesis
  proof (cases password)
    case None
    then show ?thesis using a ok by simp
  next
    case (Some p)
    obtain r a' where u: "unlock K p (B addr) = (r, a')" by fastforce
    then have "a' = a" using a Some by (cases r) simp_all
    then show ?thesis using account_ok_unlock [OF ok, of K p] u by simp
  qed
qed

text \<open>Locking hides the key and keeps the address: an account that was unlocked knows the same address
  after it is locked again; a wrong password leaves a locked account as it is; a password is not even
  looked at when the account is open.\<close>

theorem lock_cycle:
  assumes "account_ok a" and "unlock K p a = (Inr (), a')"
    and "account_address K a' = (Inr (Some b), a'')" and "address_known b"
  shows "account_ok a' \<and> (\<exists>k. privkey a' = Some k) \<and> privkey (lock a'') = None \<and>
    account_ok (lock a'') \<and> fst (account_address K (lock a'')) = Inr (Some b) \<and>
    unlock K other a' = (Inr (), a') \<and>
    (\<forall>q e. ac_locked a \<longrightarrow> decode_keyfile K (ac_keystore a) q = Inl e \<longrightarrow> unlock K q a = (Inl e, a))"
proof -
  have ok: "account_ok a'" using account_ok_unlock [OF assms(1), of K p] assms(2) by simp
  have "\<not> ac_locked (snd (unlock K p a))" if "fst (unlock K p a) = Inr ()"
    using that by (auto simp: unlock_def seq_unit split: sum.splits if_splits)
  then have open': "\<not> ac_locked a'" using assms(2) by simp
  then have "\<exists>k. privkey a' = Some k" using ok by (auto simp: privkey_def account_ok_def)
  moreover have "fst (account_address K (lock a'')) = Inr (Some b)"
    using address_remembered [OF assms(3,4)] by simp
  ultimately show ?thesis
    using ok open' by (simp add: privkey_def lock_def account_ok_def unlock_def)
qed

definition demo_keys :: key_tools where
  "demo_keys = \<lparr>decode_keyfile = (\<lambda>_ p. if p = ''pw'' then Inr [7] else Inl ValueError),
     key_address = (\<lambda>k. Inr (replicate 20 1)),
     key_hex_address = (\<lambda>k. Inr ''0x01''), public_key = (\<lambda>k. Inr k),
     decode_hex = (\<lambda>_. Inl ValueError), hex_text = (\<lambda>_. ''00'')\<rparr>"

definition demo_account :: account where
  "demo_account = \<lparr>ac_keystore = [(''Crypto'', JObj []), (''version'', JInt 3)], ac_locked = True,
     ac_path = None, ac_privkey = None, ac_address = None\<rparr>"

theorem lock_cycle_witness:
  "\<exists>a'. unlock demo_keys ''pw'' demo_account = (Inr (), a') \<and> privkey a' = Some [7] \<and>
     fst (account_address demo_keys (lock a')) = Inr (Some (Addr_text ''0x01''))"
proof -
  define a' where "a' = demo_account\<lparr>ac_privkey := Some [7], ac_locked := False,
    ac_address := Some (Addr_text ''0x01'')\<rparr>"
  have u: "unlock demo_keys ''pw'' demo_account = (Inr (), a')"
    by (simp add: unlock_def demo_account_def demo_keys_def account_address_def privkey_def
        dict_get_def seq_unit a'_def)
  have ad: "account_address demo_keys a' = (Inr (Some (Addr_text ''0x01'')), a')"
    by (simp add: account_address_def a'_def)
  have "account_ok demo_account" by (simp add: account_ok_def demo_account_def)
  from lock_cycle [OF this u ad] u show ?thesis by (auto simp: privkey_def a'_def)
qed

text \<open>
  The check accepts key stores that spell the entry \<open>Crypto\<close>; writing such an account back raises.
\<close>

theorem dump_capital_crypto:
  assumes "dict_get ''crypto'' (ac_keystore a) = None"
  shows "dump_account K W inc_address inc_id a = (Inl KeyError, a)"
  using assms by (simp add: dump_account_def prog_simps dict_item_def)

lemma check_capital_crypto:
  "check_keystore_json (JObj [(''Crypto'', JObj [(''cipher'', JNull), (''ciphertext'', JNull), (''kdf'', JNull),
     (''mac'', JNull)]), (''version'', JInt 3)]) = Inr True"
  by code_simp

end
