(* ===== verification/Trader_Client.thy ===== *)
theory Trader_Client
  imports Clients Trader_Mock
begin

text \<open>
  \<open>TraderClient\<close> of \<open>trader/client.py\<close>: the client of the payment node that a node and the commitment
  service use. The answer of the payment node to a request is an argument (a status code, or the
  exception of the request), as are the encoders of addresses. \<open>listen_for_events\<close> is the poll
  of the payment log from which the commitment service learns of deposits.
\<close>

section \<open>Payments\<close>

record trader_client =
  tc_market :: "token_pair option"
  commitment_balance :: int
  tc_running :: bool

definition new_trader_client :: "token_pair option \<Rightarrow> int \<Rightarrow> trader_client" where
  "new_trader_client market amount =
     \<lparr>tc_market = market, commitment_balance = amount, tc_running = False\<rparr>"

definition trader_client_start :: "trader_client \<Rightarrow> trader_client" where
  "trader_client_start c = (if \<not> tc_running c then c\<lparr>tc_running := True\<rparr> else c)"

type_synonym payment_node = "payment_request \<Rightarrow> int res"

text \<open>\<open>transfer\<close>: the status is the answer; the balance pays only what the payment node accepted.\<close>

definition http_transfer ::
  "encoders \<Rightarrow> payment_node \<Rightarrow> string \<Rightarrow> bytes \<Rightarrow> int \<Rightarrow> int \<Rightarrow> bytes option \<Rightarrow> bytes option \<Rightarrow>
     (trader_client, int) prog" where
  "http_transfer E net token target amount identifier secret secret_hash =
     seq (lift_res (transfer_request E token target amount identifier secret secret_hash)) (\<lambda>req.
     seq (lift_res (net req)) (\<lambda>status.
     seq (modify (\<lambda>c. c\<lparr>commitment_balance := after_transfer status amount (commitment_balance c)\<rparr>)) (\<lambda>_.
     return status)))"

definition market_token :: "encoders \<Rightarrow> (token_pair \<Rightarrow> bytes) \<Rightarrow> (trader_client, string) prog" where
  "market_token E side =
     seq (get_state tc_market) (\<lambda>m.
     case m of None \<Rightarrow> throw AttributeError | Some p \<Rightarrow> return (encode_address E (side p)))"

definition http_expect_exchange ::
  "encoders \<Rightarrow> payment_node \<Rightarrow> offer_type \<Rightarrow> int \<Rightarrow> int \<Rightarrow> bytes \<Rightarrow> int \<Rightarrow> bytes option \<Rightarrow>
     bytes option \<Rightarrow> (trader_client, int) prog" where
  "http_expect_exchange E net t base_amount quote_amount target identifier secret secret_hash =
     (if t = BUY
      then seq (market_token E tp_base) (\<lambda>token.
        http_transfer E net token target base_amount identifier secret secret_hash)
      else seq (market_token E tp_quote) (\<lambda>token.
        http_transfer E net token target quote_amount identifier secret secret_hash))"

definition http_exchange ::
  "encoders \<Rightarrow> payment_node \<Rightarrow> offer_type \<Rightarrow> int \<Rightarrow> int \<Rightarrow> bytes \<Rightarrow> int \<Rightarrow> bytes option \<Rightarrow>
     bytes option \<Rightarrow> (trader_client, int) prog" where
  "http_exchange E net t base_amount quote_amount target identifier secret secret_hash =
     (if t = BUY
      then seq (market_token E tp_quote) (\<lambda>token.
        http_transfer E net token target quote_amount identifier secret secret_hash)
      else seq (market_token E tp_base) (\<lambda>token.
        http_transfer E net token target base_amount identifier secret secret_hash))"

definition http_transfer_async ::
  "encoders \<Rightarrow> payment_node \<Rightarrow> string \<Rightarrow> bytes \<Rightarrow> int \<Rightarrow> int \<Rightarrow> (trader_client, int) prog" where
  "http_transfer_async E net token target amount identifier =
     http_transfer E net token target amount identifier None None"

text \<open>Every outcome of a transfer: an exception before or in the request leaves the balance alone.\<close>

lemma http_transfer_cases:
  "http_transfer E net token target amount identifier secret secret_hash c =
     (case transfer_request E token target amount identifier secret secret_hash of
        Inl e \<Rightarrow> (Inl e, c)
      | Inr req \<Rightarrow> (case net req of
          Inl e \<Rightarrow> (Inl e, c)
        | Inr status \<Rightarrow> (Inr status,
            if status = 200 then c\<lparr>commitment_balance := commitment_balance c - amount\<rparr> else c)))"
  by (simp add: http_transfer_def prog_simps after_transfer_def split: sum.split)

section \<open>The poll of the payment log\<close>

record payment_event =
  pe_initiator :: string
  pe_amount :: int
  pe_identifier :: int

fun payment_id :: "payment_event \<Rightarrow> string \<times> int" where
  "payment_id ev = (pe_initiator ev, pe_identifier ev)"

definition encode_payment :: "raw_event \<Rightarrow> payment_event option res" where
  "encode_payment e =
     bind_res (required (raw_type e)) (\<lambda>ty.
     if ty = ''EventPaymentReceivedSuccess'' then
       bind_res (required (raw_initiator e)) (\<lambda>i.
       bind_res (required (raw_amount e)) (\<lambda>a.
       bind_res (required (raw_identifier e)) (\<lambda>n.
         Inr (Some \<lparr>pe_initiator = i, pe_amount = a, pe_identifier = n\<rparr>))))
     else Inr None)"

text \<open>\<open>TransferReceivedListener\<close> over the events of this client: they carry the address as text.\<close>

definition payment_receipt ::
  "(string \<Rightarrow> bytes res) \<Rightarrow> string option \<Rightarrow> datetime \<Rightarrow> payment_event \<Rightarrow> transfer_receipt option res" where
  "payment_receipt binary_address initiator now ev =
     (if (case initiator of None \<Rightarrow> False | Some a \<Rightarrow> pe_initiator ev \<noteq> a) then Inr None
      else bind_res (time_now now) (\<lambda>ts.
        bind_res (binary_address (pe_initiator ev)) (\<lambda>who.
        Inr (Some \<lparr>tr_initiator = who, tr_amount = pe_amount ev, tr_identifier = pe_identifier ev,
                   tr_timestamp = ts\<rparr>))))"

record payment_poll =
  pp_events :: "(string \<times> int, transfer_receipt option) dict"
  pp_queue :: "transfer_receipt list"

definition payment_poll_start :: payment_poll where
  "payment_poll_start = \<lparr>pp_events = [], pp_queue = []\<rparr>"

text \<open>
  One entry of the log, with the clock reading when it is handled. Without a transform the call
  \<open>transform(event)\<close> fails.
\<close>

definition poll_payment ::
  "(datetime \<Rightarrow> payment_event \<Rightarrow> transfer_receipt option res) option \<Rightarrow> datetime \<times> raw_event \<Rightarrow>
     (payment_poll, unit) prog" where
  "poll_payment transform_func x =
     seq (lift_res (encode_payment (snd x))) (\<lambda>ev.
     case ev of
       None \<Rightarrow> return ()
     | Some p \<Rightarrow>
         seq (get_state (\<lambda>s. dict_mem (payment_id p) (pp_events s))) (\<lambda>seen.
         if seen then return ()
         else seq (lift_res (case transform_func of None \<Rightarrow> Inl TypeError | Some f \<Rightarrow> f (fst x) p)) (\<lambda>r.
           seq (modify (\<lambda>s. s\<lparr>pp_events := dict_set (payment_id p) r (pp_events s)\<rparr>)) (\<lambda>_.
           case r of
             None \<Rightarrow> return ()
           | Some rc \<Rightarrow> modify (\<lambda>s. s\<lparr>pp_queue := pp_queue s @ [rc]\<rparr>)))))"

definition poll_payments ::
  "(datetime \<Rightarrow> payment_event \<Rightarrow> transfer_receipt option res) option \<Rightarrow> (datetime \<times> raw_event) list \<Rightarrow>
     (payment_poll, unit) prog" where
  "poll_payments transform_func raw_data = for_each (poll_payment transform_func) raw_data"

section \<open>What the commitment service hears\<close>

text \<open>The events of a log, and the first of each initiator and identifier.\<close>

fun logged :: "(datetime \<times> raw_event) list \<Rightarrow> payment_event list" where
  "logged [] = []"
| "logged (x # xs) = (case encode_payment (snd x) of Inr (Some p) \<Rightarrow> p # logged xs | _ \<Rightarrow> logged xs)"

fun firsts :: "payment_event list \<Rightarrow> payment_event list" where
  "firsts [] = []"
| "firsts (p # ps) = p # filter (\<lambda>q. payment_id q \<noteq> payment_id p) (firsts ps)"

text \<open>What a receipt says of the payment.\<close>

definition receipt_of :: "(string \<Rightarrow> bytes res) \<Rightarrow> payment_event \<Rightarrow> bytes res \<times> int \<times> int" where
  "receipt_of binary_address p = (binary_address (pe_initiator p), pe_amount p, pe_identifier p)"

definition receipt_data :: "transfer_receipt \<Rightarrow> bytes res \<times> int \<times> int" where
  "receipt_data rc = (Inr (tr_initiator rc), tr_amount rc, tr_identifier rc)"

abbreviation deposit_transform ::
  "(string \<Rightarrow> bytes res) \<Rightarrow> (datetime \<Rightarrow> payment_event \<Rightarrow> transfer_receipt option res) option" where
  "deposit_transform addr \<equiv> Some (payment_receipt addr None)"

lemma poll_payment_ok:
  assumes "poll_payment (deposit_transform addr) x s = (Inr (), t)"
  shows "case encode_payment (snd x) of
      Inr (Some p) \<Rightarrow>
        if dict_mem (payment_id p) (pp_events s) then t = s
        else \<exists>rc. pp_queue t = pp_queue s @ [rc] \<and> receipt_data rc = receipt_of addr p \<and>
          pp_events t = dict_set (payment_id p) (Some rc) (pp_events s)
    | Inr None \<Rightarrow> t = s
    | Inl _ \<Rightarrow> False"
proof (cases "encode_payment (snd x)")
  case (Inr e)
  show ?thesis
  proof (cases e)
    case None
    then show ?thesis using assms Inr by (simp add: poll_payment_def prog_simps)
  next
    case (Some p)
    show ?thesis
    proof (cases "dict_mem (payment_id p) (pp_events s)")
      case True
      then show ?thesis using assms Inr Some by (simp add: poll_payment_def prog_simps)
    next
      case False
      then show ?thesis using assms Inr Some
        by (auto simp: poll_payment_def prog_simps payment_receipt_def receipt_data_def receipt_of_def
            bind_res_Inr_iff simp del: payment_id.simps split: sum.splits)
    qed
  qed
qed (use assms in \<open>simp add: poll_payment_def prog_simps\<close>)

lemma poll_payments_ok:
  assumes "poll_payments (deposit_transform addr) xs s = (Inr (), t)"
  shows "map receipt_data (pp_queue t) = map receipt_data (pp_queue s) @
      map (receipt_of addr) (filter (\<lambda>p. \<not> dict_mem (payment_id p) (pp_events s)) (firsts (logged xs)))"
  using assms
proof (induction xs arbitrary: s)
  case Nil
  then show ?case by (simp add: poll_payments_def return_def)
next
  case (Cons x xs)
  obtain u where u: "poll_payment (deposit_transform addr) x s = (Inr (), u)"
      "poll_payments (deposit_transform addr) xs u = (Inr (), t)"
    using Cons.prems by (auto simp: poll_payments_def seq_def split: prod.splits sum.splits)
  note step = poll_payment_ok [OF u(1)] and IH = Cons.IH [OF u(2)]
  show ?case
  proof (cases "encode_payment (snd x)")
    case (Inl e)
    then show ?thesis using step by simp
  next
    case (Inr e)
    show ?thesis
    proof (cases e)
      case None
      then show ?thesis using step IH Inr by simp
    next
      case (Some p)
      let ?k = "payment_id p"
      show ?thesis
      proof (cases "dict_mem ?k (pp_events s)")
        case True
        then have "filter (\<lambda>q. payment_id q \<noteq> ?k \<and> \<not> dict_mem (payment_id q) (pp_events s)) ps =
            filter (\<lambda>q. \<not> dict_mem (payment_id q) (pp_events s)) ps" for ps
          by (intro filter_cong) auto
        then show ?thesis using step IH Inr Some True by (simp del: payment_id.simps)
      next
        case False
        then obtain rc where rc: "pp_queue u = pp_queue s @ [rc]" "receipt_data rc = receipt_of addr p"
            "pp_events u = dict_set ?k (Some rc) (pp_events s)"
          using step Inr Some by (auto simp del: payment_id.simps)
        have "(\<not> dict_mem (payment_id q) (pp_events u)) \<longleftrightarrow>
            payment_id q \<noteq> ?k \<and> \<not> dict_mem (payment_id q) (pp_events s)" for q
          by (simp add: rc(3) dict_mem_def del: payment_id.simps)
        then show ?thesis using IH Inr Some False rc(1,2) by (simp del: payment_id.simps)
      qed
    qed
  qed
qed

lemma for_each_concat: "for_each (for_each f) xss = for_each f (concat xss)"
proof (rule ext)
  show "for_each (for_each f) xss s = for_each f (concat xss) s" for s
    by (induction xss arbitrary: s) (auto simp: for_each_append seq_def split: prod.split sum.split)
qed

text \<open>C29: what the commitment service hears of deposits: however often the log of the payment node is read,
  it gets one receipt for each initiator and identifier, with the amount of the first such payment,
  in the order of the log; any later payment of the same initiator under the same identifier is
  taken for one it has already heard of, and is neither credited nor handed to a swap for
  refunding.\<close>

theorem deposits_heard_once:
  assumes "for_each (poll_payments (deposit_transform addr)) reads payment_poll_start = (Inr (), s)"
  shows "map receipt_data (pp_queue s) = map (receipt_of addr) (firsts (logged (concat reads)))"
proof -
  have "poll_payments (deposit_transform addr) = for_each (poll_payment (deposit_transform addr))"
    by (simp add: poll_payments_def fun_eq_iff)
  then have "poll_payments (deposit_transform addr) (concat reads) payment_poll_start = (Inr (), s)"
    using assms by (simp add: for_each_concat)
  from poll_payments_ok [OF this] show ?thesis
    by (simp add: payment_poll_start_def dict_mem_def dict_get_def)
qed

definition demo_payment :: "int \<Rightarrow> raw_event" where
  "demo_payment amount = \<lparr>raw_type = Some ''EventPaymentReceivedSuccess'', raw_initiator = Some ''0x01'',
     raw_amount = Some amount, raw_identifier = Some 7\<rparr>"

theorem deposits_heard_once_witness:
  "\<exists>s. for_each (poll_payments (deposit_transform (\<lambda>_. Inr [1])))
      [[(0, demo_payment 5)], [(0, demo_payment 5), (0, demo_payment 9)]] payment_poll_start = (Inr (), s) \<and>
    map receipt_data (pp_queue s) = [(Inr [1], 5, 7)]"
proof -
  have t: "time_now 0 = Inr 0" by (simp add: time_now_def dt_to_ms_whole [of 0, simplified])
  let ?s = "\<lparr>pp_events = [((''0x01'', 7), Some \<lparr>tr_initiator = [1], tr_amount = 5, tr_identifier = 7,
       tr_timestamp = 0\<rparr>)], pp_queue = [\<lparr>tr_initiator = [1], tr_amount = 5, tr_identifier = 7,
       tr_timestamp = 0\<rparr>]\<rparr>"
  have run: "for_each (poll_payments (deposit_transform (\<lambda>_. Inr [1])))
      [[(0, demo_payment 5)], [(0, demo_payment 5), (0, demo_payment 9)]] payment_poll_start = (Inr (), ?s)"
    by (simp add: poll_payments_def poll_payment_def encode_payment_def demo_payment_def required_def
        payment_receipt_def t payment_poll_start_def prog_simps dict_mem_def dict_get_def dict_set_def)
  show ?thesis
    using deposits_heard_once [OF run] run
    by (intro exI [of _ ?s]) (simp add: encode_payment_def demo_payment_def required_def receipt_of_def)
qed

end
