(* ===== verification/Setup.thy ===== *)
theory Setup
  imports Accounts Trader_Client
begin

text \<open>
  How the parts of a program are put together: signers (\<open>signing.py\<close>), the application
  (\<open>App.build_default_from_config\<close> and \<open>build_from_mocks\<close> of \<open>app.py\<close>), the service
  (\<open>CommitmentService.build_service\<close>), addresses (\<open>utils/address.py\<close>), markets and secrets
  (\<open>utils/__init__.py\<close>). Random bytes are arguments.
\<close>

section \<open>Signers\<close>

text \<open>A signer keeps its private key and the public key of it.\<close>

record signer =
  sg_private_key :: bytes
  sg_public_key :: bytes

text \<open>An account that is locked has no key to give; the key class rejects it.\<close>

definition mk_signer :: "key_tools \<Rightarrow> bytes option \<Rightarrow> signer res" where
  "mk_signer K private_key =
     (case private_key of
        None \<Rightarrow> Inl PlainException
      | Some k \<Rightarrow> bind_res (public_key K k) (\<lambda>p. Inr \<lparr>sg_private_key = k, sg_public_key = p\<rparr>))"

definition signer_random :: "crypto \<Rightarrow> key_tools \<Rightarrow> bytes \<Rightarrow> signer res" where
  "signer_random C K drawn = mk_signer K (Some (keccak C drawn))"

definition signer_from_seed :: "crypto \<Rightarrow> key_tools \<Rightarrow> string \<Rightarrow> signer res" where
  "signer_from_seed C K seed = mk_signer K (Some (keccak C (map of_char seed)))"

definition signer_from_account :: "key_tools \<Rightarrow> account \<Rightarrow> signer res" where
  "signer_from_account K a = mk_signer K (privkey a)"

text \<open>The address of a public key, as bytes; the checksum form is its encoding.\<close>

definition signer_address :: "key_tools \<Rightarrow> signer \<Rightarrow> bytes res" where
  "signer_address K sg = key_address K (sg_private_key sg)"

definition signer_checksum_address :: "key_tools \<Rightarrow> encoders \<Rightarrow> signer \<Rightarrow> string res" where
  "signer_checksum_address K E sg = bind_res (signer_address K sg) (\<lambda>a. Inr (encode_address E a))"

definition signer_sign :: "crypto \<Rightarrow> signer \<Rightarrow> msg_obj \<Rightarrow> msg_obj res" where
  "signer_sign C sg ob = sign C (sg_private_key sg) ob"

section \<open>Addresses\<close>

text \<open>The checks and decoders of the address package.\<close>

record address_tools =
  is_checksum_address :: "string \<Rightarrow> bool"
  decode_hex_text :: "string \<Rightarrow> bytes res"

definition binary_address :: "address_tools \<Rightarrow> address_form \<Rightarrow> bytes res" where
  "binary_address A x =
     (case x of
        Addr_bytes b \<Rightarrow> if is_binary_address b then Inr b else Inl TypeError
      | Addr_text t \<Rightarrow> if is_checksum_address A t then decode_hex_text A t else Inl TypeError)"

definition decode_topic :: "address_tools \<Rightarrow> address_form \<Rightarrow> address_form res" where
  "decode_topic A x =
     (case x of
        Addr_bytes b \<Rightarrow> Inr x
      | Addr_text t \<Rightarrow>
          if is_checksum_address A t then bind_res (decode_hex_text A t) (\<lambda>b. Inr (Addr_bytes b))
          else Inr x)"

section \<open>Applications\<close>

text \<open>The first line of a password file; an empty file has none.\<close>

definition line_breaks :: "nat set" where
  "line_breaks = {10, 11, 12, 13, 28, 29, 30, 133}"

definition first_line :: "string \<Rightarrow> string res" where
  "first_line content_text =
     (if content_text = [] then Inl IndexError
      else Inr (takeWhile (\<lambda>c. of_char c \<notin> line_breaks) content_text))"

definition choose_signer ::
  "crypto \<Rightarrow> key_tools \<Rightarrow> wire \<Rightarrow> string option \<Rightarrow> string option \<Rightarrow> string option \<Rightarrow> bytes \<Rightarrow> signer res" where
  "choose_signer C K W keyfile pw_file privkey_seed drawn =
     (case (keyfile, pw_file) of
        (Some f, Some pw) \<Rightarrow>
          bind_res (first_line pw) (\<lambda>p.
          bind_res (load_account K W f None (Some p)) (signer_from_account K))
      | _ \<Rightarrow> (case privkey_seed of
                None \<Rightarrow> signer_random C K drawn
              | Some seed \<Rightarrow> signer_from_seed C K seed))"

record app =
  app_signer :: signer
  app_market :: token_pair
  app_trader :: trader_client
  app_broker_address :: string
  app_cs_client :: cs_client
  app_node_address :: bytes
  app_offer_lifetime :: int

definition build_default_from_config ::
  "crypto \<Rightarrow> key_tools \<Rightarrow> wire \<Rightarrow> encoders \<Rightarrow> address_tools \<Rightarrow> bytes \<Rightarrow> string option \<Rightarrow> string option \<Rightarrow>
     string option \<Rightarrow> address_form \<Rightarrow> address_form \<Rightarrow> address_form \<Rightarrow> int option \<Rightarrow> app res" where
  "build_default_from_config C K W E A drawn keyfile pw_file privkey_seed cs_address base_token_addr
     quote_token_addr offer_lifetime =
     bind_res (choose_signer C K W keyfile pw_file privkey_seed drawn) (\<lambda>sg.
     bind_res (binary_address A base_token_addr) (\<lambda>base.
     bind_res (binary_address A quote_token_addr) (\<lambda>quot.
     bind_res (mk_token_pair base 3 quot 18) (\<lambda>market.
     bind_res (signer_checksum_address K E sg) (\<lambda>checksum.
     bind_res (binary_address A cs_address) (\<lambda>service.
     bind_res (signer_address K sg) (\<lambda>address.
       Inr \<lparr>app_signer = sg, app_market = market, app_trader = new_trader_client (Some market) 10,
            app_broker_address = checksum, app_cs_client = mk_cs_client service,
            app_node_address = address,
            app_offer_lifetime = (case offer_lifetime of None \<Rightarrow> 30 | Some t \<Rightarrow> t)\<rparr>)))))))"

text \<open>
  \<open>build_from_mocks\<close> gives the token of the quotes as the second argument of \<open>TokenPair\<close>, the
  decimals of the base token; the token of the quotes stays the empty default.
\<close>

definition build_from_mocks ::
  "crypto \<Rightarrow> key_tools \<Rightarrow> wire \<Rightarrow> address_tools \<Rightarrow> bytes \<Rightarrow> string option \<Rightarrow> string option \<Rightarrow>
     string option \<Rightarrow> address_form \<Rightarrow> bytes \<Rightarrow> int \<Rightarrow> int option \<Rightarrow> app res" where
  "build_from_mocks C K W A drawn keyfile pw_file privkey_seed cs_address base_token quote_as_decimal
     offer_lifetime =
     bind_res (choose_signer C K W keyfile pw_file privkey_seed drawn) (\<lambda>sg.
     bind_res (mk_token_pair base_token quote_as_decimal [] 18) (\<lambda>market.
     bind_res (signer_address K sg) (\<lambda>address.
     bind_res (binary_address A cs_address) (\<lambda>service.
       Inr \<lparr>app_signer = sg, app_market = market, app_trader = new_trader_client None 10,
            app_broker_address = [], app_cs_client = mk_cs_client service,
            app_node_address = address,
            app_offer_lifetime = (case offer_lifetime of None \<Rightarrow> 30 | Some t \<Rightarrow> t)\<rparr>))))"

text \<open>The parts of a commitment service.\<close>

record service_parts =
  sp_signer :: signer
  sp_address :: bytes
  sp_trader :: trader_client

definition build_service ::
  "key_tools \<Rightarrow> wire \<Rightarrow> string \<Rightarrow> string option \<Rightarrow> service_parts res" where
  "build_service K W keyfile pw_file =
     (case pw_file of
        None \<Rightarrow> Inl AttributeError
      | Some pw \<Rightarrow>
          bind_res (if pw \<noteq> [] then first_line pw else Inr pw) (\<lambda>p.
          bind_res (load_account K W keyfile None (Some p)) (\<lambda>acc.
          bind_res (signer_from_account K acc) (\<lambda>sg.
          bind_res (signer_address K sg) (\<lambda>address.
            Inr \<lparr>sp_signer = sg, sp_address = address,
                 sp_trader = new_trader_client None commitment_amount\<rparr>)))))"

section \<open>Markets and secrets\<close>

definition get_market_from_asset_pair :: "(bytes \<Rightarrow> int) \<Rightarrow> bytes \<times> bytes \<Rightarrow> (bytes \<times> bytes) res" where
  "get_market_from_asset_pair big_endian_to_int asset_pair =
     (let a = big_endian_to_int (fst asset_pair); b = big_endian_to_int (snd asset_pair) in
      if a < b then Inr asset_pair
      else if a = b then Inl UntradableAssetPair
      else Inr (snd asset_pair, fst asset_pair))"

definition empty_secret :: bytes where
  "empty_secret = replicate 32 0"

text \<open>The loop draws until it gets a secret that is not empty; the draws are an argument.\<close>

partial_function (option) random_secret_from :: "(nat \<Rightarrow> bytes) \<Rightarrow> nat \<Rightarrow> bytes option" where
  [code]: "random_secret_from urandom n =
     (if urandom n \<noteq> empty_secret then Some (urandom n) else random_secret_from urandom (Suc n))"

definition random_secret :: "(nat \<Rightarrow> bytes) \<Rightarrow> bytes option" where
  "random_secret urandom = random_secret_from urandom 0"

section \<open>One identity\<close>

lemma mk_signer_address:
  "mk_signer K x = Inr sg \<Longrightarrow> x = Some (sg_private_key sg)"
  by (cases x) (auto simp: mk_signer_def bind_res_Inr_iff)

lemma signed_by:
  assumes "signer_address K sg = Inr addr" and "signer_sign C sg ob = Inr ob'"
    and "\<And>k h a. key_address K k = Inr a \<Longrightarrow> recover_address C (sign_msg C k h) h = Inr a"
    and "\<And>k h. sign_msg C k h \<noteq> []"
  shows "sender C (content ob') = Inr addr"
  using sign_sender [of C "sg_private_key sg" ob ob' addr] assms
  by (simp add: signer_address_def signer_sign_def)

text \<open>C19: a node is one identity: for a signature scheme that recovers the address of the key that
  signed, every signed message a default application sends, whatever the event, names the address
  of the node as its sender, and every message its service signs names the address of the service.\<close>

theorem one_identity:
  assumes "build_default_from_config C K W E A drawn keyfile pw_file seed cs base quot lifetime = Inr p"
    and "build_service K W service_file service_pw = Inr sp"
    and "\<And>k h a. key_address K k = Inr a \<Longrightarrow> recover_address C (sign_msg C k h) h = Inr a"
    and "\<And>k h. sign_msg C k h \<noteq> []"
  shows "(transport_handle_event C (sg_private_key (app_signer p)) (app_market p) objs ev = Inr (Some (t, m)) \<longrightarrow>
      is_sign_event ev \<longrightarrow> sender C m = Inr (app_node_address p)) \<and>
    (signer_sign C (sp_signer sp) ob = Inr ob' \<longrightarrow> sender C (content ob') = Inr (sp_address sp))"
proof (intro conjI impI)
  have node: "signer_address K (app_signer p) = Inr (app_node_address p)"
    using assms(1) by (auto simp: build_default_from_config_def bind_res_Inr_iff)
  have service: "signer_address K (sp_signer sp) = Inr (sp_address sp)"
    using assms(2) by (auto simp: build_service_def bind_res_Inr_iff split: option.splits)
  show "sender C (content ob') = Inr (sp_address sp)" if "signer_sign C (sp_signer sp) ob = Inr ob'"
    using signed_by [OF service that assms(3,4)] .
  assume sent: "transport_handle_event C (sg_private_key (app_signer p)) (app_market p) objs ev = Inr (Some (t, m))"
    and "is_sign_event ev"
  then obtain x ob where "sign C (sg_private_key (app_signer p)) \<lparr>content = x, is_mutable = True\<rparr> = Inr ob"
      "m = content ob"
    by (auto simp: transport_handle_event_def bind_res_Inr_iff split: option.splits if_splits)
  then show "sender C m = Inr (app_node_address p)"
    using signed_by [OF node _ assms(3,4)] by (simp add: signer_sign_def)
qed

text \<open>An application over the in-process mocks cannot be built: once its signer is there, its market
  raises, because the address of the quote token is passed as the decimals of the base token.\<close>

theorem mocks_not_built:
  assumes "choose_signer C K W keyfile pw_file seed drawn = Inr sg"
  shows "build_from_mocks C K W A drawn keyfile pw_file seed cs base quot lifetime = Inl ValueError"
  using assms by (simp add: build_from_mocks_def mk_token_pair_def is_binary_address_def)

section \<open>Markets and secrets\<close>

text \<open>The market of a pair of assets does not depend on the order of the pair, its first asset has
  the lower number, and only two assets of the same number are refused.\<close>

theorem market_of_pair:
  "get_market_from_asset_pair num (a, b) = get_market_from_asset_pair num (b, a) \<and>
   (get_market_from_asset_pair num (a, b) = Inl UntradableAssetPair \<longleftrightarrow> num a = num b) \<and>
   (\<forall>x y. get_market_from_asset_pair num (a, b) = Inr (x, y) \<longrightarrow> num x < num y \<and> {x, y} = {a, b})"
  by (auto simp: get_market_from_asset_pair_def Let_def)

lemma random_secret_skips:
  "(\<And>m. n \<le> m \<Longrightarrow> m < k \<Longrightarrow> u m = empty_secret) \<Longrightarrow> n \<le> k \<Longrightarrow>
   random_secret_from u n = random_secret_from u k"
proof (induction "k - n" arbitrary: n)
  case (Suc d)
  then have "random_secret_from u n = random_secret_from u (Suc n)"
    by (subst random_secret_from.simps) simp
  also have "\<dots> = random_secret_from u k"
    using Suc.hyps(2) Suc.prems by (intro Suc.hyps(1)) auto
  finally show ?case .
qed simp

lemma random_secret_found:
  assumes "random_secret_from u n = Some x" shows "\<exists>k. u k \<noteq> empty_secret"
  using assms
  by (rule random_secret_from.raw_induct [where P = "\<lambda>u n x. \<exists>k. u k \<noteq> empty_secret", rotated])
     (auto split: if_splits)

text \<open>Drawing a secret ends exactly when some draw is not the empty secret, which the contracts
  refuse, and gives the first such draw.\<close>

theorem random_secret_ends:
  "random_secret u =
     (if \<exists>k. u k \<noteq> empty_secret then Some (u (LEAST k. u k \<noteq> empty_secret)) else None)"
proof (cases "\<exists>k. u k \<noteq> empty_secret")
  case True
  define j where "j = (LEAST k. u k \<noteq> empty_secret)"
  have j: "u j \<noteq> empty_secret" unfolding j_def using True by (rule LeastI_ex)
  have "u m = empty_secret" if "m < j" for m using not_less_Least that unfolding j_def by blast
  then have "random_secret_from u 0 = random_secret_from u j" by (intro random_secret_skips) simp_all
  then have "random_secret u = Some (u j)"
    using j random_secret_from.simps [of u j] by (simp add: random_secret_def)
  then show ?thesis using True by (simp add: j_def)
next
  case False
  then show ?thesis
    using random_secret_found [of u 0] by (cases "random_secret_from u 0") (auto simp: random_secret_def)
qed

section \<open>Concrete parts\<close>

definition demo_tools :: key_tools where
  "demo_tools = demo_keys\<lparr>key_address := (\<lambda>k. Inr k), decode_keyfile := (\<lambda>_ _. Inr (replicate 32 1))\<rparr>"

definition demo_keystore :: json where
  "demo_keystore = JObj [(''crypto'', JObj [(''cipher'', JNull), (''ciphertext'', JNull), (''kdf'', JNull),
     (''mac'', JNull)]), (''version'', JInt 3)]"

definition demo_wire :: wire where
  "demo_wire = \<lparr>json_dumps = (\<lambda>_. []), json_loads = (\<lambda>_. Inr demo_keystore), rlp_decode = (\<lambda>_ _. Inl ValueError)\<rparr>"

definition demo_address_tools :: address_tools where
  "demo_address_tools = \<lparr>is_checksum_address = (\<lambda>_. True), decode_hex_text = (\<lambda>_. Inr (replicate 20 2))\<rparr>"

definition tag_crypto :: crypto where
  "tag_crypto = \<lparr>keccak = (\<lambda>b. take 32 (b @ replicate 32 0)), rlp_encode = (\<lambda>x. Inr (map (\<lambda>_. 0) x)),
     sign_msg = (\<lambda>k h. k @ [0]), recover_address = (\<lambda>s h. Inr (butlast s))\<rparr>"

lemma tag_crypto_recovers:
  "key_address demo_tools k = Inr a \<Longrightarrow> recover_address tag_crypto (sign_msg tag_crypto k h) h = Inr a"
  "sign_msg tag_crypto k h \<noteq> []"
  by (simp_all add: demo_tools_def tag_crypto_def)

definition demo_signer :: signer where
  "demo_signer = \<lparr>sg_private_key = replicate 32 1, sg_public_key = replicate 32 1\<rparr>"

lemma demo_load:
  "load_account demo_tools demo_wire x None (Some p) =
     Inr \<lparr>ac_keystore = [(''crypto'', JObj [(''cipher'', JNull), (''ciphertext'', JNull), (''kdf'', JNull),
     (''mac'', JNull)]), (''version'', JInt 3)], ac_locked = False, ac_path = None,
     ac_privkey = Some (replicate 32 1), ac_address = Some (Addr_text ''0x01'')\<rparr>"
proof -
  have "check_keystore_json demo_keystore = Inr True" by code_simp
  then show ?thesis
    by (simp add: load_account_def demo_wire_def)
       (simp add: demo_keystore_def mk_account_def dict_get_def unlock_def demo_tools_def demo_keys_def
          account_address_def privkey_def seq_unit)
qed

lemma demo_tools_simps [simp]: "public_key demo_tools k = Inr k" "key_address demo_tools k = Inr k"
  by (simp_all add: demo_tools_def demo_keys_def)

lemma demo_choose: "choose_signer C demo_tools demo_wire (Some f) (Some ''pw'') seed drawn = Inr demo_signer"
  by (simp add: choose_signer_def first_line_def demo_load signer_from_account_def privkey_def
      mk_signer_def demo_signer_def)

definition demo_app :: app where
  "demo_app = \<lparr>app_signer = demo_signer,
     app_market = \<lparr>tp_base = replicate 20 2, tp_base_decimal = 3, tp_quote = replicate 20 2, tp_quote_decimal = 18\<rparr>,
     app_trader = new_trader_client (Some \<lparr>tp_base = replicate 20 2, tp_base_decimal = 3,
       tp_quote = replicate 20 2, tp_quote_decimal = 18\<rparr>) 10,
     app_broker_address = ''0x'', app_cs_client = mk_cs_client (replicate 20 2),
     app_node_address = replicate 32 1, app_offer_lifetime = 30\<rparr>"

lemma demo_build:
  "build_default_from_config tag_crypto demo_tools demo_wire
     \<lparr>encode_address = (\<lambda>_. ''0x''), encode_token = (\<lambda>x. x), encode_hex = (\<lambda>_. [])\<rparr> demo_address_tools []
     (Some ''f'') (Some ''pw'') None (Addr_text []) (Addr_text []) (Addr_text []) None = Inr demo_app"
  by (simp add: build_default_from_config_def demo_choose binary_address_def demo_address_tools_def
      mk_token_pair_def is_binary_address_def signer_checksum_address_def signer_address_def demo_app_def
      demo_signer_def)

definition demo_service :: service_parts where
  "demo_service = \<lparr>sp_signer = demo_signer, sp_address = replicate 32 1,
     sp_trader = new_trader_client None commitment_amount\<rparr>"

lemma demo_build_service: "build_service demo_tools demo_wire ''f'' (Some ''pw'') = Inr demo_service"
  by (simp add: build_service_def first_line_def demo_load signer_from_account_def privkey_def
      mk_signer_def signer_address_def demo_service_def demo_signer_def)

theorem one_identity_witness:
  "\<exists>m. transport_handle_event tag_crypto (replicate 32 1) (app_market demo_app) (\<lambda>_. undefined)
       (SendExecutedEvent [3] 7 0) = Inr (Some (Address [3], m)) \<and>
     sender tag_crypto m = Inr (app_node_address demo_app)"
proof -
  let ?m = "SwapExecution 7 0 (Some (replicate 32 1 @ [0]))"
  have sent: "transport_handle_event tag_crypto (sg_private_key (app_signer demo_app)) (app_market demo_app)
      (\<lambda>_. undefined) (SendExecutedEvent [3] 7 0) = Inr (Some (Address [3], ?m))"
    by (simp add: transport_handle_event_def event_message_def sign_def is_instance_def demo_app_def
        demo_signer_def hash_without_signature_def tag_crypto_def)
  moreover have "sender tag_crypto ?m = Inr (app_node_address demo_app)"
    using one_identity [OF demo_build demo_build_service tag_crypto_recovers] sent by simp
  ultimately show ?thesis by (intro exI [of _ ?m]) (simp add: demo_app_def demo_signer_def)
qed

theorem mocks_not_built_witness:
  "build_from_mocks tag_crypto demo_tools demo_wire demo_address_tools [] (Some ''f'') (Some ''pw'') None
     (Addr_text []) (replicate 20 1) 0 None = Inl ValueError"
  by (rule mocks_not_built [OF demo_choose])

end
