(* ===== verification/Client_Mock.thy ===== *)
theory Client_Mock
  imports Service_Mock Broker Setup
begin

text \<open>
  The mock client of the commitment service (\<open>CommitmentServiceClientMock\<close>) with the two services it may
  use: the one of \<open>Service_Mock\<close>, and one that answers True to everything, which all clients share that
  are not given another. The client signs for itself and for the service.
\<close>

section \<open>The services\<close>

record cs_global =
  gl_signer :: signer
  gl_non_failing :: bool

text \<open>\<open>CommitmentServiceGlobal\<close> builds a missing signer without its key, the other one draws it.\<close>

definition mk_global :: "signer option \<Rightarrow> cs_global res" where
  "mk_global x = (case x of None \<Rightarrow> Inl TypeError | Some sg \<Rightarrow> Inr \<lparr>gl_signer = sg, gl_non_failing = False\<rparr>)"

definition mk_non_failing :: "crypto \<Rightarrow> key_tools \<Rightarrow> bytes \<Rightarrow> signer option \<Rightarrow> cs_global res" where
  "mk_non_failing C K drawn x =
     bind_res (case x of None \<Rightarrow> signer_random C K drawn | Some sg \<Rightarrow> Inr sg) (\<lambda>sg.
     Inr \<lparr>gl_signer = sg, gl_non_failing = True\<rparr>)"

definition global_address :: "key_tools \<Rightarrow> cs_global \<Rightarrow> bytes res" where
  "global_address K g = signer_address K (gl_signer g)"

definition global_make_offer :: "cs_global \<Rightarrow> nat \<Rightarrow> int \<Rightarrow> (mock_service, bool) prog" where
  "global_make_offer g c i s = (if gl_non_failing g then (Inr True, s)
     else case mock_make_offer c i s of (ok, t) \<Rightarrow> (Inr ok, t))"

definition global_try_take_offer :: "cs_global \<Rightarrow> nat \<Rightarrow> int \<Rightarrow> (mock_service, bool) prog" where
  "global_try_take_offer g c i s = (if gl_non_failing g then (Inr True, s)
     else case try_take_offer c i s of (ok, t) \<Rightarrow> (Inr ok, t))"

definition global_report_swap_executed :: "cs_global \<Rightarrow> nat \<Rightarrow> int \<Rightarrow> (mock_service, bool) prog" where
  "global_report_swap_executed g c i s = (if gl_non_failing g then (Inr True, s)
     else case report_swap_executed c i s of (ok, t) \<Rightarrow> (Inr ok, t))"

definition global_swap_is_completed :: "cs_global \<Rightarrow> int \<Rightarrow> mock_service \<Rightarrow> bool" where
  "global_swap_is_completed g i s = (if gl_non_failing g then True else swap_is_completed i s)"

section \<open>The client\<close>

record cs_client_mock =
  cm_client :: nat
  cm_global :: cs_global
  cm_service_address :: bytes
  cm_node_address :: bytes
  cm_node_signer :: signer
  cm_token_pair :: token_pair
  cm_fee_rate :: rat

text \<open>\<open>shared\<close> is the attribute of the class.\<close>

definition mk_client_mock ::
  "key_tools \<Rightarrow> cs_global \<Rightarrow> nat \<Rightarrow> signer \<Rightarrow> token_pair \<Rightarrow> rat \<Rightarrow> cs_global option \<Rightarrow> cs_client_mock res" where
  "mk_client_mock K shared c node_signer market fee_rate given =
     (let g = (case given of None \<Rightarrow> shared | Some x \<Rightarrow> x) in
      bind_res (global_address K g) (\<lambda>service.
      bind_res (signer_address K node_signer) (\<lambda>address.
      Inr \<lparr>cm_client = c, cm_global = g, cm_service_address = service, cm_node_address = address,
           cm_node_signer = node_signer, cm_token_pair = market, cm_fee_rate = fee_rate\<rparr>)))"

definition mock_offer_msg :: "cs_client_mock \<Rightarrow> basic_offer \<Rightarrow> message" where
  "mock_offer_msg m b =
     (let p = cm_token_pair m in
      if o_type b = SELL
      then SwapOffer (tp_quote p) (o_quote b) (tp_base p) (o_base b) (o_id b) (o_timeout b)
      else SwapOffer (tp_base p) (o_base b) (tp_quote p) (o_quote b) (o_id b) (o_timeout b))"

definition signed_by :: "crypto \<Rightarrow> signer \<Rightarrow> message \<Rightarrow> message res" where
  "signed_by C sg m = bind_res (signer_sign C sg \<lparr>content = m, is_mutable = True\<rparr>) (\<lambda>ob. Inr (content ob))"

definition create_taken :: "crypto \<Rightarrow> cs_client_mock \<Rightarrow> int \<Rightarrow> message res" where
  "create_taken C m i = signed_by C (gl_signer (cm_global m)) (OfferTaken i None)"

definition create_swap_completed :: "crypto \<Rightarrow> cs_client_mock \<Rightarrow> datetime \<Rightarrow> int \<Rightarrow> message res" where
  "create_swap_completed C m now i = bind_res (time_now now) (\<lambda>t.
     signed_by C (gl_signer (cm_global m)) (SwapCompleted i t None))"

text \<open>
  A commitment is asked for at the service, and refused with no result. One that is accepted is built and
  signed; then \<open>CommitmentProof\<close> is called with one of its four arguments.
\<close>

definition maker_commit_async :: "crypto \<Rightarrow> cs_client_mock \<Rightarrow> basic_offer \<Rightarrow> (mock_service, message option) prog" where
  "maker_commit_async C m b =
     seq (global_make_offer (cm_global m) (cm_client m) (o_id b)) (\<lambda>success.
     if \<not> success then return None
     else seq (lift_res (msg_hash C (mock_offer_msg m b))) (\<lambda>h.
          seq (lift_res (signed_by C (cm_node_signer m) (Commitment (o_id b) h (o_timeout b) 42 None))) (\<lambda>_.
          throw TypeError)))"

text \<open>The module has no \<open>TakerCommitment\<close>.\<close>

definition taker_commit_async :: "cs_client_mock \<Rightarrow> basic_offer \<Rightarrow> (mock_service, message option) prog" where
  "taker_commit_async m b =
     seq (global_try_take_offer (cm_global m) (cm_client m) (o_id b)) (\<lambda>success.
     if \<not> success then return None else throw AttributeError)"

text \<open>The report goes to a method that neither service has.\<close>

definition mock_report_swap_executed :: "cs_client_mock \<Rightarrow> int \<Rightarrow> (mock_service, unit) prog" where
  "mock_report_swap_executed m i = throw AttributeError"

section \<open>What the client does\<close>

text \<open>The offer on the wire is the one every other part of the program builds.\<close>

lemma mock_offer_msg_eq: "mock_offer_msg m b = create_offer_msg b (cm_token_pair m)"
  by (simp add: mock_offer_msg_def create_offer_msg_def Let_def)

lemma signed_by_sender:
  assumes "signed_by C sg m = Inr x" and "recovers C (sg_private_key sg) a"
  shows "sender C x = Inr a" "class_of x = class_of m"
proof -
  obtain ob where ob: "sign C (sg_private_key sg) \<lparr>content = m, is_mutable = True\<rparr> = Inr ob" "x = content ob"
    using assms(1) by (auto simp: signed_by_def signer_sign_def bind_res_Inr_iff)
  then obtain g where "content ob = with_signature m g"
    by (auto simp: sign_def bind_res_Inr_iff split: if_splits)
  then show "class_of x = class_of m" using ob(2) by simp
  show "sender C x = Inr a" using signed_recovers [OF ob(1) assms(2)] ob(2) by simp
qed

text \<open>
  No commitment of the mock client ever succeeds, but the service counts it: a maker's offer id is taken
  after the first attempt, so that the next one is refused.
\<close>

lemma maker_commit_never:
  "fst (maker_commit_async C m b s) = Inr None \<or> (\<exists>e. fst (maker_commit_async C m b s) = Inl e)"
  by (auto simp: maker_commit_async_def seq_def lift_res_def return_def throw_def split: sum.split prod.split)

lemma maker_commit_again:
  assumes "\<not> gl_non_failing (cm_global m)"
  shows "maker_commit_async C m b (snd (maker_commit_async C m b s)) = (Inr None, snd (maker_commit_async C m b s))"
proof -
  have kept: "snd (maker_commit_async C m b s) = snd (mock_make_offer (cm_client m) (o_id b) s)"
    using assms by (auto simp: maker_commit_async_def global_make_offer_def seq_def lift_res_def return_def throw_def
        split: sum.split prod.split)
  have "dict_mem (o_id b) (snd (mock_make_offer (cm_client m) (o_id b) s))"
    by (auto simp: mock_make_offer_def dict_mem_def)
  then show ?thesis unfolding kept using assms
    by (simp add: maker_commit_async_def global_make_offer_def mock_make_offer_def seq_def return_def)
qed

lemma taker_commit_never:
  "fst (taker_commit_async m b s) = Inr None \<or> fst (taker_commit_async m b s) = Inl AttributeError"
  by (auto simp: taker_commit_async_def seq_def return_def throw_def global_try_take_offer_def split: sum.split prod.split)

text \<open>With the service that never fails a commitment always raises: nobody who uses the mock gets a proven offer.\<close>

lemma non_failing_raises:
  assumes "gl_non_failing (cm_global m)"
  shows "fst (taker_commit_async m b s) = Inl AttributeError" "\<exists>e. fst (maker_commit_async C m b s) = Inl e"
  using assms
  by (auto simp: taker_commit_async_def maker_commit_async_def seq_def throw_def lift_res_def global_make_offer_def
      global_try_take_offer_def split: sum.split)

text \<open>The announcements it makes for the service are the service's.\<close>

lemma announcements_signed:
  assumes "recovers C (sg_private_key (gl_signer (cm_global m))) a"
  shows "create_taken C m i = Inr x \<Longrightarrow> sender C x = Inr a \<and> class_of x = C_OfferTaken"
    "create_swap_completed C m now i = Inr x \<Longrightarrow> sender C x = Inr a \<and> class_of x = C_SwapCompleted"
proof -
  show "create_taken C m i = Inr x \<Longrightarrow> sender C x = Inr a \<and> class_of x = C_OfferTaken"
    using signed_by_sender [of C _ "OfferTaken i None" x a] assms by (simp add: create_taken_def)
  assume "create_swap_completed C m now i = Inr x"
  then obtain t where "signed_by C (gl_signer (cm_global m)) (SwapCompleted i t None) = Inr x"
    by (auto simp: create_swap_completed_def bind_res_Inr_iff)
  then show "sender C x = Inr a \<and> class_of x = C_SwapCompleted"
    using signed_by_sender [of C _ "SwapCompleted i t None" x a] assms by simp
qed

end
