(* ===== verification/Listener_Objects.thy ===== *)
theory Listener_Objects
  imports Broker Trader_Mock
begin

text \<open>
  Objects that listen: \<open>MessageListener\<close> (\<open>message_broker/listeners.py\<close>) at the broker and \<open>EventListener\<close>
  (\<open>trader_mock/trader.py\<close>) at the trader of the mock network, with the life they share: they register at
  their hub when started, take from their queue, and are taken off when stopped. An object is the listener it
  has registered last, if any; a state is the object together with its hub.
\<close>

section \<open>The life of a listener\<close>

text \<open>\<open>listen\<close> registers at the hub, \<open>unlisten\<close> takes off, \<open>next_item\<close> is the next item of the queue, if there is one.\<close>

definition listener_start :: "('s, 'l) prog \<Rightarrow> ('l option \<times> 's, unit) prog" where
  "listener_start listen = (\<lambda>(x, s).
     case listen s of (Inl e, t) \<Rightarrow> (Inl e, x, t) | (Inr l, t) \<Rightarrow> (Inr (), Some l, t))"

definition listener_stop :: "('l \<Rightarrow> ('s, unit) prog) \<Rightarrow> ('l option \<times> 's, unit) prog" where
  "listener_stop unlisten = (\<lambda>(x, s).
     case x of None \<Rightarrow> (Inr (), x, s) | Some l \<Rightarrow> (case unlisten l s of (r, t) \<Rightarrow> (r, x, t)))"

text \<open>\<open>None\<close> is a caller that has to wait; an object that was never started has no queue.\<close>

definition listener_next :: "('l \<Rightarrow> 's \<Rightarrow> ('a \<times> 's) option) \<Rightarrow> ('l option \<times> 's, 'a option) prog" where
  "listener_next next_item = (\<lambda>(x, s).
     case x of
       None \<Rightarrow> (Inl AttributeError, x, s)
     | Some l \<Rightarrow> (case next_item l s of None \<Rightarrow> (Inr None, x, s) | Some (y, t) \<Rightarrow> (Inr (Some y), x, t)))"

section \<open>Hubs\<close>

text \<open>
  What an object relies on: a listener is new when it is registered, comes last, and can be taken off
  once. \<open>mine\<close> are the listeners that \<open>listen\<close> can make.
\<close>

locale hub =
  fixes listen :: "('s, 'l) prog" and unlisten :: "'l \<Rightarrow> ('s, unit) prog" and registered :: "'s \<Rightarrow> 'l list"
    and hub_ok :: "'s \<Rightarrow> bool" and mine :: "'l \<Rightarrow> bool"
  assumes registers: "hub_ok s \<Longrightarrow> \<exists>l t. listen s = (Inr l, t) \<and> hub_ok t \<and> mine l \<and>
      l \<notin> set (registered s) \<and> registered t = registered s @ [l]"
    and unregisters: "hub_ok s \<Longrightarrow> mine l \<Longrightarrow> l \<in> set (registered s) \<Longrightarrow>
      \<exists>t. unlisten l s = (Inr (), t) \<and> hub_ok t \<and> registered t = remove1 l (registered s)"
    and unknown: "hub_ok s \<Longrightarrow> mine l \<Longrightarrow> l \<notin> set (registered s) \<Longrightarrow> fst (unlisten l s) = Inl ValueError"
begin

lemma start_eq:
  assumes "hub_ok s"
  obtains l t where "listener_start listen (x, s) = (Inr (), Some l, t)" "hub_ok t" "mine l"
    "l \<notin> set (registered s)" "registered t = registered s @ [l]"
  using registers [OF assms] by (auto simp: listener_start_def)

lemma stop_eq:
  assumes "hub_ok s" and "mine l" and "l \<in> set (registered s)"
  obtains t where "listener_stop unlisten (Some l, s) = (Inr (), Some l, t)" "hub_ok t"
    "registered t = remove1 l (registered s)"
  using unregisters [OF assms] by (auto simp: listener_stop_def)

text \<open>An object that is started and stopped leaves its hub as it was; it stays stopped only once.\<close>

lemma start_stop:
  assumes "hub_ok s"
  shows "\<exists>l t u. listener_start listen (x, s) = (Inr (), Some l, t) \<and>
    listener_stop unlisten (Some l, t) = (Inr (), Some l, u) \<and> registered u = registered s \<and>
    fst (listener_stop unlisten (Some l, u)) = Inl ValueError"
proof -
  obtain l t where t: "listener_start listen (x, s) = (Inr (), Some l, t)" "hub_ok t" "mine l"
      "l \<notin> set (registered s)" "registered t = registered s @ [l]"
    by (rule start_eq [OF assms])
  obtain u where u: "listener_stop unlisten (Some l, t) = (Inr (), Some l, u)" "hub_ok u"
      "registered u = remove1 l (registered t)"
    by (rule stop_eq [OF t(2,3)]) (use t(5) in simp)
  have same: "registered u = registered s" using u(3) t(4,5) by (simp add: remove1_append)
  then have "fst (unlisten l u) = Inl ValueError" using unknown [OF u(2) t(3)] t(4) by simp
  then show ?thesis using t(1) u(1) same by (auto simp: listener_stop_def split: prod.split)
qed

text \<open>An object that is started again forgets its first listener, which nobody takes off any more.\<close>

lemma start_again:
  assumes "hub_ok s"
  shows "\<exists>l t l' t' u. listener_start listen (x, s) = (Inr (), Some l, t) \<and>
    listener_start listen (Some l, t) = (Inr (), Some l', t') \<and>
    listener_stop unlisten (Some l', t') = (Inr (), Some l', u) \<and> registered u = registered s @ [l]"
proof -
  obtain l t where t: "listener_start listen (x, s) = (Inr (), Some l, t)" "hub_ok t" "registered t = registered s @ [l]"
    by (rule start_eq [OF assms]) blast
  obtain l' t' where t': "listener_start listen (Some l, t) = (Inr (), Some l', t')" "hub_ok t'" "mine l'"
      "l' \<notin> set (registered t)" "registered t' = registered t @ [l']"
    by (rule start_eq [OF t(2)])
  obtain u where "listener_stop unlisten (Some l', t') = (Inr (), Some l', u)" "registered u = remove1 l' (registered t')"
    by (rule stop_eq [OF t'(2,3)]) (use t'(5) in simp)
  then show ?thesis using t t' by (auto simp: remove1_append)
qed

end

section \<open>Listeners at the broker\<close>

definition message_listener_start ::
  "topic \<Rightarrow> listener_kind option \<Rightarrow> (topic_listener option \<times> broker, unit) prog" where
  "message_listener_start t k = listener_start (listen_on t k)"

definition message_listener_stop :: "(topic_listener option \<times> broker, unit) prog" where
  "message_listener_stop = listener_stop stop_listen"

definition message_listener_get :: "(topic_listener option \<times> broker, heard option) prog" where
  "message_listener_get = listener_next listener_get"

text \<open>\<open>get_once\<close> starts, and stops as soon as there is a message.\<close>

definition message_listener_got :: "(topic_listener option \<times> broker, heard option) prog" where
  "message_listener_got = seq message_listener_get (\<lambda>x.
     case x of None \<Rightarrow> return None | Some m \<Rightarrow> seq message_listener_stop (\<lambda>_. return (Some m)))"

lemma distinct_map_remove1: "distinct (map f xs) \<Longrightarrow> distinct (map f (remove1 x xs))"
proof (induction xs)
  case (Cons y ys)
  then show ?case using set_remove1_subset [of x ys] by auto
qed simp

interpretation broker_hub: hub "listen_on t k" stop_listen "topic_listeners t" broker_ok "\<lambda>l. ln_topic l = t"
  for t k
proof unfold_locales
  show "\<exists>l b'. listen_on t k b = (Inr l, b') \<and> broker_ok b' \<and> ln_topic l = t \<and> l \<notin> set (topic_listeners t b) \<and>
      topic_listeners t b' = topic_listeners t b @ [l]" if "broker_ok b" for b
  proof -
    let ?l = "\<lparr>ln_topic = t, ln_queue = next_queue b, ln_transform = k\<rparr>"
    obtain b' where b': "listen_on t k b = (Inr ?l, b')" "topic_listeners t b' = topic_listeners t b @ [?l]"
      by (simp add: listen_on_eq listen_on_topic_def Let_def)
    moreover have "?l \<notin> set (topic_listeners t b)" using that by (fastforce simp: broker_ok_def)
    moreover have "broker_ok b'" using listen_on_ok [OF that, of t k] b'(1) by simp
    ultimately show ?thesis by auto
  qed
  show "\<exists>b'. stop_listen l b = (Inr (), b') \<and> broker_ok b' \<and> topic_listeners t b' = remove1 l (topic_listeners t b)"
    if "broker_ok b" "ln_topic l = t" "l \<in> set (topic_listeners t b)" for b l
  proof -
    obtain c where c: "touch_topic t b = (Inr (topic_listeners t b), c)" "queues c = queues b"
        "next_queue c = next_queue b" "\<forall>u. topic_listeners u c = topic_listeners u b"
      using touch_topic_eq [of t b] by blast
    let ?c = "c\<lparr>topics := dict_set t (remove1 l (topic_listeners t b)) (topics c)\<rparr>"
    have "stop_listen l b = (Inr (), ?c)"
      using c(1) that(2,3) by (simp add: stop_listen_def seq_def modify_def)
    moreover have "broker_ok ?c"
      using that(1) c(3,4) set_remove1_subset [of l "topic_listeners t b"] distinct_map_remove1
      by (fastforce simp: broker_ok_def)
    ultimately show ?thesis by simp
  qed
  show "fst (stop_listen l b) = Inl ValueError" if "broker_ok b" "ln_topic l = t" "l \<notin> set (topic_listeners t b)" for b l
  proof -
    obtain c where c: "touch_topic t b = (Inr (topic_listeners t b), c)" using touch_topic_eq [of t b] by blast
    then show ?thesis using that(2,3) by (simp add: stop_listen_def seq_def throw_def)
  qed
qed

section \<open>Listeners of the mock network\<close>

text \<open>\<open>TransferReceivedListener\<close> and its base class, at the trader of a client; the client forwards.\<close>

definition client_listen :: "nat \<Rightarrow> transform \<Rightarrow> (mock, mock_listener) prog" where
  "client_listen i f s = trader_listen (mc_address (mk_clients s ! i)) f s"

definition event_listener_start :: "nat \<Rightarrow> transform \<Rightarrow> (mock_listener option \<times> mock, unit) prog" where
  "event_listener_start i f = listener_start (client_listen i f)"

definition event_listener_stop :: "(mock_listener option \<times> mock, unit) prog" where
  "event_listener_stop = listener_stop trader_stop_listen"

definition take_event :: "mock_listener \<Rightarrow> mock \<Rightarrow> (mock_queued \<times> mock) option" where
  "take_event l s =
     (case mk_queues s ! ml_queue l of
        [] \<Rightarrow> None
      | x # xs \<Rightarrow> Some (x, s\<lparr>mk_queues := (mk_queues s)[ml_queue l := xs]\<rparr>))"

definition event_listener_get :: "(mock_listener option \<times> mock, mock_queued option) prog" where
  "event_listener_get = listener_next take_event"

definition listeners_at :: "bytes \<Rightarrow> mock \<Rightarrow> mock_listener list" where
  "listeners_at a s = (case dict_get a (mk_listeners s) of None \<Rightarrow> [] | Some ls \<Rightarrow> ls)"

definition mock_hub_ok :: "nat \<Rightarrow> bytes \<Rightarrow> mock \<Rightarrow> bool" where
  "mock_hub_ok i a s \<longleftrightarrow> mc_address (mk_clients s ! i) = a \<and> (\<forall>l \<in> set (listeners_at a s). ml_queue l < length (mk_queues s))"

interpretation mock_hub: hub "client_listen i f" trader_stop_listen "listeners_at a" "mock_hub_ok i a" "\<lambda>l. ml_address l = a"
  for i f a
proof unfold_locales
  show "\<exists>l t. client_listen i f s = (Inr l, t) \<and> mock_hub_ok i a t \<and> ml_address l = a \<and> l \<notin> set (listeners_at a s) \<and>
      listeners_at a t = listeners_at a s @ [l]" if "mock_hub_ok i a s" for s
    using that
    by (auto simp: client_listen_def trader_listen_def mock_hub_ok_def listeners_at_def Let_def less_SucI split: option.splits)
  show "\<exists>t. trader_stop_listen l s = (Inr (), t) \<and> mock_hub_ok i a t \<and> listeners_at a t = remove1 l (listeners_at a s)"
    if s: "mock_hub_ok i a s" "ml_address l = a" "l \<in> set (listeners_at a s)" for s l
  proof -
    obtain ls where ls: "dict_get a (mk_listeners s) = Some ls" "l \<in> set ls"
      using s(3) by (cases "dict_get a (mk_listeners s)") (auto simp: listeners_at_def)
    let ?t = "s\<lparr>mk_listeners := dict_set a (remove1 l ls) (mk_listeners s)\<rparr>"
    have "trader_stop_listen l s = (Inr (), ?t)" using ls s(2) by (simp add: trader_stop_listen_def)
    moreover have "mock_hub_ok i a ?t"
      using s(1) ls set_remove1_subset [of l ls] by (auto simp: mock_hub_ok_def listeners_at_def)
    ultimately show ?thesis using ls by (simp add: listeners_at_def)
  qed
  show "fst (trader_stop_listen l s) = Inl ValueError"
    if "mock_hub_ok i a s" "ml_address l = a" "l \<notin> set (listeners_at a s)" for s l
    using that by (auto simp: trader_stop_listen_def listeners_at_def split: option.splits)
qed

section \<open>The life of both\<close>

lemma listener_not_started: "message_listener_get (None, b) = (Inl AttributeError, None, b)"
  "event_listener_get (None, s) = (Inl AttributeError, None, s)"
  by (simp_all add: message_listener_get_def event_listener_get_def listener_next_def)

text \<open>Stopping a message listener a second time raises, in every state of the broker.\<close>

lemma message_listener_stops_once:
  assumes "broker_ok b"
  shows "\<exists>l c d. message_listener_start t k (x, b) = (Inr (), Some l, c) \<and>
    message_listener_stop (Some l, c) = (Inr (), Some l, d) \<and> topic_listeners t d = topic_listeners t b \<and>
    fst (message_listener_stop (Some l, d)) = Inl ValueError"
  unfolding message_listener_start_def message_listener_stop_def by (rule broker_hub.start_stop [OF assms])

lemma event_listener_stops_once:
  assumes "mock_hub_ok i a s"
  shows "\<exists>l t u. event_listener_start i f (x, s) = (Inr (), Some l, t) \<and>
    event_listener_stop (Some l, t) = (Inr (), Some l, u) \<and> listeners_at a u = listeners_at a s \<and>
    fst (event_listener_stop (Some l, u)) = Inl ValueError"
  unfolding event_listener_start_def event_listener_stop_def by (rule mock_hub.start_stop [OF assms])

end
