(* ===== verification/Comparisons.thy ===== *)
theory Comparisons
  imports Offer_Grouping Refunds
begin

text \<open>
  The comparisons objects of the program define: messages (\<open>messages.py\<close>) by class and hash, with one
  priority for all; groups of offers, groups of trades and bins of prices (\<open>offer_grouping.py\<close>) by price
  and time. Hashing and the reading of big endian integers are parameters.
\<close>

section \<open>Messages\<close>

text \<open>\<open>isinstance(other, self.__class__) and self.hash == other.hash\<close>; the hash of the first comes first.\<close>

definition message_eq :: "crypto \<Rightarrow> message \<Rightarrow> message \<Rightarrow> bool res" where
  "message_eq C a b =
     (if \<not> is_instance b (class_of a) then Inr False
      else bind_res (msg_hash C a) (\<lambda>x. bind_res (msg_hash C b) (\<lambda>y. Inr (x = y))))"

definition message_ne :: "crypto \<Rightarrow> message \<Rightarrow> message \<Rightarrow> bool res" where
  "message_ne C a b = bind_res (message_eq C a b) (\<lambda>x. Inr (\<not> x))"

definition message_hash_int :: "crypto \<Rightarrow> (bytes \<Rightarrow> int) \<Rightarrow> message \<Rightarrow> int res" where
  "message_hash_int C big_endian_to_int a = bind_res (msg_hash C a) (\<lambda>x. Inr (big_endian_to_int x))"

definition message_priority :: "message \<Rightarrow> int" where
  "message_priority m = 0"

definition message_lt :: "message \<Rightarrow> message \<Rightarrow> bool" where
  "message_lt a b \<longleftrightarrow> message_priority a < message_priority b"

text \<open>Messages that are equal are hashed alike, as dictionaries need it.\<close>

lemma message_eq_hash: "message_eq C a b = Inr True \<Longrightarrow> message_hash_int C f a = message_hash_int C f b"
  by (auto simp: message_eq_def message_hash_int_def bind_res_Inr_iff split: if_splits)

lemma message_eq_refl: "msg_hash C a = Inr h \<Longrightarrow> message_eq C a a = Inr True"
  by (cases a) (simp_all add: message_eq_def is_instance_def)

text \<open>Between messages of one class equality is symmetric; a subclass is only compared in one direction.\<close>

lemma message_eq_sym: "class_of a = class_of b \<Longrightarrow> message_eq C a b = Inr x \<Longrightarrow> message_eq C b a = Inr x"
  by (auto simp: message_eq_def bind_res_Inr_iff is_instance_def split: if_splits)

lemma message_eq_one_way:
  assumes "class_of a = C_SwapCompleted" and "class_of b = C_SwapExecution"
  shows "message_eq C a b = Inr False"
  using assms by (simp add: message_eq_def is_instance_def)

section \<open>Groups and bins\<close>

definition grouped_offer_eq :: "grouped_offer \<Rightarrow> grouped_offer \<Rightarrow> bool" where
  "grouped_offer_eq a b \<longleftrightarrow> go_price a = go_price b"

definition grouped_offer_lt :: "grouped_offer \<Rightarrow> grouped_offer \<Rightarrow> bool" where
  "grouped_offer_lt a b \<longleftrightarrow> go_price a < go_price b"

definition grouped_trade_eq :: "grouped_trade \<Rightarrow> grouped_trade \<Rightarrow> bool" where
  "grouped_trade_eq a b \<longleftrightarrow> (gt_timestamp a, gt_price a) = (gt_timestamp b, gt_price b)"

definition grouped_trade_lt :: "grouped_trade \<Rightarrow> grouped_trade \<Rightarrow> bool" where
  "grouped_trade_lt a b \<longleftrightarrow> gt_timestamp a < gt_timestamp b \<or>
     gt_timestamp a = gt_timestamp b \<and> gt_price a < gt_price b"

text \<open>The nearest whole number, ties to even.\<close>

definition grouped_trade_price_int :: "grouped_trade \<Rightarrow> int" where
  "grouped_trade_price_int a = round_even (gt_price a)"

definition price_bin_eq :: "price_bin \<Rightarrow> price_bin \<Rightarrow> bool" where
  "price_bin_eq a b \<longleftrightarrow> pb_timestamp a = pb_timestamp b"

definition price_bin_lt :: "price_bin \<Rightarrow> price_bin \<Rightarrow> bool" where
  "price_bin_lt a b \<longleftrightarrow> pb_timestamp a < pb_timestamp b"

text \<open>All are orders that sorting and priority queues can rely on.\<close>

interpretation message_order: weak_order message_lt
  by unfold_locales (simp_all add: message_lt_def message_priority_def)

interpretation grouped_offer_order: weak_order grouped_offer_lt
  by unfold_locales (simp_all add: grouped_offer_lt_def)

interpretation grouped_trade_order: weak_order grouped_trade_lt
  by unfold_locales (auto simp: grouped_trade_lt_def)

interpretation price_bin_order: weak_order price_bin_lt
  by unfold_locales (simp_all add: price_bin_lt_def)

text \<open>Equality is being neither before nor behind, so that the other comparisons derived from the two agree.\<close>

lemma total_orders:
  "grouped_offer_eq a b \<longleftrightarrow> \<not> grouped_offer_lt a b \<and> \<not> grouped_offer_lt b a"
  "grouped_trade_eq x y \<longleftrightarrow> \<not> grouped_trade_lt x y \<and> \<not> grouped_trade_lt y x"
  "price_bin_eq p q \<longleftrightarrow> \<not> price_bin_lt p q \<and> \<not> price_bin_lt q p"
  by (auto simp: grouped_offer_eq_def grouped_offer_lt_def grouped_trade_eq_def grouped_trade_lt_def
      price_bin_eq_def price_bin_lt_def)

section \<open>Messages as the node was to see them\<close>

text \<open>
  \<open>message_abstrations.py\<close>: what is left of a commitment and of a report without the wire. An attribute that
  the class of the message does not have raises, as does the sender of an unsigned message.
\<close>

record commitment_view =
  cv_amount :: int
  cv_offer :: int
  cv_timeout :: int
  cv_sender :: bytes
  cv_signature :: "bytes option"

definition commitment_from_message :: "crypto \<Rightarrow> message \<Rightarrow> commitment_view res" where
  "commitment_from_message C m =
     (if class_of m \<noteq> C_Commitment then Inl AttributeError
      else bind_res (sender C m) (\<lambda>a. Inr \<lparr>cv_amount = m_amount m, cv_offer = m_offer_id m,
             cv_timeout = m_timeout m, cv_sender = a, cv_signature = m_signature m\<rparr>))"

record execution_view =
  xv_offer_id :: int
  xv_timestamp :: int
  xv_sender :: bytes

definition execution_from_message :: "crypto \<Rightarrow> message \<Rightarrow> execution_view res" where
  "execution_from_message C m =
     (if \<not> is_instance m C_SwapExecution then Inl AttributeError
      else bind_res (sender C m) (\<lambda>a. Inr \<lparr>xv_offer_id = m_offer_id m, xv_timestamp = m_timestamp m,
             xv_sender = a\<rparr>))"

text \<open>Of a commitment that was signed the view names the signer; of one that was not there is no view.\<close>

lemma commitment_view_signed:
  assumes "sign C key \<lparr>content = Commitment i h t n None, is_mutable = True\<rparr> = Inr ob" and "recovers C key a"
  shows "\<exists>g. commitment_from_message C (content ob) =
    Inr \<lparr>cv_amount = n, cv_offer = i, cv_timeout = t, cv_sender = a, cv_signature = Some g\<rparr>"
proof -
  obtain g where "content ob = Commitment i h t n (Some g)"
    using assms(1) by (auto simp: sign_def bind_res_Inr_iff split: if_splits)
  then show ?thesis using signed_recovers [OF assms] by (simp add: commitment_from_message_def)
qed

lemma commitment_view_unsigned:
  "commitment_from_message C (Commitment i h t n None) = Inl SignatureMissingError"
  by (simp add: commitment_from_message_def sender_def)

end
