(* ===== verification/Bots.thy ===== *)
theory Bots
  imports Trades
begin

text \<open>
  The trading bots (\<open>raidex_node/bots.py\<close>): a walker that buys or sells at random, a manipulator that
  pushes the price towards a goal, and a provider of liquidity that keeps offers around the market
  price. A bot works with the node it was given, of which it uses four attributes; what it draws at
  random are arguments. Prices are binary64 numbers: a price is the quotient of amounts below 2 to the
  256, so that no operation here leaves their range.
\<close>

section \<open>The node of a bot\<close>

type_synonym bot_order = "offer_type \<times> int \<times> rat"

text \<open>What \<open>market_price\<close>, \<open>limit_order\<close>, the book and the attribute \<open>amount\<close> of its entries give.\<close>

record bot_node =
  bn_market_price :: "rat option res"
  bn_limit_order :: "bot_order \<Rightarrow> unit res"
  bn_offer_book :: "offer_book res"
  bn_amount :: "book_entry \<Rightarrow> int res"

text \<open>
  \<open>__main__.py\<close> hands over the application, which has none of them. A \<open>RaidexNode\<close> has a market price
  and a book, but no \<open>limit_order\<close>, and the entries of its book have no \<open>amount\<close>.
\<close>

definition app_bot_node :: bot_node where
  "app_bot_node = \<lparr>bn_market_price = Inl AttributeError, bn_limit_order = (\<lambda>_. Inl AttributeError),
     bn_offer_book = Inl AttributeError, bn_amount = (\<lambda>_. Inl AttributeError)\<rparr>"

definition raidex_bot_node :: "trades_view \<Rightarrow> offer_book \<Rightarrow> bot_node" where
  "raidex_bot_node v b = \<lparr>bn_market_price = market_price 20 v, bn_limit_order = (\<lambda>_. Inl AttributeError),
     bn_offer_book = Inr b, bn_amount = (\<lambda>_. Inl AttributeError)\<rparr>"

text \<open>\<open>market_price() or initial_price\<close>; the state is the list of the orders the node has taken.\<close>

definition known_price :: "bot_node \<Rightarrow> rat \<Rightarrow> rat res" where
  "known_price n initial = bind_res (bn_market_price n) (\<lambda>x.
     Inr (case x of None \<Rightarrow> initial | Some p \<Rightarrow> if p = 0 then initial else p))"

definition bot_limit_order :: "bot_node \<Rightarrow> bot_order \<Rightarrow> (bot_order list, unit) prog" where
  "bot_limit_order n x = seq (lift_res (bn_limit_order n x)) (\<lambda>_. modify (\<lambda>xs. xs @ [x]))"

section \<open>The random walker\<close>

definition rw_average_amount :: int where "rw_average_amount = 10 ^ 19"
definition rw_urgency :: rat where "rw_urgency = double (2 / 100)"

definition walker_price :: "offer_type \<Rightarrow> rat \<Rightarrow> rat" where
  "walker_price t market = (let offset = double (market * rw_urgency) in
     if t = BUY then double (market + offset) else double (market - offset))"

definition walker_place_order :: "bot_node \<Rightarrow> rat \<Rightarrow> offer_type \<Rightarrow> (bot_order list, unit) prog" where
  "walker_place_order n initial t = seq (lift_res (known_price n initial)) (\<lambda>market.
     bot_limit_order n (t, rw_average_amount, walker_price t market))"

text \<open>The loop, for the first types it draws.\<close>

definition walker_run :: "bot_node \<Rightarrow> rat \<Rightarrow> offer_type list \<Rightarrow> (bot_order list, unit) prog" where
  "walker_run n initial = for_each (walker_place_order n initial)"

section \<open>The manipulator\<close>

definition mp_order_amount :: int where "mp_order_amount = 2 * 10 ^ 18"
definition mp_overpay :: rat where "mp_overpay = double (2 / 100)"

record manipulator =
  mp_goal :: "rat \<times> rat"
  mp_orders :: "bot_order list"

text \<open>A goal is the price it was set at and the change of price wanted; \<open>draw\<close> is of \<open>normalvariate\<close>.\<close>

definition new_goal :: "bot_node \<Rightarrow> rat \<Rightarrow> rat \<Rightarrow> bool \<Rightarrow> (rat \<times> rat) res" where
  "new_goal n initial draw up = bind_res (known_price n initial) (\<lambda>p.
     let delta = double (p * \<bar>draw\<bar>) in Inr (p, if up then delta else - delta))"

definition new_manipulator :: "bot_node \<Rightarrow> rat \<Rightarrow> rat \<Rightarrow> bool \<Rightarrow> manipulator res" where
  "new_manipulator n initial draw up = bind_res (new_goal n initial draw up) (\<lambda>g.
     Inr \<lparr>mp_goal = g, mp_orders = []\<rparr>)"

definition set_new_goal :: "bot_node \<Rightarrow> rat \<Rightarrow> rat \<Rightarrow> bool \<Rightarrow> (manipulator, unit) prog" where
  "set_new_goal n initial draw up =
     seq (lift_res (new_goal n initial draw up)) (\<lambda>g. modify (\<lambda>m. m\<lparr>mp_goal := g\<rparr>))"

definition is_goal_reached :: "bot_node \<Rightarrow> rat \<Rightarrow> (manipulator, bool) prog" where
  "is_goal_reached n initial = seq (lift_res (known_price n initial)) (\<lambda>p.
     seq (get_state mp_goal) (\<lambda>goal.
       let delta_reached = double (p - fst goal) in
       return ((0 \<le> snd goal \<and> snd goal \<le> delta_reached) \<or> (snd goal < 0 \<and> delta_reached < snd goal))))"

definition manipulator_order :: "rat \<times> rat \<Rightarrow> rat \<Rightarrow> bot_order" where
  "manipulator_order goal market =
     (if 0 \<le> snd goal then (BUY, mp_order_amount, double (market * double (1 + mp_overpay)))
      else (SELL, mp_order_amount, double (market * double (1 - mp_overpay))))"

definition manipulator_place_order :: "bot_node \<Rightarrow> rat \<Rightarrow> (manipulator, unit) prog" where
  "manipulator_place_order n initial = seq (lift_res (known_price n initial)) (\<lambda>market.
     seq (get_state mp_goal) (\<lambda>goal. let x = manipulator_order goal market in
       seq (lift_res (bn_limit_order n x)) (\<lambda>_. modify (\<lambda>m. m\<lparr>mp_orders := mp_orders m @ [x]\<rparr>))))"

definition manipulator_round :: "bot_node \<Rightarrow> rat \<Rightarrow> rat \<times> bool \<Rightarrow> (manipulator, unit) prog" where
  "manipulator_round n initial d = seq (is_goal_reached n initial) (\<lambda>reached.
     seq (if reached then set_new_goal n initial (fst d) (snd d) else return ()) (\<lambda>_.
       manipulator_place_order n initial))"

definition manipulator_run :: "bot_node \<Rightarrow> rat \<Rightarrow> (rat \<times> bool) list \<Rightarrow> (manipulator, unit) prog" where
  "manipulator_run n initial = for_each (manipulator_round n initial)"

section \<open>The liquidity provider\<close>

definition lp_range :: rat where "lp_range = double (5 / 100)"
definition lp_spread :: rat where "lp_spread = double (5 / 1000)"
definition lp_slope :: rat where "lp_slope = double (20 * 10 ^ 18 / double (1 / 100))"
definition lp_homogenity :: rat where "lp_homogenity = double (20 / double (1 / 100))"

definition check_points :: nat where
  "check_points = nat (round_even (double (double (lp_homogenity * double (lp_range - lp_spread)) / 2)))"

definition check_point_distance :: "rat \<Rightarrow> rat" where
  "check_point_distance p = double (double (double (double (lp_range - lp_spread) / 2) * p) / of_nat check_points)"

definition check_point_sell :: "rat \<Rightarrow> nat \<Rightarrow> rat" where
  "check_point_sell p i = double (double (p * double (1 + double (lp_spread / 2))) +
     double (double (of_nat i + 1 / 2) * check_point_distance p))"

definition check_point_buy :: "rat \<Rightarrow> nat \<Rightarrow> rat" where
  "check_point_buy p i = double (double (p * double (1 - double (lp_spread / 2))) -
     double (double (of_nat i + 1 / 2) * check_point_distance p))"

definition calc_checkpoints :: "rat \<Rightarrow> (rat list \<times> rat list) res" where
  "calc_checkpoints p =
     (if \<not> lp_spread < lp_range then Inl AssertionError
      else if check_points = 0 then Inl ZeroDivisionError
      else Inr (map (check_point_sell p) [0..<check_points], map (check_point_buy p) [0..<check_points]))"

definition calc_target_amount :: "rat \<Rightarrow> rat \<Rightarrow> rat res" where
  "calc_target_amount market cp =
     (if market = 0 then Inl ZeroDivisionError
      else let delta = double (\<bar>double (market - cp)\<bar> / market) in
        if delta < double (lp_spread / 2) then Inr 0
        else let delta = min delta (double (lp_range / 2));
                 amount = double (double (delta - double (lp_spread / 2)) * lp_slope)
             in if \<not> 0 \<le> amount then Inl AssertionError else Inr amount)"

text \<open>The sum of the offers between two prices: it ends at the first offer outside.\<close>

fun sum_offers :: "bot_node \<Rightarrow> offer_book \<Rightarrow> rat \<Rightarrow> rat \<Rightarrow> (rat \<times> int) list \<Rightarrow> int res" where
  "sum_offers n b low high [] = Inr 0"
| "sum_offers n b low high (k # ks) =
     (case get_offer_by_id (snd k) b of
        None \<Rightarrow> Inl AttributeError
      | Some e \<Rightarrow> bind_res (e_price e) (\<lambda>p.
          if low \<le> p \<and> p \<le> high
          then bind_res (bn_amount n e) (\<lambda>a. bind_res (sum_offers n b low high ks) (\<lambda>s. Inr (a + s)))
          else Inr 0))"

definition integrate_offers_until :: "bot_node \<Rightarrow> rat \<Rightarrow> rat \<Rightarrow> int res" where
  "integrate_offers_until n market cp = bind_res (bn_offer_book n) (\<lambda>b.
     let ks = (if market \<le> cp then map fst (offer_entries (sells b)) else rev (map fst (offer_entries (buys b))))
     in sum_offers n b (min market cp) (max market cp) ks)"

text \<open>
  The orders of one round, over the check points of the buys and then of the sells; what was planned for
  a type counts as offered at its later check points. \<open>half\<close> is half the distance of two of them.
\<close>

definition plan_price :: "rat \<Rightarrow> offer_type \<Rightarrow> rat \<Rightarrow> rat" where
  "plan_price half t cp = double (cp + half * (if t = BUY then 1 else - 1))"

definition within_range :: "rat \<Rightarrow> rat \<Rightarrow> bool" where
  "within_range p x \<longleftrightarrow> double (1 - double (lp_range / 2)) \<le> double (x / p) \<and>
     double (x / p) \<le> double (1 + double (lp_range / 2))"

fun plan_orders ::
  "bot_node \<Rightarrow> rat \<Rightarrow> rat \<Rightarrow> (offer_type \<times> rat) list \<Rightarrow> (offer_type \<Rightarrow> int) \<Rightarrow> bot_order list res" where
  "plan_orders n p half [] additional = Inr []"
| "plan_orders n p half ((t, cp) # cps) additional =
     bind_res (integrate_offers_until n p cp) (\<lambda>s. let offered = s + additional t in
     bind_res (calc_target_amount p cp) (\<lambda>target.
       if of_int offered < target then
         let amount = round_even (double (target - double (of_int offered)));
             order_price = plan_price half t cp
         in if \<not> \<bar>double (p - order_price)\<bar> < \<bar>double (p - cp)\<bar> then Inl AssertionError
            else if p = 0 then Inl ZeroDivisionError
            else if \<not> within_range p order_price then Inl AssertionError
            else bind_res (plan_orders n p half cps (additional(t := additional t + amount))) (\<lambda>xs.
              Inr ((t, amount, order_price) # xs))
       else plan_orders n p half cps additional))"

definition place_planned :: "bot_node \<Rightarrow> rat \<Rightarrow> bot_order \<Rightarrow> (bot_order list, unit) prog" where
  "place_planned n p x = (case x of (t, amount, order_price) \<Rightarrow>
     if \<not> ((t = BUY \<and> order_price < p) \<or> (t = SELL \<and> p < order_price)) then throw AssertionError
     else if 0 < amount then bot_limit_order n x else return ())"

definition plan_round :: "bot_node \<Rightarrow> rat \<Rightarrow> (rat \<times> bot_order list) res" where
  "plan_round n initial = bind_res (known_price n initial) (\<lambda>p.
     bind_res (calc_checkpoints p) (\<lambda>(cps_sell, cps_buy).
       if length cps_sell < 2 then Inl IndexError
       else bind_res (plan_orders n p (double (double (cps_sell ! 1 - cps_sell ! 0) / 2))
              (map (Pair BUY) cps_buy @ map (Pair SELL) cps_sell) (\<lambda>_. 0)) (\<lambda>xs. Inr (p, xs))))"

definition liquidity_round :: "bot_node \<Rightarrow> rat \<Rightarrow> (bot_order list, unit) prog" where
  "liquidity_round n initial =
     seq (lift_res (plan_round n initial)) (\<lambda>(p, xs). for_each (place_planned n p) xs)"

definition liquidity_run :: "bot_node \<Rightarrow> rat \<Rightarrow> nat \<Rightarrow> (bot_order list, unit) prog" where
  "liquidity_run n initial rounds = for_each (\<lambda>_. liquidity_round n initial) [0..<rounds]"

section \<open>Constants\<close>

lemma check_points_45: "check_points = 45"
  by (simp add: check_points_def lp_homogenity_def lp_range_def lp_spread_def) code_simp

lemma spread_range: "lp_spread < lp_range"
  by code_simp

lemma double_1: "double 1 = 1"
  using double_of_int [of 1] by simp

lemma double_abs: "\<bar>double z\<bar> = double \<bar>z\<bar>"
  using double_nonneg [of z] double_nonneg [of "- z"] by (cases "0 \<le> z") (simp_all add: double_minus abs_if)

lemma mp_overpay_bounds: "0 \<le> mp_overpay" "mp_overpay \<le> 1"
  using double_mono [of "2 / 100" 1] double_1 by (simp_all add: mp_overpay_def double_nonneg)

lemma bot_constants:
  "0 \<le> rw_urgency" "rw_urgency \<le> 1" "1 \<le> double (1 + mp_overpay)" "double (1 - mp_overpay) \<le> 1"
  "0 \<le> double (1 - mp_overpay)" "0 \<le> lp_slope" "double (lp_spread / 2) \<le> double (lp_range / 2)"
  "0 \<le> double (lp_spread / 2)"
  using double_mono [of "2 / 100" 1] double_1 double_mono [of 1 "1 + mp_overpay"] double_mono [of "1 - mp_overpay" 1]
    mp_overpay_bounds spread_range
  by (auto simp: rw_urgency_def lp_slope_def lp_spread_def intro!: double_nonneg double_mono)

section \<open>Prices of the walker and the manipulator\<close>

text \<open>The walker pays at least the market price and asks for at most it, but never for less than nothing.\<close>

lemma walker_price_side:
  assumes "double market = market" and "0 \<le> market"
  shows "market \<le> walker_price BUY market" "walker_price SELL market \<le> market" "0 \<le> walker_price SELL market"
proof -
  let ?offset = "double (market * rw_urgency)"
  have nonneg: "0 \<le> ?offset" using assms(2) bot_constants(1) by (intro double_nonneg) simp
  have "?offset \<le> double market" using assms(2) bot_constants(1,2) by (intro double_mono mult_right_le_one_le)
  then have le: "?offset \<le> market" using assms(1) by simp
  have "double market \<le> double (market + ?offset)" "double (market - ?offset) \<le> double market"
    using nonneg by (auto intro: double_mono)
  then show "market \<le> walker_price BUY market" "walker_price SELL market \<le> market"
    using assms(1) by (simp_all add: walker_price_def Let_def)
  show "0 \<le> walker_price SELL market"
    using le by (simp add: walker_price_def Let_def double_nonneg)
qed

lemma manipulator_price_side:
  assumes "double market = market" and "0 \<le> market" and "manipulator_order goal market = (t, amount, x)"
  shows "t = BUY \<and> 0 \<le> snd goal \<and> market \<le> x \<or> t = SELL \<and> snd goal < 0 \<and> 0 \<le> x \<and> x \<le> market"
proof (cases "0 \<le> snd goal")
  case True
  have "double (market * 1) \<le> double (market * double (1 + mp_overpay))"
    using assms(2) bot_constants(3) by (intro double_mono mult_left_mono)
  then show ?thesis using True assms(1,3) by (auto simp: manipulator_order_def)
next
  case False
  have "double (market * double (1 - mp_overpay)) \<le> double (market * 1)"
    using assms(2) bot_constants(4) by (intro double_mono mult_left_mono)
  moreover have "0 \<le> double (market * double (1 - mp_overpay))"
    using assms(2) bot_constants(5) by (intro double_nonneg) simp
  ultimately show ?thesis using False assms(1,3) by (auto simp: manipulator_order_def)
qed

section \<open>Targets and check points\<close>

text \<open>
  The assertion never fails: targets are not negative. They grow with the distance from the market
  price, from nothing inside the spread to a greatest target.
\<close>

definition target_of :: "rat \<Rightarrow> rat" where
  "target_of delta = (if delta < double (lp_spread / 2) then 0
     else double (double (min delta (double (lp_range / 2)) - double (lp_spread / 2)) * lp_slope))"

lemma target_of_nonneg: "0 \<le> target_of delta"
  using bot_constants(6,7) by (auto simp: target_of_def intro!: double_nonneg mult_nonneg_nonneg)

lemma target_of_mono: "d \<le> e \<Longrightarrow> target_of d \<le> target_of e"
  using target_of_nonneg [of e] bot_constants(6)
  by (auto simp: target_of_def intro!: double_mono mult_right_mono)

lemma target_eq:
  assumes "market \<noteq> 0"
  shows "calc_target_amount market cp = Inr (target_of (double (\<bar>double (market - cp)\<bar> / market)))"
proof -
  let ?d = "double (\<bar>double (market - cp)\<bar> / market)"
  have "0 \<le> double (double (min ?d (double (lp_range / 2)) - double (lp_spread / 2)) * lp_slope)"
    if "\<not> ?d < double (lp_spread / 2)"
    using target_of_nonneg [of ?d] that by (simp only: target_of_def if_False)
  then show ?thesis
    using assms by (simp add: calc_target_amount_def target_of_def Let_def)
qed

lemma target_monotone:
  assumes "0 < market" and "\<bar>market - a\<bar> \<le> \<bar>market - b\<bar>"
  shows "\<exists>x y. calc_target_amount market a = Inr x \<and> calc_target_amount market b = Inr y \<and> 0 \<le> x \<and> x \<le> y"
proof -
  have "double (\<bar>double (market - a)\<bar> / market) \<le> double (\<bar>double (market - b)\<bar> / market)"
    using assms by (intro double_mono divide_right_mono) (simp_all add: double_abs double_mono)
  then show ?thesis
    using assms(1) target_of_mono target_of_nonneg by (simp add: target_eq)
qed

text \<open>Check points move away from the market price, in order.\<close>

lemma check_point_distance_nonneg: "0 \<le> p \<Longrightarrow> 0 \<le> check_point_distance p"
proof -
  assume "0 \<le> p"
  moreover have "0 \<le> double (lp_range - lp_spread)" using spread_range by (intro double_nonneg) simp
  then have "0 \<le> double (double (lp_range - lp_spread) / 2)" by (intro double_nonneg) simp
  ultimately show ?thesis by (auto simp: check_point_distance_def intro!: double_nonneg divide_nonneg_nonneg)
qed

lemma check_points_ordered:
  assumes "0 \<le> p" and "i \<le> j"
  shows "check_point_sell p i \<le> check_point_sell p j" "check_point_buy p j \<le> check_point_buy p i"
proof -
  have "double (double (of_nat i + 1 / 2) * check_point_distance p) \<le> double (double (of_nat j + 1 / 2) * check_point_distance p)"
    using assms check_point_distance_nonneg [OF assms(1)] by (intro double_mono mult_right_mono) simp_all
  then show "check_point_sell p i \<le> check_point_sell p j" "check_point_buy p j \<le> check_point_buy p i"
    by (auto simp: check_point_sell_def check_point_buy_def intro!: double_mono)
qed

section \<open>Plans\<close>

text \<open>A planned order comes from a check point of its type and lies nearer to the market price.\<close>

definition planned_from :: "rat \<Rightarrow> rat \<Rightarrow> (offer_type \<times> rat) list \<Rightarrow> bot_order \<Rightarrow> bool" where
  "planned_from p half cps x \<longleftrightarrow> (case x of (t, amount, q) \<Rightarrow> within_range p q \<and>
     (\<exists>cp. (t, cp) \<in> set cps \<and> q = plan_price half t cp \<and> \<bar>double (p - q)\<bar> < \<bar>double (p - cp)\<bar>))"

lemma planned_from_mono: "planned_from p half cps x \<Longrightarrow> planned_from p half (c # cps) x"
  by (auto simp: planned_from_def)

lemma plan_orders_ok:
  "plan_orders n p half cps additional = Inr xs \<Longrightarrow> length xs \<le> length cps \<and> list_all (planned_from p half cps) xs"
proof (induction cps arbitrary: additional xs)
  case (Cons c cps)
  obtain t cp where c: "c = (t, cp)" by (cases c)
  have more: "length ys \<le> length cps \<and> list_all (planned_from p half (c # cps)) ys"
    if "plan_orders n p half cps add = Inr ys" for add ys
    using Cons.IH [OF that] planned_from_mono [of p half cps _ c] by (auto simp: list_all_iff)
  from Cons.prems obtain s target where st: "integrate_offers_until n p cp = Inr s"
      "calc_target_amount p cp = Inr target"
    by (auto simp: c bind_res_Inr_iff Let_def)
  show ?case
  proof (cases "of_int (s + additional t) < target")
    case False
    then show ?thesis using Cons.prems st more by (fastforce simp: c)
  next
    case True
    let ?amount = "round_even (double (target - double (of_int (s + additional t))))"
    let ?q = "plan_price half t cp"
    from Cons.prems obtain ys where ys: "plan_orders n p half cps (additional(t := additional t + ?amount)) = Inr ys"
        "xs = (t, ?amount, ?q) # ys" "within_range p ?q" "\<bar>double (p - ?q)\<bar> < \<bar>double (p - cp)\<bar>"
      using True st by (simp add: c bind_res_Inr_iff Let_def split: if_splits) blast
    then have "planned_from p half (c # cps) (t, ?amount, ?q)" by (auto simp: planned_from_def c)
    then show ?thesis using more [OF ys(1)] ys(2) by simp
  qed
qed simp

section \<open>Rounds of the liquidity provider\<close>

text \<open>What a bot has placed: buys below and sells above the market price, of positive amounts.\<close>

definition sensible :: "rat \<Rightarrow> bot_order \<Rightarrow> bool" where
  "sensible p x \<longleftrightarrow> (case x of (t, amount, q) \<Rightarrow>
     0 < amount \<and> within_range p q \<and> (t = BUY \<and> q < p \<or> t = SELL \<and> p < q))"

lemma bot_order_adds: "snd (bot_limit_order n x xs) = xs \<or> snd (bot_limit_order n x xs) = xs @ [x]"
  by (cases "bn_limit_order n x") (simp_all add: bot_limit_order_def prog_simps seq_def lift_res_def modify_def)

lemma place_planned_sensible:
  assumes "planned_from p half cps x" shows "preserves (list_all (sensible p)) (place_planned n p x)"
proof -
  obtain t amount q where x: "x = (t, amount, q)" by (cases x)
  have "list_all (sensible p) (snd (place_planned n p x xs))" if "list_all (sensible p) xs" for xs
    using that bot_order_adds [of n x xs] assms
    by (auto simp: place_planned_def x planned_from_def sensible_def throw_def return_def)
  then show ?thesis by (simp add: preserves_def)
qed

lemma for_each_on:
  "(\<And>x. x \<in> set xs \<Longrightarrow> preserves I (b x)) \<Longrightarrow> preserves I (for_each b xs)"
  by (induction xs) (auto intro: preserves_intros)

lemma plan_round_ok:
  assumes "plan_round n initial = Inr (p, xs)"
  shows "known_price n initial = Inr p" "\<exists>half cps. list_all (planned_from p half cps) xs"
  using assms plan_orders_ok by (auto simp: plan_round_def bind_res_Inr_iff split: if_splits prod.splits) blast

lemma liquidity_round_sensible:
  assumes "known_price n initial = Inr p"
  shows "preserves (list_all (sensible p)) (liquidity_round n initial)"
proof (cases "plan_round n initial")
  case (Inl e)
  then show ?thesis by (simp add: liquidity_round_def lift_res_def preserves_def seq_def)
next
  case (Inr r)
  obtain q xs where r: "r = (q, xs)" by (cases r)
  then have p: "q = p" using plan_round_ok(1) [of n initial q xs] Inr assms by simp
  obtain half cps where "list_all (planned_from p half cps) xs" using plan_round_ok(2) [of n initial q xs] Inr r p by auto
  then have "preserves (list_all (sensible p)) (for_each (place_planned n p) xs)"
    by (intro for_each_on place_planned_sensible) (auto simp: list_all_iff)
  then show ?thesis using Inr by (simp add: liquidity_round_def lift_res_def preserves_def seq_def r p)
qed

lemma liquidity_orders_sensible:
  assumes "known_price n initial = Inr p"
  shows "list_all (sensible p) (snd (liquidity_run n initial rounds []))"
proof -
  have "preserves (list_all (sensible p)) (liquidity_run n initial rounds)"
    unfolding liquidity_run_def by (rule preserves_for_each) (rule liquidity_round_sensible [OF assms])
  then show ?thesis by (simp add: preserves_def)
qed

section \<open>The bots and the program\<close>

text \<open>With a node that has no \<open>limit_order\<close> no bot ever places an order.\<close>

lemma no_limit_order:
  assumes "\<And>x. bn_limit_order n x = Inl AttributeError"
  shows "snd (walker_run n initial ts xs) = xs" "snd (liquidity_run n initial rounds xs) = xs"
    "mp_orders (snd (manipulator_run n initial ds m)) = mp_orders m"
proof -
  have idle: "bot_limit_order n x = throw AttributeError" for x
    using assms by (simp add: bot_limit_order_def lift_res_def seq_def throw_def fun_eq_iff)
  have "preserves (\<lambda>s. s = xs) (walker_run n initial ts)"
    unfolding walker_run_def walker_place_order_def idle by (intro preserves_intros)
  then show "snd (walker_run n initial ts xs) = xs" by (simp add: preserves_def)
  have "preserves (\<lambda>s. s = xs) (place_planned n p x)" for p x
    by (cases x) (auto simp: place_planned_def idle preserves_def throw_def return_def)
  then have "preserves (\<lambda>s. s = xs) (liquidity_run n initial rounds)"
    unfolding liquidity_run_def liquidity_round_def by (auto intro!: preserves_intros split: prod.split)
  then show "snd (liquidity_run n initial rounds xs) = xs" by (simp add: preserves_def)
  let ?I = "\<lambda>s. mp_orders s = mp_orders m"
  have raises: "seq (lift_res (Inl e)) f = throw e" for e and f :: "unit \<Rightarrow> (manipulator, unit) prog"
    by (simp add: lift_res_def seq_def throw_def fun_eq_iff)
  have goal: "preserves ?I (modify (\<lambda>m. m\<lparr>mp_goal := g\<rparr>))" for g by (rule preserves_modify) simp
  have "preserves ?I (manipulator_run n initial ds)"
    unfolding manipulator_run_def manipulator_round_def is_goal_reached_def set_new_goal_def
      manipulator_place_order_def assms Let_def raises
    by (intro preserves_intros goal)
  then show "mp_orders (snd (manipulator_run n initial ds m)) = mp_orders m" by (simp add: preserves_def)
qed

text \<open>Neither the application, which the command line hands to the bots, nor its node takes their orders; with
  the application the first question for the market price raises, for the manipulator when it is built.\<close>

lemma bots_place_nothing:
  assumes "n = app_bot_node \<or> n = raidex_bot_node v b"
  shows "snd (walker_run n initial ts []) = []" "snd (liquidity_run n initial rounds []) = []"
    "new_manipulator n initial draw up = Inr m \<Longrightarrow> mp_orders (snd (manipulator_run n initial ds m)) = []"
proof -
  have "bn_limit_order n x = Inl AttributeError" for x
    using assms by (auto simp: app_bot_node_def raidex_bot_node_def)
  note idle = no_limit_order [OF this]
  show "snd (walker_run n initial ts []) = []" "snd (liquidity_run n initial rounds []) = []"
    using idle(1,2) [of initial _ "[]"] by simp_all
  assume "new_manipulator n initial draw up = Inr m"
  then have "mp_orders m = []" by (auto simp: new_manipulator_def bind_res_Inr_iff)
  then show "mp_orders (snd (manipulator_run n initial ds m)) = []" using idle(3) by simp
qed

lemma bots_of_app_raise:
  "walker_run app_bot_node initial (t # ts) xs = (Inl AttributeError, xs)"
  "new_manipulator app_bot_node initial draw up = Inl AttributeError"
  "liquidity_round app_bot_node initial xs = (Inl AttributeError, xs)"
  by (simp_all add: walker_run_def walker_place_order_def known_price_def app_bot_node_def lift_res_def seq_def
      new_manipulator_def new_goal_def liquidity_round_def plan_round_def)

end
