(* ===== verification/Raidex_Node.thy ===== *)
theory Raidex_Node
  imports Rest Bots
begin

text \<open>
  The node as an object (\<open>raidex_node/raidex_node.py\<close>): what it is built from, its queries and its
  statistics. What its handlers of state changes work on is the state \<open>node\<close>; the book and the trades of
  the queries are shared with the tasks that listen. The dictionary of the tasks of user orders is left
  from an earlier design: nothing puts a task into it.
\<close>

section \<open>The object\<close>

text \<open>A task of an order: its id, and the value it has, if it is ready and did not raise.\<close>

record order_task =
  ot_order_id :: int
  ot_value :: "bool option res"

record raidex_node =
  rn_address :: bytes
  rn_token_pair :: token_pair
  rn_default_offer_lifetime :: int
  rn_trades_view :: trades_view
  rn_order_tasks :: "(int, order_task) dict"
  rn_user_order_tasks :: "(int, order_task) dict"
  rn_successful :: nat
  rn_unsuccessful :: nat
  rn_max_open :: nat
  rn_data :: node

definition mk_raidex_node :: "bytes \<Rightarrow> token_pair \<Rightarrow> raidex_node" where
  "mk_raidex_node address market =
     \<lparr>rn_address = address, rn_token_pair = market, rn_default_offer_lifetime = 30,
      rn_trades_view = empty_trades, rn_order_tasks = [], rn_user_order_tasks = [], rn_successful = 0,
      rn_unsuccessful = 0, rn_max_open = 0, rn_data = start_node\<rparr>"

section \<open>Statistics of finished orders\<close>

text \<open>A task that returned True was successful, one that returned False was not; others are not counted.\<close>

definition process_finished_limit_order :: "order_task \<Rightarrow> (raidex_node, order_task option) prog" where
  "process_finished_limit_order t =
     seq (lift_res (ot_value t)) (\<lambda>value.
     seq (modify (\<lambda>s. case value of
       Some True \<Rightarrow> s\<lparr>rn_successful := rn_successful s + 1\<rparr>
     | Some False \<Rightarrow> s\<lparr>rn_unsuccessful := rn_unsuccessful s + 1\<rparr>
     | None \<Rightarrow> s)) (\<lambda>_.
     seq (get_state (\<lambda>s. dict_get (ot_order_id t) (rn_user_order_tasks s))) (\<lambda>task.
     seq (modify (\<lambda>s. s\<lparr>rn_user_order_tasks := dict_del (ot_order_id t) (rn_user_order_tasks s)\<rparr>)) (\<lambda>_.
     return task))))"

definition finished_orders :: "raidex_node \<Rightarrow> nat" where
  "finished_orders s = rn_successful s + rn_unsuccessful s"

section \<open>Queries\<close>

definition get_open_orders :: "node \<Rightarrow> limit_order list" where
  "get_open_orders s = filter (\<lambda>od. order_open od s) (dict_values (orders s))"

definition open_orders :: "raidex_node \<Rightarrow> limit_order list" where
  "open_orders s = get_open_orders (rn_data s)"

definition initiated_orders :: "raidex_node \<Rightarrow> limit_order list" where
  "initiated_orders s = dict_values (orders (rn_data s))"

definition limit_orders :: "raidex_node \<Rightarrow> unit res" where
  "limit_orders s = Inl NotImplementedError"

text \<open>\<open>cancel\<close> is the method of a task.\<close>

definition cancel_limit_order :: "(order_task \<Rightarrow> (raidex_node, unit) prog) \<Rightarrow> int \<Rightarrow> (raidex_node, unit) prog" where
  "cancel_limit_order cancel order_id =
     seq (get_state (\<lambda>s. dict_item order_id (rn_user_order_tasks s))) (\<lambda>x.
     seq (lift_res x) cancel)"

definition node_buys :: "raidex_node \<Rightarrow> book_entry list" where
  "node_buys s = view_values (buys (book (rn_data s)))"

definition node_sells :: "raidex_node \<Rightarrow> book_entry list" where
  "node_sells s = view_values (sells (book (rn_data s)))"

definition node_trades :: "int option \<Rightarrow> raidex_node \<Rightarrow> trade list res" where
  "node_trades from_timestamp s = view_trades from_timestamp None (rn_trades_view s)"

definition get_channels :: "raidex_node \<Rightarrow> string" where
  "get_channels s = channels (rn_data s)"

definition commitment_service_address :: string where
  "commitment_service_address = ''0xEDC5f296a70096EB49f55681237437cbd249217A''"

section \<open>What the queries and the statistics say\<close>

text \<open>
  An order is listed as open exactly when the interface accepts its cancellation.
\<close>

lemma open_order_cancelable:
  assumes "dict_wf (orders (rn_data s))"
  shows "od \<in> set (open_orders s) \<longleftrightarrow> (\<exists>i. dict_get i (orders (rn_data s)) = Some od \<and>
    on_api_call rnd (CancelLimitOrder (Some i)) (rn_data s) = Inr (Some i, [CancelLimitOrderStateChange (Some i)]))"
  using dict_values_set_iff [OF assms, of od]
  by (auto simp: open_orders_def get_open_orders_def on_api_call_def required_def split: if_splits)

lemma open_orders_initiated: "set (open_orders s) \<subseteq> set (initiated_orders s)"
  by (auto simp: open_orders_def get_open_orders_def initiated_orders_def)

text \<open>The groups of the interface hold all offers the node lists.\<close>

lemma grouped_queries:
  "grouped_buys (book (rn_data s)) = group_offers None (node_buys s)"
  "grouped_sells (book (rn_data s)) = group_offers None (node_sells s)"
  by (simp_all add: grouped_buys_def grouped_sells_def node_buys_def node_sells_def)

text \<open>A task that ends counts once at most, whatever it returns, and is forgotten unless its value is not there.\<close>

lemma finished_counts:
  "process_finished_limit_order t s =
    (case ot_value t of
       Inl e \<Rightarrow> (Inl e, s)
     | Inr value \<Rightarrow> (Inr (dict_get (ot_order_id t) (rn_user_order_tasks s)),
         s\<lparr>rn_successful := rn_successful s + (if value = Some True then 1 else 0),
           rn_unsuccessful := rn_unsuccessful s + (if value = Some False then 1 else 0),
           rn_user_order_tasks := dict_del (ot_order_id t) (rn_user_order_tasks s)\<rparr>))"
  by (simp add: process_finished_limit_order_def prog_simps seq_def lift_res_def modify_def get_state_def return_def
      split: sum.split option.split bool.split)

text \<open>The runs of a node: state changes go to its data, tasks that end to its statistics.\<close>

inductive raidex_node_step :: "raidex_node \<Rightarrow> raidex_node \<Rightarrow> bool" where
  rn_change: "node_step (rn_data s) n \<Longrightarrow> raidex_node_step s (s\<lparr>rn_data := n\<rparr>)"
| rn_finished: "raidex_node_step s (snd (process_finished_limit_order t s))"
| rn_trade: "raidex_node_step s (s\<lparr>rn_trades_view := v\<rparr>)"

definition raidex_node_ok :: "raidex_node \<Rightarrow> bool" where
  "raidex_node_ok s \<longleftrightarrow> node_ok (rn_data s) \<and> rn_order_tasks s = [] \<and> rn_user_order_tasks s = []"

interpretation raidex_node_system: step_system "mk_raidex_node address market" raidex_node_step raidex_node_ok
  for address market
proof unfold_locales
  show "raidex_node_ok (mk_raidex_node address market)"
    using node_ok_start by (simp add: raidex_node_ok_def mk_raidex_node_def)
  show "raidex_node_ok t" if "raidex_node_step s t" "raidex_node_ok s" for s t
    using that
  proof (cases rule: raidex_node_step.cases)
    case (rn_change n)
    then show ?thesis using node_system.inv_step that(2) by (simp add: raidex_node_ok_def)
  next
    case (rn_finished t)
    then show ?thesis using that(2)
      by (simp add: finished_counts raidex_node_ok_def dict_del_def split: sum.split)
  qed (simp add: raidex_node_ok_def)
qed

text \<open>No order can be canceled by \<open>cancel_limit_order\<close>: it raises KeyError for every id in every run.\<close>

lemma cancel_limit_order_fails:
  assumes "reachable_from raidex_node_step (mk_raidex_node address market) s"
  shows "cancel_limit_order cancel i s = (Inl KeyError, s)"
  using raidex_node_system.inv_reachable [OF assms]
  by (simp add: raidex_node_ok_def cancel_limit_order_def seq_def get_state_def lift_res_def dict_item_def dict_get_def)

section \<open>The bots with such a node\<close>

text \<open>
  \<open>cancel_unattractive_orders\<close> of the liquidity provider, which its loop does not call: it cancels the tasks of
  orders whose price lies outside the range around the market price. The node has no such tasks.
\<close>

definition unattractive :: "rat \<Rightarrow> rat \<Rightarrow> bool" where
  "unattractive market x \<longleftrightarrow> x < double (market * double (1 - double (lp_range / 2))) \<or>
     double (market * double (1 + double (lp_range / 2))) < x"

definition cancel_unattractive_orders ::
  "(order_task \<Rightarrow> rat) \<Rightarrow> (order_task \<Rightarrow> (raidex_node, unit) prog) \<Rightarrow> rat \<Rightarrow> (raidex_node, nat) prog" where
  "cancel_unattractive_orders price_of cancel market =
     seq (get_state (\<lambda>s. filter (\<lambda>t. unattractive market (price_of t)) (dict_values (rn_order_tasks s)))) (\<lambda>ts.
     seq (for_each cancel ts) (\<lambda>_. return (length ts)))"

lemma nothing_unattractive:
  assumes "reachable_from raidex_node_step (mk_raidex_node address market) s"
  shows "cancel_unattractive_orders price_of cancel p s = (Inr 0, s)"
  using raidex_node_system.inv_reachable [OF assms]
  by (simp add: raidex_node_ok_def cancel_unattractive_orders_def seq_def get_state_def return_def dict_values_def)

text \<open>As soon as the book has an offer in the range asked for, the sum over it raises.\<close>

lemma integrate_raises:
  assumes "get_offer_by_id (snd k) b = Some e" and "e_price e = Inr q" and "low \<le> q" and "q \<le> high"
  shows "sum_offers (raidex_bot_node v b) b low high (k # ks) = Inl AttributeError"
  using assms by (simp add: raidex_bot_node_def)

text \<open>Without a trade to look at, the price the bots work with is the initial price; else the query raises.\<close>

lemma bot_price_of_node:
  assumes "view_trades (Some 20) None (rn_trades_view s) = Inr []"
  shows "known_price (raidex_bot_node (rn_trades_view s) (book (rn_data s))) initial = Inr initial"
  using assms by (simp add: known_price_def raidex_bot_node_def market_price_def last_reversed_def)

end
