(* ===== verification/Command_Line.thy ===== *)
theory Command_Line
  imports Setup Raidex_Node
begin

text \<open>
  The programs (\<open>raidex/__main__.py\<close> and \<open>commitment_service/__main__.py\<close>) after their arguments have been
  parsed: which application is built, what is started, and which bots.
\<close>

section \<open>The node\<close>

text \<open>Key and password files are given by what they hold.\<close>

record main_args =
  ma_mock_networking :: bool
  ma_mock :: bool
  ma_seed :: string
  ma_keyfile :: "string option"
  ma_pwfile :: "string option"
  ma_api :: bool
  ma_api_port :: int
  ma_offer_lifetime :: int
  ma_bots :: "string list option"
  ma_token_address :: address_form

definition cs_address :: address_form where
  "cs_address = Addr_text ''0xEDC5f296a70096EB49f55681237437cbd249217A''"

definition weth_address :: address_form where
  "weth_address = Addr_text ''0xB4FBF271143F4FBf7B91A5ded31805e42b2208d6''"

text \<open>
  With \<open>--mock-networking\<close> the service is built first, with the broker in the place of its key file and
  without a password file (\<open>broker_file\<close> is what the broker would be read as); this raises, so that the rest,
  an argument, is never reached. Otherwise the application is built from the key file and the token.
\<close>

definition main_app ::
  "crypto \<Rightarrow> key_tools \<Rightarrow> wire \<Rightarrow> encoders \<Rightarrow> address_tools \<Rightarrow> bytes \<Rightarrow> string \<Rightarrow> (service_parts \<Rightarrow> app res) \<Rightarrow>
     main_args \<Rightarrow> app res" where
  "main_app C K W E A drawn broker_file rest args =
     (if ma_mock_networking args
      then bind_res (build_service K W broker_file None) rest
      else build_default_from_config C K W E A drawn (ma_keyfile args) (ma_pwfile args) None cs_address
             (ma_token_address args) weth_address (Some (ma_offer_lifetime args)))"

text \<open>The bots that are started, in order; building a manipulator asks the application for the market price.\<close>

datatype bot_kind = Liquidity_provider | Random_walker | Manipulator_bot manipulator

definition initial_price :: rat where
  "initial_price = 100"

definition main_bots :: "bot_node \<Rightarrow> rat \<Rightarrow> bool \<Rightarrow> main_args \<Rightarrow> (bot_kind list, unit) prog" where
  "main_bots n draw up args =
     (case ma_bots args of
        None \<Rightarrow> return ()
      | Some bots \<Rightarrow>
          seq (if ''liquidity'' \<in> set bots then modify (\<lambda>xs. xs @ [Liquidity_provider]) else return ()) (\<lambda>_.
          seq (if ''random'' \<in> set bots then modify (\<lambda>xs. xs @ [Random_walker]) else return ()) (\<lambda>_.
          if ''maniplulator'' \<in> set bots
          then seq (lift_res (new_manipulator n initial_price draw up)) (\<lambda>m.
                 modify (\<lambda>xs. xs @ [Manipulator_bot m]))
          else return ())))"

text \<open>\<open>main\<close>: the application is started, then the interface, on its port, and the bots.\<close>

record main_state =
  mn_app :: "app option"
  mn_api_port :: "int option"
  mn_bots :: "bot_kind list"

definition raidex_main ::
  "(main_args \<Rightarrow> app res) \<Rightarrow> rat \<Rightarrow> bool \<Rightarrow> main_args \<Rightarrow> (main_state, unit) prog" where
  "raidex_main build draw up args =
     seq (lift_res (build args)) (\<lambda>a.
     seq (modify (\<lambda>s. s\<lparr>mn_app := Some a\<rparr>)) (\<lambda>_.
     seq (if ma_api args then modify (\<lambda>s. s\<lparr>mn_api_port := Some (ma_api_port args)\<rparr>) else return ()) (\<lambda>_.
     (\<lambda>s. case main_bots app_bot_node draw up args (mn_bots s) of (r, xs) \<Rightarrow> (r, s\<lparr>mn_bots := xs\<rparr>)))))"

text \<open>With a mocked network the program ends with AttributeError before anything is started.\<close>

lemma mock_networking_fails:
  assumes "ma_mock_networking args"
  shows "raidex_main (main_app C K W E A drawn f g) draw up args s = (Inl AttributeError, s)"
  using assms by (simp add: raidex_main_def main_app_def build_service_def seq_def lift_res_def)

text \<open>The seed of the command line has no effect.\<close>

lemma seed_ignored: "main_app C K W E A drawn f g (args\<lparr>ma_seed := x\<rparr>) = main_app C K W E A drawn f g args"
  by (simp add: main_app_def)

text \<open>The manipulator cannot be started: its documented name is not recognised, and the misspelt one ends the program.\<close>

lemma manipulator_not_started:
  "main_bots app_bot_node draw up (args\<lparr>ma_bots := Some [''manipulator'']\<rparr>) xs = (Inr (), xs)"
  "main_bots app_bot_node draw up (args\<lparr>ma_bots := Some [''maniplulator'']\<rparr>) xs = (Inl AttributeError, xs)"
  using bots_of_app_raise(2) by (simp_all add: main_bots_def prog_simps lift_res_def seq_def return_def)

lemma no_manipulator: "Manipulator_bot m \<notin> set xs \<Longrightarrow> Manipulator_bot m \<notin> set (snd (main_bots app_bot_node draw up args xs))"
  using bots_of_app_raise(2) [of initial_price draw up]
  by (auto simp: main_bots_def seq_def return_def modify_def lift_res_def split: option.split)

text \<open>What the bots that are started do in the application: nothing.\<close>

fun bot_orders :: "bot_kind \<Rightarrow> nat \<Rightarrow> offer_type list \<Rightarrow> (rat \<times> bool) list \<Rightarrow> bot_order list" where
  "bot_orders Liquidity_provider rounds ts ds = snd (liquidity_run app_bot_node initial_price rounds [])"
| "bot_orders Random_walker rounds ts ds = snd (walker_run app_bot_node initial_price ts [])"
| "bot_orders (Manipulator_bot m) rounds ts ds = mp_orders (snd (manipulator_run app_bot_node initial_price ds m))"

lemma started_bots_idle:
  assumes "snd (main_bots app_bot_node draw up args []) = bots" and "x \<in> set bots"
  shows "bot_orders x rounds ts ds = []"
  using no_manipulator [of _ "[]" draw up args] assms bots_place_nothing(1,2) [of app_bot_node]
  by (cases x) auto

section \<open>The service\<close>

text \<open>The service is built from its key file; the fee rate of the command line is replaced by nothing.\<close>

record service_args =
  sa_keyfile :: string
  sa_pwfile :: string
  sa_fee_rate :: "rat option"

record service_main =
  sm_parts :: service_parts
  sm_fee_rate :: rat

definition commitment_service_main :: "key_tools \<Rightarrow> wire \<Rightarrow> service_args \<Rightarrow> service_main res" where
  "commitment_service_main K W args =
     bind_res (build_service K W (sa_keyfile args) (Some (sa_pwfile args))) (\<lambda>parts.
     Inr \<lparr>sm_parts = parts, sm_fee_rate = 0\<rparr>)"

lemma fee_rate_ignored:
  "commitment_service_main K W args = Inr x \<Longrightarrow> sm_fee_rate x = 0"
  "commitment_service_main K W (args\<lparr>sa_fee_rate := r\<rparr>) = commitment_service_main K W args"
  by (auto simp: commitment_service_main_def bind_res_Inr_iff)

end
