(* ===== verification/Service_Trade.thy ===== *)
theory Service_Trade
  imports Service_Properties
begin

text \<open>
  A whole swap at the commitment service: what the four tasks that listen (\<open>commitment_service/tasks.py\<close>,
  \<open>listener_tasks.py\<close>: \<open>ListenerTask._run\<close>) make of the commitments, deposits and reports of
  the two parties.
\<close>

section \<open>The inputs of the service\<close>

datatype service_input =
    Heard_commitment bytes message
  | Heard_cancellation message
  | Heard_execution message
  | Got_transfer transfer_receipt

fun service_process :: "crypto \<Rightarrow> datetime \<times> service_input \<Rightarrow> (cs, unit) prog" where
  "service_process C (now, Heard_commitment secret m) = commitment_process C now secret m"
| "service_process C (now, Heard_cancellation m) = cancellation_request_process C now m"
| "service_process C (now, Heard_execution m) = swap_execution_process C now m"
| "service_process C (now, Got_transfer rc) = transfer_received_process C now rc"

text \<open>An input for a swap that runs is handed to it.\<close>

lemma process_known:
  assumes "dict_get i (swaps s) = Some r"
  shows "class_of m = C_Commitment \<Longrightarrow> m_offer_id m = i \<Longrightarrow> hand_taker_commitment_msg C now m r s = (Inr b, t) \<Longrightarrow>
      service_process C (now, Heard_commitment sec m) s = (Inr (), t)"
    and "class_of m = C_SwapExecution \<Longrightarrow> m_offer_id m = i \<Longrightarrow> hand_swap_execution_msg C now m r s = (Inr b, t) \<Longrightarrow>
      service_process C (now, Heard_execution m) s = (Inr (), t)"
    and "tr_identifier rc = i \<Longrightarrow> hand_transfer_receipt C now rc r s = (Inr b, t) \<Longrightarrow>
      service_process C (now, Got_transfer rc) s = (Inr (), t)"
  using assms
  by (auto simp: commitment_known seq_unit swap_execution_process_def transfer_received_process_def
      has_offer_id_def is_instance_def seq_Inr [OF get_state_apply])

lemma for_each_step: "b x s = (Inr (), t) \<Longrightarrow> for_each b (x # xs) s = for_each b xs t"
  by (simp add: seq_apply)

lemma for_each_two:
  "b x s = (Inr (), t) \<Longrightarrow> b y t = (Inr (), u) \<Longrightarrow> for_each b [x, y] s = (Inr (), u)"
  by (simp add: seq_apply return_def)

section \<open>Two commitments with their deposits\<close>

text \<open>The parties of a swap: their commitments, deposits and what the service will send them.\<close>

definition commits_to :: "crypto \<Rightarrow> int \<Rightarrow> bytes \<Rightarrow> message \<Rightarrow> transfer_receipt \<Rightarrow> bool" where
  "commits_to C i a m rc \<longleftrightarrow> class_of m = C_Commitment \<and> m_offer_id m = i \<and> sender C m = Inr a \<and>
     tr_initiator rc = a \<and> tr_identifier rc = i"

definition proof_for :: "crypto \<Rightarrow> bytes \<Rightarrow> int \<Rightarrow> message \<Rightarrow> message" where
  "proof_for C secret i m = CommitmentProof (m_signature m) secret (keccak C secret) i None"

definition trade_swap ::
  "crypto \<Rightarrow> bytes \<Rightarrow> int \<Rightarrow> message \<Rightarrow> transfer_receipt \<Rightarrow> message \<Rightarrow> transfer_receipt \<Rightarrow> bytes \<Rightarrow> nat \<Rightarrow> swap" where
  "trade_swap C secret i m rm m' rt taker k = (swap_init C i (Some i) True secret)
     \<lparr>sw_state := Wait_for_execution, sw_maker_commitment_msg := Some m,
      sw_maker_transfer_receipt := Some rm, sw_maker_commitment_proof := Some k,
      sw_taker_commitment_pool := [(taker, m')], sw_taker_commitment_msg := Some m',
      sw_taker_transfer_receipt := Some rt\<rparr>"

definition trade_open ::
  "crypto \<Rightarrow> bytes \<Rightarrow> int \<Rightarrow> rat \<Rightarrow> message \<Rightarrow> transfer_receipt \<Rightarrow> message \<Rightarrow> transfer_receipt \<Rightarrow> bytes \<Rightarrow> bytes \<Rightarrow>
   cs \<Rightarrow> cs" where
  "trade_open C secret i sec m rm m' rt maker taker s =
     post (proof_for C secret i m') None (Some taker) (post (OfferTaken i None) None None
       (post (proof_for C secret i m) None (Some maker)
         (put_swap (next_swap s) (trade_swap C secret i m rm m' rt taker (next_msg s)) s
           \<lparr>next_swap := next_swap s + 1, swaps := dict_set i (next_swap s) (swaps s),
            timers := timers s @ [(sec, next_swap s)]\<rparr>)))"

lemma commits_open:
  assumes new: "dict_get i (swaps s) = None"
    and maker: "commits_to C i maker m rm" and taker: "commits_to C i taker m' rt"
    and time: "seconds_to_timeout n1 (m_timeout m) = Inr sec"
  shows "for_each (service_process C) [(n1, Heard_commitment secret m), (n2, Got_transfer rm),
      (n3, Heard_commitment secret' m'), (n4, Got_transfer rt)] s =
    (Inr (), trade_open C secret i sec m rm m' rt maker taker s)"
proof -
  let ?r = "next_swap s" and ?h = "keccak C secret"
  define w1 where "w1 = (swap_init C i (Some i) True secret)\<lparr>sw_state := Wait_for_maker,
    sw_maker_commitment_msg := Some m\<rparr>"
  define s1 where "s1 = put_swap ?r w1 (s\<lparr>next_swap := ?r + 1, swaps := dict_set i ?r (swaps s),
    timers := timers s @ [(sec, ?r)]\<rparr>)"
  define w2 where "w2 = w1\<lparr>sw_state := Wait_for_taker, sw_maker_transfer_receipt := Some rm,
    sw_maker_commitment_proof := Some (next_msg s)\<rparr>"
  define s2 where "s2 = post (proof_for C secret i m) None (Some maker) (put_swap ?r w2 s1)"
  define w3 where "w3 = w2\<lparr>sw_taker_commitment_pool := [(taker, m')]\<rparr>"
  define s3 where "s3 = put_swap ?r w3 s2"
  define w4 where "w4 = w3\<lparr>sw_state := Wait_for_execution, sw_taker_commitment_msg := Some m',
    sw_taker_transfer_receipt := Some rt\<rparr>"
  define s4 where "s4 = post (proof_for C secret i m') None (Some taker)
    (post (OfferTaken i None) None None (put_swap ?r w4 s3))"
  have m: "class_of m = C_Commitment" "m_offer_id m = i" "sender C m = Inr maker"
      "tr_initiator rm = maker" "tr_identifier rm = i"
    and m': "class_of m' = C_Commitment" "m_offer_id m' = i" "sender C m' = Inr taker"
      "tr_initiator rt = taker" "tr_identifier rt = i"
    using maker taker by (simp_all add: commits_to_def)
  have init: "sw_offer_id w1 = i" "sw_secret w1 = secret" "sw_secret_hash w1 = ?h" "sw_state w1 = Wait_for_maker"
      "sw_maker_commitment_msg w1 = Some m" "sw_taker_commitment_pool w1 = []"
    by (simp_all add: w1_def swap_init_def)
  have get: "dict_get i (swaps s1) = Some ?r" "swaps s2 = swaps s1" "swaps s3 = swaps s1"
    by (simp_all add: s1_def s2_def s3_def put_swap_def post_def)
  have obj: "swap_objs s1 ?r = w1" "swap_objs s2 ?r = w2" "swap_objs s3 ?r = w3"
    by (simp_all add: s1_def s2_def s3_def put_swap_def post_def)
  let ?t = "snd (make_swap C secret i s)"
  have t: "sw_auto_spawn_timeout (swap_objs ?t ?r)" "sw_state (swap_objs ?t ?r) = Initializing"
      "swap_objs ?t ?r = swap_init C i (Some i) True secret" "timers ?t = timers s"
    using new by (simp_all add: make_swap_def id_collides_def dict_mem_def swap_init_def)
  have 1: "service_process C (n1, Heard_commitment secret m) s = (Inr (), s1)"
    using new m time t(3,4) maker_commitment_step [OF t(1,2), of C n1 m]
    by (simp add: commitment_new seq_unit Let_def)
       (simp add: s1_def w1_def put_swap_def make_swap_def id_collides_def dict_mem_def)
  have "hand_transfer_receipt C n2 rm ?r s1 = (Inr True, s2)"
    using receipt_maker_step [of s1 ?r m C n2 rm] m init obj(1)
    by (simp add: s2_def w2_def proof_for_def) (simp add: s1_def put_swap_def)
  then have 2: "service_process C (n2, Got_transfer rm) s1 = (Inr (), s2)"
    using process_known(3) [OF get(1)] m by blast
  have "hand_taker_commitment_msg C n3 m' ?r s2 = (Inr True, s3)"
    using taker_commitment_step [of s2 ?r C n3 m'] m' obj(2) init
    by (simp add: w2_def) (simp add: s3_def w3_def w2_def init dict_mem_def dict_get_def dict_set_def)
  then have 3: "service_process C (n3, Heard_commitment secret' m') s2 = (Inr (), s3)"
    using process_known(1) [of i s2 ?r m'] m' get by simp
  have "hand_transfer_receipt C n4 rt ?r s3 = (Inr True, s4)"
    using receipt_taker_step [of s3 ?r C n4 rt] m' obj(3) init
    by (simp add: w3_def w2_def dict_get_def Let_def proof_for_def s4_def w4_def)
  then have 4: "service_process C (n4, Got_transfer rt) s3 = (Inr (), s4)"
    using process_known(3) [of i s3 ?r rt] m' get by simp
  have "s4 = trade_open C secret i sec m rm m' rt maker taker s"
    unfolding s4_def s3_def s2_def s1_def w4_def w3_def w2_def w1_def trade_open_def trade_swap_def put_swap_def
      post_def swap_init_def by (cases s) simp
  then show ?thesis 
    using for_each_two [of "service_process C", OF 3 4]
    by (simp only: for_each_step [of "service_process C", OF 1] for_each_step [of "service_process C", OF 2])
qed

section \<open>Two reports\<close>

definition reports_for :: "crypto \<Rightarrow> int \<Rightarrow> bytes \<Rightarrow> message \<Rightarrow> bool" where
  "reports_for C i a x \<longleftrightarrow> class_of x = C_SwapExecution \<and> m_offer_id x = i \<and> msg_party C x = Inr a"

lemma trade_open_fields:
  fixes s C secret i sec m rm m' rt maker taker
  defines "t \<equiv> trade_open C secret i sec m rm m' rt maker taker s"
  shows "swap_objs t (next_swap s) = trade_swap C secret i m rm m' rt taker (next_msg s)"
    "swaps t = dict_set i (next_swap s) (swaps s)" "refund_queue t = refund_queue s"
    "dict_get i (swaps t) = Some (next_swap s)" "next_msg t = next_msg s + 3"
    "message_queue t = message_queue s @
      [(next_msg s, Some maker), (next_msg s + 1, None), (next_msg s + 2, Some taker)]"
    "content (msg_objs t (next_msg s)) = proof_for C secret i m"
    "content (msg_objs t (next_msg s + 1)) = OfferTaken i None"
    "content (msg_objs t (next_msg s + 2)) = proof_for C secret i m'"
  by (simp_all add: t_def trade_open_def put_swap_def post_def)

lemma reports_close:
  assumes w: "live r s" "sw_offer_id (swap_objs s r) = i" "sw_state (swap_objs s r) = Wait_for_execution"
      "maker_address C (swap_objs s r) = Inr (Some maker)" "taker_address C (swap_objs s r) = Inr (Some taker)"
      "sw_maker_transfer_receipt (swap_objs s r) = Some rm" "sw_taker_transfer_receipt (swap_objs s r) = Some rt"
    and who: "reports_for C i maker x \<and> reports_for C i taker x' \<or> reports_for C i taker x \<and> reports_for C i maker x'"
      "maker \<noteq> taker"
    and t: "time_now n6 = Inr t"
  shows "\<exists>w'. for_each (service_process C) [(n5, Heard_execution x), (n6, Heard_execution x')] s =
      (Inr (), traded t r w' rm rt (put_swap r w' s)) \<and> sw_offer_id w' = i"
proof -
  let ?w = "swap_objs s r"
  have get: "dict_get i (swaps s) = Some r" using w(1,2) by (simp add: live_def)
  have x: "class_of x = C_SwapExecution" "m_offer_id x = i" "class_of x' = C_SwapExecution" "m_offer_id x' = i"
    using who(1) by (auto simp: reports_for_def)
  show ?thesis
  proof (cases "reports_for C i maker x")
    case True
    then have party: "msg_party C x = Inr maker" "msg_party C x' = Inr taker"
      using who by (auto simp: reports_for_def)
    define w5 where "w5 = ?w\<lparr>sw_state := Wait_for_taker_execution, sw_maker_swap_execution_msg := Some x\<rparr>"
    define s5 where "s5 = put_swap r w5 s"
    have "hand_swap_execution_msg C n5 x r s = (Inr True, s5)"
      using execution_first_step [OF w(3-5), of n5 x] party by (simp add: s5_def w5_def)
    then have 1: "service_process C (n5, Heard_execution x) s = (Inr (), s5)"
      using process_known(2) [OF get] x by blast
    have obj: "swap_objs s5 r = w5" "swaps s5 = swaps s" by (simp_all add: s5_def put_swap_def)
    let ?w6 = "w5\<lparr>sw_taker_swap_execution_msg := Some x'\<rparr>"
    have "hand_swap_execution_msg C n6 x' r s5 = (Inr True, traded t r ?w6 rm rt s5)"
      using execution_taker_step [of r s5 C taker rm rt n6 t x'] w party(2) t obj
      by (simp add: w5_def live_def taker_address_def)
    then have 2: "service_process C (n6, Heard_execution x') s5 = (Inr (), traded t r ?w6 rm rt s5)"
      using process_known(2) [of i s5 r] x get obj by simp
    have "traded t r ?w6 rm rt s5 = traded t r ?w6 rm rt (put_swap r ?w6 s)"
      by (simp add: traded_def finish_def put_swap_def s5_def add_refund_def post_def)
    then show ?thesis using w(2) for_each_two [of "service_process C", OF 1 2]
      by (intro exI [of _ ?w6]) (simp add: w5_def)
  next
    case False
    then have party: "msg_party C x = Inr taker" "msg_party C x' = Inr maker"
      using who by (auto simp: reports_for_def)
    define w5 where "w5 = ?w\<lparr>sw_state := Wait_for_maker_execution, sw_taker_swap_execution_msg := Some x\<rparr>"
    define s5 where "s5 = put_swap r w5 s"
    have "hand_swap_execution_msg C n5 x r s = (Inr True, s5)"
      using execution_first_step [OF w(3-5), of n5 x] party who(2) by (simp add: s5_def w5_def)
    then have 1: "service_process C (n5, Heard_execution x) s = (Inr (), s5)"
      using process_known(2) [OF get] x by blast
    have obj: "swap_objs s5 r = w5" "swaps s5 = swaps s" by (simp_all add: s5_def put_swap_def)
    let ?w6 = "w5\<lparr>sw_maker_swap_execution_msg := Some x'\<rparr>"
    have "hand_swap_execution_msg C n6 x' r s5 = (Inr True, traded t r ?w6 rm rt s5)"
      using execution_maker_step [of r s5 C maker rm rt n6 t x'] w party(2) t obj
      by (simp add: w5_def live_def maker_address_def)
    then have 2: "service_process C (n6, Heard_execution x') s5 = (Inr (), traded t r ?w6 rm rt s5)"
      using process_known(2) [of i s5 r] x get obj by simp
    have "traded t r ?w6 rm rt s5 = traded t r ?w6 rm rt (put_swap r ?w6 s)"
      by (simp add: traded_def finish_def put_swap_def s5_def add_refund_def post_def)
    then show ?thesis using w(2) for_each_two [of "service_process C", OF 1 2]
      by (intro exI [of _ ?w6]) (simp add: w5_def)
  qed
qed

section \<open>A swap from beginning to end\<close>

text \<open>What the service still has to send, with the contents as they are.\<close>

definition to_send :: "cs \<Rightarrow> (message \<times> bytes option) list" where
  "to_send s = map (\<lambda>(k, a). (content (msg_objs s k), a)) (message_queue s)"

definition fee_refund :: "transfer_receipt \<Rightarrow> refund" where
  "fee_refund rc = \<lparr>rf_receipt = rc, rf_priority = 1, rf_claim_fee = True\<rparr>"

lemma swap_settles:
  assumes "dict_get i (swaps s) = None" and "\<forall>(k, _) \<in> set (message_queue s). k < next_msg s"
    and "commits_to C i maker m rm" and "commits_to C i taker m' rt" and "maker \<noteq> taker"
    and "seconds_to_timeout n1 (m_timeout m) = Inr sec" and "time_now n6 = Inr t"
    and "reports_for C i maker x \<and> reports_for C i taker x' \<or> reports_for C i taker x \<and> reports_for C i maker x'"
  shows "\<exists>s'. for_each (service_process C) [(n1, Heard_commitment secret m), (n2, Got_transfer rm),
      (n3, Heard_commitment secret' m'), (n4, Got_transfer rt), (n5, Heard_execution x), (n6, Heard_execution x')] s =
      (Inr (), s') \<and>
    sw_state (swap_objs s' (next_swap s)) = Processed \<and>
    sw_terminated_state (swap_objs s' (next_swap s)) = Some Traded \<and>
    refund_queue s' = {#fee_refund rm, fee_refund rt#} + refund_queue s \<and>
    to_send s' = to_send s @ [(proof_for C secret i m, Some maker), (OfferTaken i None, None),
      (proof_for C secret i m', Some taker), (SwapCompleted i t None, None)] \<and>
    (\<forall>j. dict_get j (swaps s') = dict_get j (swaps s)) \<and>
    (\<forall>r. r \<noteq> next_swap s \<longrightarrow> swap_objs s' r = swap_objs s r)"
proof -
  let ?r = "next_swap s"
  define o4 where "o4 = trade_open C secret i sec m rm m' rt maker taker s"
  note f = trade_open_fields [where C = C and secret = secret and i = i and sec = sec and m = m and rm = rm and
    m' = m' and rt = rt and maker = maker and taker = taker and s = s, folded o4_def]
  have sw: "swap_objs o4 ?r = trade_swap C secret i m rm m' rt taker (next_msg s)" by (rule f(1))
  have w: "live ?r o4" "sw_offer_id (swap_objs o4 ?r) = i" "sw_state (swap_objs o4 ?r) = Wait_for_execution"
      "maker_address C (swap_objs o4 ?r) = Inr (Some maker)" "taker_address C (swap_objs o4 ?r) = Inr (Some taker)"
      "sw_maker_transfer_receipt (swap_objs o4 ?r) = Some rm" "sw_taker_transfer_receipt (swap_objs o4 ?r) = Some rt"
    using assms(3,4) f(4) unfolding live_def sw
    by (simp_all add: trade_swap_def swap_init_def maker_address_def taker_address_def commits_to_def)
  obtain w' where run: "for_each (service_process C) [(n5, Heard_execution x), (n6, Heard_execution x')] o4 =
      (Inr (), traded t ?r w' rm rt (put_swap ?r w' o4))" and id: "sw_offer_id w' = i"
    using reports_close [OF w assms(8,5,7)] by blast
  define s' where "s' = traded t ?r w' rm rt (put_swap ?r w' o4)"
  have "for_each (service_process C) ([(n1, Heard_commitment secret m), (n2, Got_transfer rm),
      (n3, Heard_commitment secret' m'), (n4, Got_transfer rt)] @ [(n5, Heard_execution x), (n6, Heard_execution x')]) s =
      (Inr (), s')"
    unfolding for_each_append using run
    by (simp only: seq_apply commits_open [OF assms(1,3,4,6)] o4_def s'_def prod.case sum.case)
  moreover have "sw_state (swap_objs s' ?r) = Processed" "sw_terminated_state (swap_objs s' ?r) = Some Traded"
      "refund_queue s' = {#fee_refund rm, fee_refund rt#} + refund_queue s"
      "swaps s' = dict_del i (swaps o4)"
    by (simp_all add: s'_def traded_def finish_def put_swap_def add_refund_def post_def f(3) fee_refund_def id)
  moreover have "swap_objs s' r = swap_objs s r" if "r \<noteq> ?r" for r
    using that by (simp add: s'_def traded_def finish_def put_swap_def add_refund_def post_def o4_def trade_open_def)
  moreover have "to_send s' = to_send s @ [(proof_for C secret i m, Some maker), (OfferTaken i None, None),
      (proof_for C secret i m', Some taker), (SwapCompleted i t None, None)]"
    using assms(2)
    by (auto simp: to_send_def s'_def traded_def finish_def put_swap_def add_refund_def post_def o4_def trade_open_def id)
  ultimately show ?thesis using assms(1) f(2) by (intro exI [of _ s']) simp
qed

text \<open>C6: an honest swap settles: if two parties commit to an offer that the service has no swap for,
  each with a signed commitment followed by its deposit, and both report the execution, in whichever
  order, then the service takes every input without an exception and ends the swap as traded; both deposits are
  queued for refund less the fee; the two parties are sent proofs of their commitments, with one secret for
  both, and everybody hears that the offer is taken and then that the swap is completed; no other swap is
  touched.\<close>

theorem honest_swap_settles:
  assumes "dict_get i (swaps s) = None" and "\<forall>(k, _) \<in> set (message_queue s). k < next_msg s"
    and "commits_to C i maker m rm" and "commits_to C i taker m' rt" and "maker \<noteq> taker"
    and "seconds_to_timeout n1 (m_timeout m) = Inr sec" and "time_now n6 = Inr t"
    and "reports_for C i maker x \<and> reports_for C i taker x' \<or> reports_for C i taker x \<and> reports_for C i maker x'"
  shows "\<exists>s'. for_each (service_process C) [(n1, Heard_commitment secret m), (n2, Got_transfer rm),
      (n3, Heard_commitment secret' m'), (n4, Got_transfer rt), (n5, Heard_execution x), (n6, Heard_execution x')] s =
      (Inr (), s') \<and>
    sw_state (swap_objs s' (next_swap s)) = Processed \<and>
    sw_terminated_state (swap_objs s' (next_swap s)) = Some Traded \<and>
    refund_queue s' = {#fee_refund rm, fee_refund rt#} + refund_queue s \<and>
    to_send s' = to_send s @ [(proof_for C secret i m, Some maker), (OfferTaken i None, None),
      (proof_for C secret i m', Some taker), (SwapCompleted i t None, None)] \<and>
    (\<forall>j. dict_get j (swaps s') = dict_get j (swaps s)) \<and>
    (\<forall>r. r \<noteq> next_swap s \<longrightarrow> swap_objs s' r = swap_objs s r)"
  using assms by (rule swap_settles)

theorem honest_swap_settles_witness:
  "\<exists>s'. for_each (service_process demo_crypto) [(0, Heard_commitment [9] demo_commitment),
      (0, Got_transfer demo_receipt), (0, Heard_commitment [8] (Commitment 7 [] 1000 1 (Some [2]))),
      (0, Got_transfer demo_taker_receipt), (0, Heard_execution (demo_execution [2])),
      (0, Heard_execution (demo_execution [1]))] cs_start = (Inr (), s') \<and>
    refund_queue s' = {#fee_refund demo_receipt, fee_refund demo_taker_receipt#} \<and>
    to_send s' = [(CommitmentProof (Some [1]) [9] [9] 7 None, Some [1]), (OfferTaken 7 None, None),
      (CommitmentProof (Some [2]) [9] [9] 7 None, Some [2]), (SwapCompleted 7 0 None, None)]"
proof -
  let ?m = "Commitment 7 [] 1000 1 (Some [2])"
  have start: "dict_get 7 (swaps cs_start) = None" "\<forall>(k, _) \<in> set (message_queue cs_start). k < next_msg cs_start"
      "refund_queue cs_start = {#}" "to_send cs_start = []"
    by (simp_all add: cs_start_def to_send_def)
  have commits: "commits_to demo_crypto 7 [1] demo_commitment demo_receipt"
      "commits_to demo_crypto 7 [2] ?m demo_taker_receipt"
    by (simp_all add: commits_to_def demo_commitment_def demo_receipt_def demo_taker_receipt_def sender_def
        hash_without_signature_def demo_crypto_def)
  have reports: "reports_for demo_crypto 7 a (demo_execution a)" if "a \<noteq> []" for a
    using demo_sender(4) that by (simp add: reports_for_def demo_execution_def)
  have time: "seconds_to_timeout 0 (m_timeout demo_commitment) = Inr 1" "time_now 0 = Inr 0"
    using demo_seconds dt_to_ms_whole [of 0] by (simp_all add: demo_commitment_def time_now_def)
  show ?thesis
    using honest_swap_settles [OF start(1,2) commits _ time, of "demo_execution [2]" "demo_execution [1]" "[9]" 0 0 "[8]" 0 0]
      reports [of "[1]"] reports [of "[2]"] start(3,4)
    by (auto simp: proof_for_def demo_commitment_def demo_crypto_def)
qed

end
