(* ===== verification/Full_Trade.thy ===== *)
theory Full_Trade
  imports Service_Trade Exchange
begin

text \<open>
  A whole trade: how the two nodes go from a committed offer to a completed one, and how their
  journeys and the swap at the service fit together through the messages and payments between them.
\<close>

section \<open>The journey of the maker\<close>

definition handles_all :: "(datetime \<times> state_change) list \<Rightarrow> (node, unit) prog" where
  "handles_all = for_each (\<lambda>(now, ch). handle_state_change now 0 0 ch)"

lemma handles_Cons:
  "handle_state_change now 0 0 ch s = (Inr (), t) \<Longrightarrow> handles_all ((now, ch) # chs) s = handles_all chs t"
  by (simp add: handles_all_def seq_apply)

lemma handles_Nil: "handles_all [] s = (Inr (), s)"
  by (simp add: handles_all_def return_def)

text \<open>An offer of the node that waits for the proof of its commitment.\<close>

definition committed :: "int \<Rightarrow> nat \<Rightarrow> node \<Rightarrow> bool" where
  "committed i r s \<longleftrightarrow> get_offer i s = Some r \<and> o_id (offer_objs s r) = i \<and> f_state (offer_objs s r) = Unproved"

definition proven :: "nat \<Rightarrow> message \<Rightarrow> node \<Rightarrow> node" where
  "proven r P s = upd_offer r (\<lambda>w. w\<lparr>f_proof := Some P\<rparr>) (enter_state Proved r s)"

lemma get_offer_kept [simp]:
  "get_offer i (enter_state d r s) = get_offer i s" "get_offer i (emit evs s) = get_offer i s"
  "get_offer i (upd_offer r f s) = get_offer i s" "get_offer i (s\<lparr>matches := ms\<rparr>) = get_offer i s"
  by (simp_all add: get_offer_def enter_state_def emit_def upd_offer_def)

lemma proven_fields [simp]:
  "f_state (offer_objs (proven r P s) r) = Proved" "o_id (offer_objs (proven r P s) q) = o_id (offer_objs s q)"
  "matches (proven r P s) = matches s" "get_offer i (proven r P s) = get_offer i s"
  "f_proof (offer_objs (proven r P s) r) = Some P"
  by (simp_all add: proven_def) (simp_all add: upd_offer_def)

lemma proof_change:
  assumes "committed i r s" and "m_offer_id P = i" and "dict_get i (matches s) = m"
    and "m = None \<or> (\<exists>mt. m = Some mt \<and> mt_offer mt = Some r)"
  shows "handle_state_change now 0 0 (CommitmentProofStateChange sg P) s =
    (Inr (), case m of
       None \<Rightarrow> emit [SendProvenOfferEvent r None] (proven r P s)
     | Some mt \<Rightarrow> emit [SwapInitEvent mt, ExpectInboundEvent (mt_target mt) i,
         SendProvenOfferEvent r (Some (mt_target mt))] (enter_state Exchanging r (proven r P s)))"
  using assms commitment_proof_outcome [of s r i m P] unfolding proven_def
  by (simp add: handle_state_change_def handle_offer_state_change_def seq_Inr [OF get_state_apply] committed_def
      Let_def)

lemma published_change:
  assumes "get_offer (e_id e) s = Some r" and "f_state (offer_objs s r) = Proved"
  shows "handle_state_change now 0 0 (OfferPublishedStateChange e) s =
    (Inr (), emit [CommitmentProvedEvent r] (enter_state Published r s))"
proof -
  have "fire_offer T_received_offer no_args r s = (Inr True, emit [CommitmentProvedEvent r] (enter_state Published r s))"
    using assms(2) by (simp add: fire_offer_eq offer_dest_def on_enter_def on_enter_published_def dispatch_events_def
        modify_def enter_state_def emit_def)
  then show ?thesis
    using assms(1) by (simp add: handle_state_change_def handle_offer_published_def seq_apply get_state_apply return_def)
qed

lemma taker_call_change:
  assumes "get_offer i s = Some r" and "f_state (offer_objs s r) \<in> {Proved, Published}"
  shows "handle_state_change now 0 0 (TakerCallStateChange i who cp) s =
    (Inr (), emit [SwapInitEvent (maker_match (Some r) who cp), ExpectInboundEvent who (o_id (offer_objs s r))]
      (enter_state Exchanging r (s\<lparr>matches := dict_set i (maker_match (Some r) who cp) (matches s)\<rparr>)))"
  using taker_call_outcome [OF assms(1), of who cp] assms(2)
  by (simp add: handle_state_change_def Let_def)

text \<open>The two payments, from an offer that is exchanging to a completed one.\<close>

lemma payment_changes:
  assumes "dict_get i (matches s) = Some m" and "mt_offer m = Some r" and "f_state (offer_objs s r) = Exchanging"
    and "pay_identifier e = i" and "pay_identifier e' = i"
  shows "handles_all [(n1, TransferReceivedStateChange e), (n2, TransferReceivedStateChange e')] s =
    (Inr (), snd (clean_up_timeout i (enter_state Completed r (emit [ReceivedInboundEvent r e]
      (enter_state Wait_for_refund r s)))))"
proof -
  let ?t = "emit [ReceivedInboundEvent r e] (enter_state Wait_for_refund r s)"
  have "handle_transfer_received e s = (Inr (), ?t)"
    using assms by (subst transfer_received_eq) (auto simp: Let_def)
  then have 1: "handle_state_change n1 0 0 (TransferReceivedStateChange e) s = (Inr (), ?t)"
    by (simp add: handle_state_change_def)
  have "handle_transfer_received e' ?t = clean_up_timeout i (enter_state Completed r ?t)"
    using assms by (subst transfer_received_eq) (auto simp: Let_def)
  then have 2: "handle_state_change n2 0 0 (TransferReceivedStateChange e') ?t =
      (Inr (), snd (clean_up_timeout i (enter_state Completed r ?t)))"
    by (simp add: handle_state_change_def prod_eq_iff)
  show ?thesis by (simp add: handles_Cons [OF 1] handles_Cons [OF 2] handles_Nil)
qed

lemma clean_up_fields [simp]:
  "offer_objs (snd (clean_up_timeout i s)) = offer_objs s" "dispatched (snd (clean_up_timeout i s)) = dispatched s"
  "\<not> has_greenlet i (snd (clean_up_timeout i s))"
  by (simp_all add: clean_up_timeout_def modify_def kill_greenlet_def has_greenlet_def dict_mem_def split: option.split)

lemma other_offers [simp]:
  "q \<noteq> r \<Longrightarrow> offer_objs (enter_state d r s) q = offer_objs s q"
  "q \<noteq> r \<Longrightarrow> offer_objs (proven r P s) q = offer_objs s q"
  "f_proof (offer_objs (enter_state d r s) r) = f_proof (offer_objs s r)"
  by (simp_all add: enter_state_def proven_def upd_offer_def)

text \<open>The maker of an offer, from the proof of its commitment on.\<close>

lemma maker_journey:
  assumes "committed i r s" and "m_offer_id P = i" and "dict_get i (matches s) = None" and "e_id entry = i"
    and "pay_identifier e = i" and "pay_identifier e' = i"
  shows "\<exists>t. handles_all [(n1, CommitmentProofStateChange sg P), (n2, OfferPublishedStateChange entry),
      (n3, TakerCallStateChange i who cp), (n4, TransferReceivedStateChange e), (n5, TransferReceivedStateChange e')] s =
      (Inr (), t) \<and>
    f_state (offer_objs t r) = Completed \<and> f_proof (offer_objs t r) = Some P \<and> \<not> has_greenlet i t \<and>
    dispatched t = dispatched s @ [SendProvenOfferEvent r None, CommitmentProvedEvent r,
      SwapInitEvent (maker_match (Some r) who cp), ExpectInboundEvent who i, ReceivedInboundEvent r e] \<and>
    (\<forall>q. q \<noteq> r \<longrightarrow> offer_objs t q = offer_objs s q)"
proof -
  define s1 where "s1 = emit [SendProvenOfferEvent r None] (proven r P s)"
  define s2 where "s2 = emit [CommitmentProvedEvent r] (enter_state Published r s1)"
  define s3 where "s3 = emit [SwapInitEvent (maker_match (Some r) who cp), ExpectInboundEvent who i]
    (enter_state Exchanging r (s2\<lparr>matches := dict_set i (maker_match (Some r) who cp) (matches s2)\<rparr>))"
  have get: "get_offer i s = Some r" "o_id (offer_objs s r) = i" using assms(1) by (simp_all add: committed_def)
  have 1: "handle_state_change n1 0 0 (CommitmentProofStateChange sg P) s = (Inr (), s1)"
    using proof_change [OF assms(1,2,3)] by (simp add: s1_def)
  have 2: "handle_state_change n2 0 0 (OfferPublishedStateChange entry) s1 = (Inr (), s2)"
    unfolding s2_def by (rule published_change) (simp_all add: s1_def get assms(4))
  have 3: "handle_state_change n3 0 0 (TakerCallStateChange i who cp) s2 = (Inr (), s3)"
    using taker_call_change [of i s2 r n3 who cp] get by (simp add: s3_def s2_def s1_def)
  have m: "dict_get i (matches s3) = Some (maker_match (Some r) who cp)" by (simp add: s3_def)
  have "mt_offer (maker_match (Some r) who cp) = Some r" "f_state (offer_objs s3 r) = Exchanging"
    by (simp_all add: s3_def maker_match_def)
  note last = payment_changes [OF m this assms(5,6), of n4 n5]
  show ?thesis
    unfolding handles_Cons [OF 1] handles_Cons [OF 2] handles_Cons [OF 3] last
    by (simp add: s3_def s2_def s1_def) (simp add: emit_def proven_def upd_offer_def)
qed

text \<open>The taker of an offer, from the proof of its commitment on.\<close>

lemma taker_journey:
  assumes "committed i r s" and "m_offer_id P = i" and "dict_get i (matches s) = Some m" and "mt_offer m = Some r"
    and "pay_identifier e = i" and "pay_identifier e' = i"
  shows "\<exists>t. handles_all [(n1, CommitmentProofStateChange sg P), (n2, TransferReceivedStateChange e),
      (n3, TransferReceivedStateChange e')] s = (Inr (), t) \<and>
    f_state (offer_objs t r) = Completed \<and> f_proof (offer_objs t r) = Some P \<and> \<not> has_greenlet i t \<and>
    dispatched t = dispatched s @ [SwapInitEvent m, ExpectInboundEvent (mt_target m) i,
      SendProvenOfferEvent r (Some (mt_target m)), ReceivedInboundEvent r e] \<and>
    (\<forall>q. q \<noteq> r \<longrightarrow> offer_objs t q = offer_objs s q)"
proof -
  define s1 where "s1 = emit [SwapInitEvent m, ExpectInboundEvent (mt_target m) i,
    SendProvenOfferEvent r (Some (mt_target m))] (enter_state Exchanging r (proven r P s))"
  have 1: "handle_state_change n1 0 0 (CommitmentProofStateChange sg P) s = (Inr (), s1)"
    using proof_change [OF assms(1,2,3)] assms(4) by (simp add: s1_def)
  have "dict_get i (matches s1) = Some m" "f_state (offer_objs s1 r) = Exchanging"
    using assms(3) by (simp_all add: s1_def)
  note last = payment_changes [OF this(1) assms(4) this(2) assms(5,6), of n2 n3]
  show ?thesis
    unfolding handles_Cons [OF 1] last
    by (simp add: s1_def) (simp add: emit_def proven_def upd_offer_def)
qed

section \<open>Messages between the parties\<close>

lemma commitment_sent:
  assumes "transport_handle_event C key p objs (CommitmentMsgEvent svc r amount) = Inr (Some (t, m))"
    and "recovers C key a" and "o_id (objs r) = i" and "tr_initiator rc = a" and "tr_identifier rc = i"
  shows "t = Address svc \<and> commits_to C i a m rc \<and> m_timeout m = o_timeout (objs r)"
proof -
  obtain u sg where u: "event_message C p objs (CommitmentMsgEvent svc r amount) = Inr (Some (t, u))"
      "m = with_signature u sg" "sender C m = Inr a"
    using signed_event [OF assms(1) _ assms(2)] by auto
  then show ?thesis using assms(3-5)
    by (auto simp: event_message_def commitment_msg_def bind_res_Inr_iff commits_to_def)
qed

lemma report_sent:
  assumes "transport_handle_event C key p objs (SendExecutedEvent svc i ts) = Inr (Some (t, x))"
    and "recovers C key a" and "msg_truth C (Some x) = Inr True"
  shows "t = Address svc \<and> reports_for C i a x"
proof -
  obtain u sg where u: "event_message C p objs (SendExecutedEvent svc i ts) = Inr (Some (t, u))"
      "x = with_signature u sg" "sender C x = Inr a"
    using signed_event [OF assms(1) _ assms(2)] by auto
  then show ?thesis using assms(3)
    by (auto simp: event_message_def reports_for_def msg_party_def is_instance_def)
qed

text \<open>A proof that the service has signed becomes the state change of the party it is sent to.\<close>

lemma proof_heard:
  assumes "P = with_signature (proof_for C secret i m) g"
  shows "commitment_proof_process (Heard_message P) = Inr (CommitmentProofStateChange (m_signature m) P)"
    "m_offer_id P = i" "class_of P = C_CommitmentProof" "m_secret P = secret" "m_secret_hash P = keccak C secret"
  using assms by (simp_all add: proof_for_def commitment_proof_process_def is_instance_def)

section \<open>A trade\<close>

text \<open>Two nodes that have committed to one offer: the maker, and the taker, whose match holds the
  proof that the maker published; a deposit of a party for the offer.\<close>

definition ready_maker :: "int \<Rightarrow> nat \<Rightarrow> node \<Rightarrow> bool" where
  "ready_maker i r s \<longleftrightarrow> committed i r s \<and> dict_get i (matches s) = None"

definition ready_taker :: "int \<Rightarrow> nat \<Rightarrow> bytes \<Rightarrow> message \<Rightarrow> match_rec \<Rightarrow> node \<Rightarrow> bool" where
  "ready_taker i r maker P mt s \<longleftrightarrow> committed i r s \<and> dict_get i (matches s) = Some mt \<and> mt_offer mt = Some r \<and>
     mt_target mt = maker \<and> mt_proof mt = Some P"

definition deposit_of :: "bytes \<Rightarrow> int \<Rightarrow> transfer_receipt \<Rightarrow> bool" where
  "deposit_of a i rc \<longleftrightarrow> tr_initiator rc = a \<and> tr_identifier rc = i"

text \<open>C3: an honest trade completes on every side: let two different nodes, with keys that belong to their
  addresses, have committed to the same offer, for which the service has no swap yet, the
  taker with the maker's proof in its match. Then the messages that their transports send, the
  deposits, the proofs the service signs for them, the taker's call and the payments of the two to each other
  and of the refunds, delivered in their order, are handled without an exception by the service and by both nodes;
  the service ends the swap as traded, takes it from the dictionary and queues both deposits for refund; both offers are completed and
  have no timeout left; and both nodes pay under one and the same secret, of which the service made the proofs.\<close>

theorem trade_completes:
  assumes keys: "recovers C key maker" "recovers C key' taker" "maker \<noteq> taker"
    and nodes: "ready_maker i r s" "ready_taker i r' maker P mt s'" "e_id entry = i"
    and service: "dict_get i (swaps c) = None" "\<forall>(k, _) \<in> set (message_queue c). k < next_msg c"
    and deposits: "deposit_of maker i rm" "deposit_of taker i rt"
    and commitments:
      "transport_handle_event C key p (offer_objs s) (CommitmentMsgEvent svc r amount) = Inr (Some (t1, m))"
      "transport_handle_event C key' p (offer_objs s') (CommitmentMsgEvent svc r' amount) = Inr (Some (t2, m'))"
    and proofs: "P = with_signature (proof_for C secret i m) g" "P' = with_signature (proof_for C secret i m') g'"
    and call: "transport_handle_event C key' p objs (NodeEvent (SendProvenOfferEvent r' (Some maker))) =
        Inr (Some (t3, mc))" "o_id (objs r') = i" "f_proof (objs r') = Some P'"
    and reports: "transport_handle_event C key p objs1 (SendExecutedEvent svc i ts) = Inr (Some (t4, x))"
      "transport_handle_event C key' p objs2 (SendExecutedEvent svc i ts') = Inr (Some (t5, x'))"
      "msg_truth C (Some x) = Inr True" "msg_truth C (Some x') = Inr True"
    and clock: "seconds_to_timeout n1 (o_timeout (offer_objs s r)) = Inr sec" "time_now n6 = Inr now"
    and payments: "identifier_tuple e1 = (taker, i)" "identifier_tuple e2 = (svc, i)"
      "identifier_tuple e3 = (maker, i)" "identifier_tuple e4 = (svc, i)"
  shows "\<exists>c' t t' ch mm.
    for_each (service_process C) [(n1, Heard_commitment secret m), (n2, Got_transfer rm),
      (n3, Heard_commitment secret' m'), (n4, Got_transfer rt), (n5, Heard_execution x), (n6, Heard_execution x')] c =
      (Inr (), c') \<and>
    to_send c' = to_send c @ [(proof_for C secret i m, Some maker), (OfferTaken i None, None),
      (proof_for C secret i m', Some taker), (SwapCompleted i now None, None)] \<and>
    sw_state (swap_objs c' (next_swap c)) = Processed \<and>
    sw_terminated_state (swap_objs c' (next_swap c)) = Some Traded \<and>
    (\<forall>j. dict_get j (swaps c') = dict_get j (swaps c)) \<and>
    refund_queue c' = {#fee_refund rm, fee_refund rt#} + refund_queue c \<and>
    taker_called C (Heard_message mc) = Inr ch \<and>
    handles_all [(k1, CommitmentProofStateChange (m_signature m) P), (k2, OfferPublishedStateChange entry),
      (k3, ch), (k4, TransferReceivedStateChange e1), (k5, TransferReceivedStateChange e2)] s = (Inr (), t) \<and>
    f_state (offer_objs t r) = Completed \<and> \<not> has_greenlet i t \<and>
    handles_all [(l1, CommitmentProofStateChange (m_signature m') P'), (l2, TransferReceivedStateChange e3),
      (l3, TransferReceivedStateChange e4)] s' = (Inr (), t') \<and>
    f_state (offer_objs t' r') = Completed \<and> \<not> has_greenlet i t' \<and>
    SwapInitEvent mm \<in> set (dispatched t) \<and> SwapInitEvent mt \<in> set (dispatched t') \<and> mt_target mm = taker \<and>
    get_secrets mm = Inr (secret, keccak C secret) \<and> get_secrets mt = Inr (secret, keccak C secret)"
proof -
  have M: "committed i r s" "dict_get i (matches s) = None" "o_id (offer_objs s r) = i"
    using nodes(1) by (simp_all add: ready_maker_def committed_def)
  have T: "committed i r' s'" "dict_get i (matches s') = Some mt" "mt_offer mt = Some r'" "mt_target mt = maker"
      "mt_proof mt = Some P" "o_id (offer_objs s' r') = i"
    using nodes(2) by (simp_all add: ready_taker_def committed_def)
  have m: "commits_to C i maker m rm" "m_timeout m = o_timeout (offer_objs s r)"
    using commitment_sent [OF commitments(1) keys(1) M(3), of rm] deposits(1) by (simp_all add: deposit_of_def)
  have m': "commits_to C i taker m' rt"
    using commitment_sent [OF commitments(2) keys(2) T(6)] deposits(2) by (simp add: deposit_of_def)
  have x: "reports_for C i maker x" "reports_for C i taker x'"
    using report_sent [OF reports(1) keys(1) reports(3)] report_sent [OF reports(2) keys(2) reports(4)] by simp_all
  have sec: "seconds_to_timeout n1 (m_timeout m) = Inr sec" using clock(1) m(2) by simp
  obtain c' where c': "for_each (service_process C) [(n1, Heard_commitment secret m), (n2, Got_transfer rm),
      (n3, Heard_commitment secret' m'), (n4, Got_transfer rt), (n5, Heard_execution x), (n6, Heard_execution x')] c =
      (Inr (), c')"
    "to_send c' = to_send c @ [(proof_for C secret i m, Some maker), (OfferTaken i None, None),
      (proof_for C secret i m', Some taker), (SwapCompleted i now None, None)]"
    "refund_queue c' = {#fee_refund rm, fee_refund rt#} + refund_queue c"
    "sw_state (swap_objs c' (next_swap c)) = Processed"
    "sw_terminated_state (swap_objs c' (next_swap c)) = Some Traded"
    "\<forall>j. dict_get j (swaps c') = dict_get j (swaps c)"
    using swap_settles [OF service m(1) m' keys(3) sec clock(2) disjI1 [OF conjI [OF x]]] by blast
  have ch: "taker_called C (Heard_message mc) = Inr (TakerCallStateChange i taker (Some P'))"
    using taker_answer_heard [OF call(1) keys(2)] call(2,3) by simp
  note P = proof_heard [OF proofs(1)] and P' = proof_heard [OF proofs(2)]
  have pay: "pay_identifier e1 = i" "pay_identifier e2 = i" "pay_identifier e3 = i" "pay_identifier e4 = i"
    using payments by simp_all
  let ?mm = "maker_match (Some r) taker (Some P')"
  obtain t where t: "handles_all [(k1, CommitmentProofStateChange (m_signature m) P), (k2, OfferPublishedStateChange entry),
      (k3, TakerCallStateChange i taker (Some P')), (k4, TransferReceivedStateChange e1),
      (k5, TransferReceivedStateChange e2)] s = (Inr (), t)"
    "f_state (offer_objs t r) = Completed" "\<not> has_greenlet i t" "SwapInitEvent ?mm \<in> set (dispatched t)"
    using maker_journey [OF M(1) P(2) M(2) nodes(3) pay(1,2), of k1 "m_signature m" k2 k3 taker "Some P'" k4 k5] by auto
  obtain t' where t': "handles_all [(l1, CommitmentProofStateChange (m_signature m') P'), (l2, TransferReceivedStateChange e3),
      (l3, TransferReceivedStateChange e4)] s' = (Inr (), t')"
    "f_state (offer_objs t' r') = Completed" "\<not> has_greenlet i t'" "SwapInitEvent mt \<in> set (dispatched t')"
    using taker_journey [OF T(1) P'(2) T(2,3) pay(3,4), of l1 "m_signature m'" l2 l3] by auto
  have "get_secrets ?mm = Inr (secret, keccak C secret)" "get_secrets mt = Inr (secret, keccak C secret)"
      "mt_target ?mm = taker"
    using P P' T(5) by (simp_all add: get_secrets_def maker_match_def)
  then show ?thesis using c' ch t t' by blast
qed

section \<open>An example\<close>

definition taker_key :: bytes where
  "taker_key = replicate 32 6"

lemma taker_key_facts: "length taker_key = 32" "demo_key \<noteq> taker_key"
  by (simp_all add: taker_key_def demo_key_def numeral_eq_Suc)

lemma example_messages:
  assumes "length k = 32"
  shows "\<exists>m. transport_handle_event example_crypto k p objs (CommitmentMsgEvent svc r a) = Inr (Some (Address svc, m))"
    and "\<exists>x. transport_handle_event example_crypto k p objs (SendExecutedEvent svc i ts) = Inr (Some (Address svc, x))"
    and "\<exists>x. transport_handle_event example_crypto k p objs (NodeEvent (SendProvenOfferEvent r (Some maker))) =
      Inr (Some (Address maker, x))"
proof -
  obtain h where "msg_hash example_crypto (create_offer_msg (basic_offer.truncate (objs r)) p) = Inr h"
    using demo_hash by blast
  then show "\<exists>m. transport_handle_event example_crypto k p objs (CommitmentMsgEvent svc r a) = Inr (Some (Address svc, m))"
    by (intro example_transport [OF assms]) (auto simp: event_message_def commitment_msg_def is_instance_def)
  show "\<exists>x. transport_handle_event example_crypto k p objs (SendExecutedEvent svc i ts) = Inr (Some (Address svc, x))"
    by (intro example_transport [OF assms]) (auto simp: event_message_def is_instance_def)
  show "\<exists>x. transport_handle_event example_crypto k p objs (NodeEvent (SendProvenOfferEvent r (Some maker))) =
      Inr (Some (Address maker, x))"
    by (intro example_transport [OF assms]) (auto simp: event_message_def proven_offer_msg_def is_instance_def)
qed

lemma example_truth: "class_of x = C_SwapExecution \<Longrightarrow> msg_truth example_crypto (Some x) = Inr True"
  by (cases x) (auto simp: msg_truth_def is_instance_def example_crypto_def serial_def
      signed_fields_def rlphashable_fields_def field_values_def swap_execution_fields_def)

theorem trade_completes_witness:
  "\<exists>m m' x x' mc c' t ch.
    for_each (service_process example_crypto) [(0, Heard_commitment [3] m),
      (0, Got_transfer \<lparr>tr_initiator = demo_key, tr_amount = 4, tr_identifier = 5, tr_timestamp = 0\<rparr>),
      (0, Heard_commitment [4] m'),
      (0, Got_transfer \<lparr>tr_initiator = taker_key, tr_amount = 4, tr_identifier = 5, tr_timestamp = 0\<rparr>),
      (0, Heard_execution x), (0, Heard_execution x')] cs_start = (Inr (), c') \<and> size (refund_queue c') = 2 \<and>
    sw_terminated_state (swap_objs c' 0) = Some Traded \<and> dict_get 5 (swaps c') = None \<and>
    taker_called example_crypto (Heard_message mc) = Inr ch \<and>
    handles_all [(0, CommitmentProofStateChange (m_signature m) (proof_for example_crypto [3] 5 m)),
      (0, OfferPublishedStateChange (example_entry 5 2)), (0, ch),
      (0, TransferReceivedStateChange \<lparr>pay_initiator = taker_key, pay_amount = 10, pay_identifier = 5\<rparr>),
      (0, TransferReceivedStateChange \<lparr>pay_initiator = [8], pay_amount = 4, pay_identifier = 5\<rparr>)]
      (demo_node Unproved) = (Inr (), t) \<and> f_state (offer_objs t 0) = Completed"
proof -
  let ?C = example_crypto and ?n = "demo_node Unproved"
  obtain m where m: "transport_handle_event ?C demo_key demo_pair (offer_objs ?n) (CommitmentMsgEvent [8] 0 4) =
      Inr (Some (Address [8], m))"
    using example_messages(1) [OF demo_key_length] by blast
  let ?P = "proof_for ?C [3] 5 m"
  let ?mt = "(maker_match (Some 0) demo_key (Some ?P))\<lparr>mt_role := TAKER\<rparr>"
  let ?n' = "?n\<lparr>matches := [(5, ?mt)]\<rparr>"
  obtain m' where m': "transport_handle_event ?C taker_key demo_pair (offer_objs ?n') (CommitmentMsgEvent [8] 0 4) =
      Inr (Some (Address [8], m'))"
    using example_messages(1) [OF taker_key_facts(1)] by blast
  let ?P' = "proof_for ?C [3] 5 m'" and ?w = "\<lambda>P r. (demo_offer Exchanging)\<lparr>f_proof := Some P\<rparr>"
  obtain mc where mc: "transport_handle_event ?C taker_key demo_pair (?w ?P') (NodeEvent (SendProvenOfferEvent 0 (Some demo_key))) =
      Inr (Some (Address demo_key, mc))"
    using example_messages(3) [OF taker_key_facts(1)] by blast
  obtain x x' where x: "transport_handle_event ?C demo_key demo_pair (offer_objs ?n) (SendExecutedEvent [8] 5 0) =
      Inr (Some (Address [8], x))"
    "transport_handle_event ?C taker_key demo_pair (offer_objs ?n) (SendExecutedEvent [8] 5 0) =
      Inr (Some (Address [8], x'))"
    using example_messages(2) demo_key_length taker_key_facts(1) by meson
  have cls: "class_of y = C_SwapExecution"
    if "transport_handle_event ?C k demo_pair objs (SendExecutedEvent [8] 5 0) = Inr (Some (t, y))" "length k = 32"
    for k y objs t
    using signed_event [OF that(1) _ example_recovers [OF that(2)]] by (auto simp: event_message_def)
  note truth = example_truth [OF cls [OF x(1) demo_key_length]] example_truth [OF cls [OF x(2) taker_key_facts(1)]]
  have nodes: "ready_maker 5 0 ?n" "ready_taker 5 0 demo_key ?P ?mt ?n'" "e_id (example_entry 5 2) = 5"
    by (simp_all add: ready_maker_def ready_taker_def committed_def maker_match_def example_entry_def e_id_def dict_get_def)
  have service: "dict_get 5 (swaps cs_start) = None" "\<forall>(k, _) \<in> set (message_queue cs_start). k < next_msg cs_start"
    by (simp_all add: cs_start_def)
  have proofs: "?P = with_signature (proof_for ?C [3] 5 m) None" "?P' = with_signature (proof_for ?C [3] 5 m') None"
    by (simp_all add: proof_for_def)
  have clock: "seconds_to_timeout 0 (o_timeout (offer_objs ?n 0)) = Inr 0" "time_now 0 = Inr 0"
    using to_double_of_int [of 0] dt_to_ms_whole [of 0]
    by (simp_all add: demo_offer_def seconds_to_timeout_def ms_timestamp_to_dt_def mk_datetime_def
        datetime_min_def datetime_max_def total_seconds_def int_truediv_def time_now_def)
  define pay :: "bytes \<Rightarrow> int \<Rightarrow> payment" where
    "pay a n = \<lparr>pay_initiator = a, pay_amount = n, pay_identifier = 5\<rparr>" for a n
  have pays: "identifier_tuple (pay a n) = (a, 5)" for a n by (simp add: pay_def)
  define deposit where "deposit a = \<lparr>tr_initiator = a, tr_amount = 4, tr_identifier = 5, tr_timestamp = 0\<rparr>" for a
  have deposits: "deposit_of a 5 (deposit a)" for a by (simp add: deposit_of_def deposit_def)
  have objs: "o_id (?w ?P' 0) = 5" "f_proof (?w ?P' 0) = Some ?P'" by (simp_all add: demo_offer_def)
  note run = trade_completes [OF demo_recovers example_recovers [OF taker_key_facts(1)] taker_key_facts(2) nodes
      service deposits deposits m m' proofs mc objs x truth clock pays pays pays pays]
  obtain c' t ch where out:
    "for_each (service_process ?C) [(0, Heard_commitment [3] m), (0, Got_transfer (deposit demo_key)),
      (0, Heard_commitment [4] m'), (0, Got_transfer (deposit taker_key)), (0, Heard_execution x), (0, Heard_execution x')]
      cs_start = (Inr (), c')"
    "refund_queue c' = {#fee_refund (deposit demo_key), fee_refund (deposit taker_key)#} + refund_queue cs_start"
    "sw_terminated_state (swap_objs c' (next_swap cs_start)) = Some Traded"
    "\<forall>j. dict_get j (swaps c') = dict_get j (swaps cs_start)"
    "taker_called ?C (Heard_message mc) = Inr ch"
    "handles_all [(0, CommitmentProofStateChange (m_signature m) ?P), (0, OfferPublishedStateChange (example_entry 5 2)),
      (0, ch), (0, TransferReceivedStateChange (pay taker_key 10)), (0, TransferReceivedStateChange (pay [8] 4))] ?n =
      (Inr (), t)"
    "f_state (offer_objs t 0) = Completed"
    using run [of 0 0 "[4]" 0 0 0 0 0 0 10 0 4 0 0 20 0 4] by blast
  have "size (refund_queue c') = 2" unfolding out(2) by (simp add: cs_start_def)
  moreover have "sw_terminated_state (swap_objs c' 0) = Some Traded" "dict_get 5 (swaps c') = None"
    using out(3,4) by (simp_all add: cs_start_def)
  ultimately show ?thesis using out(1,5-7) unfolding pay_def deposit_def by blast
qed

end
