(* ===== verification/Node_Payments.thy ===== *)
theory Node_Payments
  imports Node_Properties
begin

text \<open>
  How far an offer has come by payments: only the handler of a received payment moves an offer to
  \<open>Wait_for_refund\<close> and \<open>Completed\<close>, one step for each payment under the id of the offer.
\<close>

section \<open>Payments an offer has received\<close>

fun payments_in :: "offer_state \<Rightarrow> nat" where
  "payments_in Wait_for_refund = 1"
| "payments_in Completed = 2"
| "payments_in _ = 0"

text \<open>No offer has come further than \<open>f\<close> allows for its id.\<close>

definition paid_within :: "(int \<Rightarrow> nat) \<Rightarrow> node \<Rightarrow> bool" where
  "paid_within f s \<longleftrightarrow>
     (\<forall>r < next_offer s. payments_in (f_state (offer_objs s r)) \<le> f (o_id (offer_objs s r)))"

definition paid_at :: "(int \<Rightarrow> nat) \<Rightarrow> (nat \<times> int) set \<Rightarrow> node \<Rightarrow> bool" where
  "paid_at f R s \<longleftrightarrow> node_at R s \<and> paid_within f s"

lemma paid_within_cong:
  "offer_objs t = offer_objs s \<Longrightarrow> next_offer t = next_offer s \<Longrightarrow> paid_within f t = paid_within f s"
  by (simp add: paid_within_def)

lemma paid_within_fields [simp]:
  "paid_within f (s\<lparr>dispatched := d\<rparr>) = paid_within f s" "paid_within f (s\<lparr>book := b\<rparr>) = paid_within f s"
  "paid_within f (s\<lparr>channels := c\<rparr>) = paid_within f s" "paid_within f (s\<lparr>orders := os\<rparr>) = paid_within f s"
  "paid_within f (s\<lparr>manager_offers := m\<rparr>) = paid_within f s" "paid_within f (s\<lparr>matches := ms\<rparr>) = paid_within f s"
  "paid_within f (kill_greenlet g s) = paid_within f s"
  by (simp_all add: paid_within_def kill_greenlet_def)

lemma preserves_paid:
  assumes "preserves (node_at R) m" and "\<And>s. paid_within f s \<Longrightarrow> paid_within f (snd (m s))"
  shows "preserves (paid_at f R) m"
  using assms by (auto simp: preserves_def paid_at_def)

lemma paid_upd:
  assumes "paid_within f s" and "\<And>w. o_id (g w) = o_id w"
    and "payments_in (f_state (g (offer_objs s r))) \<le> payments_in (f_state (offer_objs s r))"
  shows "paid_within f (upd_offer r g s)"
  using assms order_trans by (fastforce simp: paid_within_def upd_offer_def)

lemma paid_on_enter: "paid_within f s \<Longrightarrow> paid_within f (snd (on_enter args r d s))"
  by (cases d)
     (auto simp: on_enter_def on_enter_unproved_def on_enter_published_def on_enter_cancellation_def
        initiate_refund_def set_proof_def dispatch_events_def modify_def return_def throw_def
        split: option.split intro: paid_upd)

lemma dest_unpaid: "t \<noteq> T_received_inbound \<Longrightarrow> offer_dest t st = Some d \<Longrightarrow> payments_in d = 0"
  by (cases t) (auto simp: offer_dest_def split: if_splits)

lemma paid_fire:
  assumes "t \<noteq> T_received_inbound" and "paid_within f s"
  shows "paid_within f (snd (fire_offer t args r s))"
proof (cases "offer_dest t (f_state (offer_objs s r))")
  case None
  then show ?thesis using assms(2) by (simp add: fire_offer_eq)
next
  case (Some d)
  let ?s = "upd_offer r (\<lambda>w. w\<lparr>f_state := d, f_status := status_of d\<rparr>) s"
  have "paid_within f ?s" using assms(2) dest_unpaid [OF assms(1) Some] by (intro paid_upd) simp_all
  then have "paid_within f (snd (on_enter args r d ?s))" by (rule paid_on_enter)
  moreover obtain x u where "on_enter args r d ?s = (x, u)" by fastforce
  ultimately show ?thesis using Some by (simp add: fire_offer_eq split: sum.split)
qed

lemma paid_clean_up [simp]: "paid_within f (snd (clean_up_timeout i s)) = paid_within f s"
  by (rule paid_within_cong) simp_all

lemma paid_new_timeout: "paid_within f s \<Longrightarrow> paid_within f (snd (create_new_timeout now i timeout threshold s))"
proof -
  assume s: "paid_within f s"
  obtain r t where t: "create_new_timeout now i timeout threshold s = (r, t)" by fastforce
  then show ?thesis
  proof (cases rule: create_new_timeout_cases)
    case (spawned lifetime)
    have "paid_within f t = paid_within f (snd (clean_up_timeout i s))"
      unfolding spawned(3) by (rule paid_within_cong) simp_all
    then show ?thesis using s t by simp
  qed (use s t in simp_all)
qed

lemma paid_order_add: "paid_within f s \<Longrightarrow> paid_within f (snd (order_add_offer i r s))"
proof -
  assume s: "paid_within f s"
  let ?s = "upd_order i (\<lambda>od. od\<lparr>lo_offers := dict_set (o_id (offer_objs s r)) r (lo_offers od)\<rparr>) s"
  have "paid_within f ?s" using s by (simp add: upd_order_def split: option.split)
  then have "paid_within f (snd (fire_offer T_initiating no_args r ?s))" by (intro paid_fire) simp_all
  then show ?thesis by (simp add: order_add_offer_def seq_Inr [OF modify_apply] seq_unit)
qed

lemma paid_new_offer:
  assumes "paid_within f s" shows "paid_within f (snd (new_offer b role s))"
  using assms by (auto simp: paid_within_def new_offer_def less_Suc_eq)

interpretation paid_kept: node_code "- {T_received_inbound}" Pair "paid_at f" for f
proof unfold_locales
  show "paid_at f R s" if "paid_at f (insert x R) s" for x R s
    using that by (cases x) (simp add: paid_at_def node_at_insert)
  show "paid_at f (insert (r, i) R) s" if "paid_at f R s" "get_offer i s = Some r" for R s i r
    using that get_offer_ref by (auto simp: paid_at_def)
  show "paid_at f R (s\<lparr>orders := dict_set (lo_id od) od (orders s)\<rparr>)"
    if "paid_at f R s" "lo_offers od = []" for R s od
    using that node_at_of_order by (auto simp: paid_at_def)
  show "preserves (paid_at f R) (fire_offer t args r)" if "t \<in> - {T_received_inbound}" for R t args r
    using that by (intro preserves_paid preserves_fire paid_fire) simp_all
  show "paid_at f (insert (r, o_id bo) R) s'" if "paid_at f R s" "new_offer bo role s = (Inr r, s')" for R s bo role r s'
    using that node_at_created [of R s bo role r s'] paid_new_offer [of f s bo role] by (simp add: paid_at_def)
  show "(r, o_id (offer_objs s r)) \<in> R" if "paid_at f R s" "(r, i) \<in> R" for R s r i
    using that by (auto simp: paid_at_def node_at_def)
  show "preserves (paid_at f R) (dispatch_events evs)" for R evs
    by (intro preserves_paid preserves_dispatch) (simp add: dispatch_events_def modify_def)
  show "preserves (paid_at f R) (manager_add_offer r)" if "(r, i) \<in> R" for r i R
    using that by (intro preserves_paid preserves_manager_add) (simp_all add: manager_add_offer_def modify_def)
  show "preserves (paid_at f R) (put_match i m)" if "\<And>r. mt_offer m = Some r \<Longrightarrow> (r, i) \<in> R" for m i R
    using that by (intro preserves_paid preserves_put_match) (simp_all add: put_match_def modify_def)
  show "preserves (paid_at f R) (order_add_offer i r)" if "(r, j) \<in> R" for r j R i
    using that by (intro preserves_paid preserves_order_add paid_order_add)
  show "preserves (paid_at f R) (book_drop i)" for R i
    by (rule preserves_book_remove) (simp add: paid_at_def)
qed (auto simp: paid_at_def node_at_fired
    intro!: preserves_paid preserves_clean_up preserves_new_timeout paid_new_timeout)

section \<open>The handler of payments\<close>

text \<open>What a payment does, also for a match without an offer.\<close>

lemma transfer_no_offer:
  "dict_get (pay_identifier e) (matches s) = Some m \<Longrightarrow> mt_offer m = None \<Longrightarrow>
    handle_transfer_received e s = (Inl AttributeError, s)"
  by (simp add: handle_transfer_received_def dict_item_def prog_simps match_received_inbound_def match_offer_def)

lemma transfer_eq:
  "handle_transfer_received e s =
    (case dict_get (pay_identifier e) (matches s) of
       None \<Rightarrow> (Inl KeyError, s)
     | Some m \<Rightarrow>
         (case mt_offer m of
            None \<Rightarrow> (Inl AttributeError, s)
          | Some r \<Rightarrow>
              (case f_state (offer_objs s r) of
                 Exchanging \<Rightarrow> (Inr (), emit [ReceivedInboundEvent r e] (enter_state Wait_for_refund r s))
               | Wait_for_refund \<Rightarrow> clean_up_timeout (pay_identifier e) (enter_state Completed r s)
               | _ \<Rightarrow> (Inl MachineError, s))))"
proof (cases "dict_get (pay_identifier e) (matches s)")
  case None
  then show ?thesis by (subst transfer_received_eq) simp_all
next
  case (Some m)
  show ?thesis
  proof (cases "mt_offer m")
    case None
    then show ?thesis using transfer_no_offer [OF Some] Some by simp
  next
    case (Some r)
    with \<open>dict_get (pay_identifier e) (matches s) = Some m\<close> show ?thesis
      by (subst transfer_received_eq) (simp_all add: Let_def)
  qed
qed

lemma paid_enter:
  assumes "paid_within f s" and "payments_in d \<le> Suc (payments_in (f_state (offer_objs s r)))" and "r < next_offer s"
  shows "paid_within (f(o_id (offer_objs s r) := Suc (f (o_id (offer_objs s r))))) (enter_state d r s)"
  unfolding paid_within_def
proof (intro allI impI)
  fix q assume "q < next_offer (enter_state d r s)"
  then have q: "q < next_offer s" by (simp add: enter_state_def upd_offer_def)
  have le: "payments_in (f_state (offer_objs s x)) \<le> f (o_id (offer_objs s x))" if "x < next_offer s" for x
    using assms(1) that by (simp add: paid_within_def)
  show "payments_in (f_state (offer_objs (enter_state d r s) q))
      \<le> (f(o_id (offer_objs s r) := Suc (f (o_id (offer_objs s r))))) (o_id (offer_objs (enter_state d r s) q))"
    using le [OF q] le [OF assms(3)] assms(2) by auto
qed

lemma paid_transfer:
  assumes ok: "node_ok s" and paid: "paid_within f s"
  shows "paid_within (f(pay_identifier e := Suc (f (pay_identifier e)))) (snd (handle_transfer_received e s))"
proof -
  let ?f = "f(pay_identifier e := Suc (f (pay_identifier e)))"
  have same: "paid_within ?f s" using paid by (auto simp: paid_within_def intro: le_SucI)
  show ?thesis
  proof (cases "\<exists>m r. dict_get (pay_identifier e) (matches s) = Some m \<and> mt_offer m = Some r")
    case False
    then show ?thesis using same by (auto simp: transfer_eq split: option.split)
  next
    case True
    then obtain m r where m: "dict_get (pay_identifier e) (matches s) = Some m" "mt_offer m = Some r" by blast
    then have r: "r < next_offer s" "o_id (offer_objs s r) = pay_identifier e"
      using ok by (simp_all add: node_ok_def offers_ok_def)
    consider "f_state (offer_objs s r) = Exchanging" | "f_state (offer_objs s r) = Wait_for_refund"
      | "handle_transfer_received e s = (Inl MachineError, s)"
      using m by (cases "f_state (offer_objs s r)") (simp_all add: transfer_eq)
    then show ?thesis
    proof cases
      case 1
      then have "paid_within ?f (enter_state Wait_for_refund r s)" using paid_enter [OF paid _ r(1)] r(2) by simp
      then show ?thesis using 1 m by (simp add: transfer_eq emit_def)
    next
      case 2
      then have "paid_within ?f (enter_state Completed r s)" using paid_enter [OF paid _ r(1), of Completed] r(2) by simp
      then show ?thesis using 2 m by (simp add: transfer_eq)
    qed (simp add: same)
  qed
qed

text \<open>One state change: only a payment can move an offer on, and only offers under its id.\<close>

definition payments_under :: "int \<Rightarrow> state_change list \<Rightarrow> nat" where
  "payments_under i chs = length (filter (\<lambda>ch. case ch of
     TransferReceivedStateChange e \<Rightarrow> pay_identifier e = i | _ \<Rightarrow> False) chs)"

lemma paid_change:
  assumes "node_ok s" and "paid_within (\<lambda>i. payments_under i chs) s"
  shows "paid_within (\<lambda>i. payments_under i (chs @ [ch])) (snd (handle_state_change now rnd rnd' ch s))"
proof (cases "\<exists>e. ch = TransferReceivedStateChange e")
  case True
  then obtain e where e: "ch = TransferReceivedStateChange e" by blast
  have "(\<lambda>i. payments_under i (chs @ [ch])) =
      (\<lambda>i. payments_under i chs)(pay_identifier e := Suc (payments_under (pay_identifier e) chs))"
    by (rule ext) (simp add: payments_under_def e)
  then show ?thesis using paid_transfer [OF assms] e by (simp add: handle_state_change_def)
next
  case False
  have "paid_at (\<lambda>i. payments_under i chs) {} s" using assms by (simp add: paid_at_def)
  then have "paid_at (\<lambda>i. payments_under i chs) {} (snd (handle_state_change now rnd rnd' ch s))"
    using paid_kept.keeps_state_change [of ch "\<lambda>i. payments_under i chs" "{}" now rnd rnd'] False
    by (auto simp: preserves_def)
  moreover have "payments_under i (chs @ [ch]) = payments_under i chs" for i
    using False by (cases ch) (simp_all add: payments_under_def)
  ultimately show ?thesis by (simp add: paid_at_def)
qed

end
