(* ===== verification/Node_Trace.thy ===== *)
theory Node_Trace
  imports Node_Invariant "HOL-Library.Sublist"
begin

text \<open>
  The node as what a list of state changes makes of it (\<open>StateChangeHandler\<close> behind its queue): the runs of the node that
  remember which state changes were handled, and that handlers only ever add to what the node has dispatched.
\<close>

section \<open>Traces\<close>

text \<open>
  Handling state changes in order, while the timers of the offers fire in between: what was handled, if the
  consumer is still alive, and the node. After a handler that raises, only timers go on.
\<close>

inductive node_trace :: "node \<Rightarrow> state_change list \<Rightarrow> bool \<Rightarrow> node \<Rightarrow> bool" for n where
  nt_start: "node_trace n [] True n"
| nt_handle: "node_trace n chs True m \<Longrightarrow> handle_state_change now rnd rnd' ch m = (x, m') \<Longrightarrow>
    node_trace n (chs @ [ch]) (ok_result x) m'"
| nt_timeout: "node_trace n chs alive m \<Longrightarrow> g < next_greenlet m \<Longrightarrow> \<not> g_dead (greenlets m g) \<Longrightarrow>
    node_trace n chs alive (kill_greenlet g m)"

lemma trace_runs: "node_trace n chs alive m \<Longrightarrow> reachable_from node_step n m"
proof (induction rule: node_trace.induct)
  case (nt_handle chs m now rnd rnd' ch x m')
  then show ?case using ns_handle [of m now rnd rnd' ch] by (auto intro: reach_step)
qed (auto intro: reach_start reach_step ns_timeout)

section \<open>What handlers dispatch\<close>

lemma says_upd [simp]: "dispatched (upd_offer r f s) = dispatched s"
  by (simp add: upd_offer_def)

lemma on_enter_says: "prefix (dispatched s) (dispatched (snd (on_enter args r d s)))"
  by (cases d)
     (simp_all add: on_enter_def on_enter_unproved_def on_enter_published_def on_enter_cancellation_def
        initiate_refund_def set_proof_def prog_simps upd_offer_def dispatch_events_def split: option.split)

lemma fire_says: "prefix (dispatched s) (dispatched (snd (fire_offer t args r s)))"
proof (cases "offer_dest t (f_state (offer_objs s r))")
  case (Some d)
  obtain x u where u: "on_enter args r d
      (upd_offer r (\<lambda>w. w\<lparr>f_state := d, f_status := status_of d\<rparr>) s) = (x, u)" by fastforce
  then have "prefix (dispatched s) (dispatched u)" using on_enter_says by (metis says_upd snd_conv)
  then show ?thesis using Some u by (simp add: fire_offer_eq split: sum.split)
qed (simp add: fire_offer_eq)

lemma clean_up_says: "dispatched (snd (clean_up_timeout i s)) = dispatched s"
  by (simp add: clean_up_timeout_def modify_def kill_greenlet_def split: option.split)

lemma new_timeout_says: "dispatched (snd (create_new_timeout now i timeout threshold s)) = dispatched s"
proof -
  obtain r t where t: "create_new_timeout now i timeout threshold s = (r, t)" by fastforce
  then show ?thesis by (cases rule: create_new_timeout_cases) (use t clean_up_says in simp_all)
qed

lemma order_add_says: "prefix (dispatched s) (dispatched (snd (order_add_offer i r s)))"
proof (cases "dict_get i (orders s)")
  case (Some od)
  let ?s = "s\<lparr>orders := dict_set i (od\<lparr>lo_offers := dict_set (o_id (offer_objs s r)) r (lo_offers od)\<rparr>) (orders s)\<rparr>"
  show ?thesis using fire_says [of ?s] Some
    by (simp add: order_add_offer_def seq_Inr [OF modify_apply] seq_unit upd_order_def)
qed (use fire_says in \<open>simp add: order_add_offer_def seq_Inr [OF modify_apply] seq_unit upd_order_def\<close>)

lemma keeps_said:
  assumes "\<And>s. prefix (dispatched s) (dispatched (snd (m s)))" shows "preserves (\<lambda>s. prefix evs (dispatched s)) m"
  using assms prefix_order.trans by (auto simp: preserves_def)

interpretation said: node_code UNIV "\<lambda>_ _. ()" "\<lambda>_ s. prefix evs (dispatched s)" for evs
proof unfold_locales
  show "preserves (\<lambda>s. prefix evs (dispatched s)) (fire_offer t args r)" for t args r
    by (rule keeps_said) (rule fire_says)
  show "preserves (\<lambda>s. prefix evs (dispatched s)) (clean_up_timeout i)" for i
    by (rule keeps_said) (simp add: clean_up_says)
  show "preserves (\<lambda>s. prefix evs (dispatched s)) (create_new_timeout now i timeout threshold)" for now i timeout threshold
    by (rule keeps_said) (simp add: new_timeout_says)
  show "preserves (\<lambda>s. prefix evs (dispatched s)) (order_add_offer i r)" for i r
    by (rule keeps_said) (rule order_add_says)
  show "preserves (\<lambda>s. prefix evs (dispatched s)) (book_drop i)" for i
    by (rule keeps_said) (simp add: book_drop_def split: sum.split)
  show "prefix evs (dispatched t)" if "prefix evs (dispatched s)" "new_offer bo role s = (Inr r, t)" for s t bo role r
    using that by (auto simp: new_offer_def)
qed (auto simp: kill_greenlet_def dispatch_events_def manager_add_offer_def put_match_def intro!: preserves_modify)

lemma handler_says:
  assumes "handle_state_change now rnd rnd' ch s = (x, t)"
  shows "dispatched t = dispatched s @ drop (length (dispatched s)) (dispatched t)"
proof -
  have "prefix (dispatched s) (dispatched t)"
    using said.keeps_state_change [of ch "dispatched s" now rnd rnd'] assms
    by (auto simp: preserves_def dest: spec [of _ s])
  then show ?thesis by (auto simp: prefix_def)
qed

end
