(* ===== verification/Application.thy ===== *)
theory Application
  imports Exchange Node_Payments Order_Flow Node_Trace
begin

text \<open>
  A running application (\<open>app.py\<close>, \<open>architecture/event_architecture.py\<close>): the node, the four consumers of
  events with their queues, the queue of state changes, and what leaves for the broker and the
  payment node, as the interleaving of the loops of its greenlets. A handler that raises ends its
  consumer. What has been dispatched and what each consumer has taken are kept as a history.
\<close>

section \<open>The state\<close>

text \<open>What the queues of the consumers hold: events of the components, and what the poll has read.\<close>

datatype app_item = Dispatched app_event | Polled raiden_event

fun item_type :: "app_item \<Rightarrow> event_type" where
  "item_type (Dispatched ev) = event_type ev"
| "item_type (Polled r) = RaidenListenerEvent"

record app_config =
  cg_crypto :: crypto
  cg_key :: bytes
  cg_market :: token_pair
  cg_service :: cs_client
  cg_encoders :: encoders

record system =
  sy_node :: node
  sy_changes :: "state_change list"
  sy_queues :: "(event_type, app_item) consumers"
  sy_listener :: listener
  sy_waiting :: "int list"
  sy_outbox :: "(topic \<times> message) list"
  sy_requests :: "trader_request list"
  sy_node_alive :: bool
  sy_dead :: "event_type list"
  sy_done :: "state_change list"
  sy_raised :: "state_change list"
  sy_history :: "app_item list"
  sy_handled :: "event_type \<Rightarrow> app_item list"

definition queue_of :: "event_type \<Rightarrow> system \<Rightarrow> app_item list" where
  "queue_of t s = (case dict_get t (sy_queues s) of None \<Rightarrow> [] | Some q \<Rightarrow> q)"

definition dispatch_items :: "app_item list \<Rightarrow> system \<Rightarrow> system" where
  "dispatch_items xs s = s\<lparr>sy_queues := dispatch_to item_type xs (sy_queues s), sy_history := sy_history s @ xs\<rparr>"

text \<open>\<open>dispatch_state_changes\<close>: to the end of the queue of the node.\<close>

definition put_changes :: "state_change list \<Rightarrow> system \<Rightarrow> system" where
  "put_changes chs s = s\<lparr>sy_changes := sy_changes s @ chs, sy_raised := sy_raised s @ chs\<rparr>"

text \<open>\<open>Consumer._run\<close>: take the next event of the queue.\<close>

definition take_item :: "event_type \<Rightarrow> system \<Rightarrow> system" where
  "take_item t s = s\<lparr>sy_queues := dict_set t (tl (queue_of t s)) (sy_queues s),
     sy_handled := (sy_handled s)(t := sy_handled s t @ [hd (queue_of t s)])\<rparr>"

definition die :: "event_type \<Rightarrow> system \<Rightarrow> system" where
  "die t s = s\<lparr>sy_dead := t # sy_dead s\<rparr>"

section \<open>The consumers\<close>

text \<open>
  Payments are made in greenlets of their own, so that an exception there does not end the consumer;
  opening a channel is not. \<open>posted\<close> tells if the request of the step gets through.
\<close>

definition consume_trader :: "app_config \<Rightarrow> bool \<Rightarrow> app_event \<Rightarrow> system \<Rightarrow> system" where
  "consume_trader K posted ev s =
     (case trader_handle_event (cg_encoders K) (cg_market K) (offer_objs (sy_node s)) ev of
        Inr (Some req) \<Rightarrow>
          (case req of
             ChannelRequest _ _ _ \<Rightarrow>
               if posted then s\<lparr>sy_requests := sy_requests s @ [req]\<rparr> else die TraderEvent s
           | PayRequest _ \<Rightarrow> if posted then s\<lparr>sy_requests := sy_requests s @ [req]\<rparr> else s)
      | _ \<Rightarrow> s)"

definition consume_service :: "app_config \<Rightarrow> datetime \<Rightarrow> app_event \<Rightarrow> system \<Rightarrow> system" where
  "consume_service K now ev s =
     (case ev of
        NodeEvent e \<Rightarrow>
          (case cs_handle_event (cg_service K) now (offer_objs (sy_node s)) e of
             Inl _ \<Rightarrow> die CommitmentServiceEvent s
           | Inr (evs, offer_ids) \<Rightarrow>
               dispatch_items (map Dispatched evs) (s\<lparr>sy_waiting := sy_waiting s @ offer_ids\<rparr>))
      | _ \<Rightarrow> s)"

text \<open>The message is signed, then posted; a request that fails ends the consumer.\<close>

definition consume_transport :: "app_config \<Rightarrow> bool \<Rightarrow> app_event \<Rightarrow> system \<Rightarrow> system" where
  "consume_transport K posted ev s =
     (case transport_handle_event (cg_crypto K) (cg_key K) (cg_market K) (offer_objs (sy_node s)) ev of
        Inl _ \<Rightarrow> die TransportEvent s
      | Inr None \<Rightarrow> s
      | Inr (Some x) \<Rightarrow> if posted then s\<lparr>sy_outbox := sy_outbox s @ [x]\<rparr> else die TransportEvent s)"

definition listen_item :: "app_item \<Rightarrow> listener_event option" where
  "listen_item x =
     (case x of
        Polled r \<Rightarrow> Some (RaidenEvent r)
      | Dispatched (NodeEvent e) \<Rightarrow> listener_event_of e
      | _ \<Rightarrow> None)"

definition consume_listener :: "app_item \<Rightarrow> system \<Rightarrow> system" where
  "consume_listener x s =
     (case listen_item x of
        None \<Rightarrow> s
      | Some ev \<Rightarrow>
          (case handle_listener_event ev (sy_listener s) of
             Inl _ \<Rightarrow> die RaidenListenerEvent s
           | Inr (chs, l) \<Rightarrow> put_changes chs (s\<lparr>sy_listener := l\<rparr>)))"

definition consume :: "app_config \<Rightarrow> datetime \<Rightarrow> bool \<Rightarrow> event_type \<Rightarrow> app_item \<Rightarrow> system \<Rightarrow> system" where
  "consume K now posted t x s =
     (case t of
        RaidenListenerEvent \<Rightarrow> consume_listener x s
      | _ \<Rightarrow> (case x of
            Polled _ \<Rightarrow> s
          | Dispatched ev \<Rightarrow>
              (case t of
                 TraderEvent \<Rightarrow> consume_trader K posted ev s
               | CommitmentServiceEvent \<Rightarrow> consume_service K now ev s
               | _ \<Rightarrow> consume_transport K posted ev s)))"

text \<open>The consumer of state changes: what the handler dispatches, also before it raises, is queued.\<close>

definition consume_change :: "datetime \<Rightarrow> int \<Rightarrow> int \<Rightarrow> system \<Rightarrow> system" where
  "consume_change now rnd rnd' s =
     (case handle_state_change now rnd rnd' (hd (sy_changes s)) (sy_node s) of (x, n) \<Rightarrow>
        dispatch_items (map (\<lambda>ev. Dispatched (NodeEvent ev)) (drop (length (dispatched (sy_node s))) (dispatched n)))
          (s\<lparr>sy_node := n, sy_changes := tl (sy_changes s), sy_done := sy_done s @ [hd (sy_changes s)],
             sy_node_alive := ok_result x\<rparr>))"

section \<open>Runs\<close>

text \<open>
  State changes come from calls of the interface (\<open>handle_api_call.py\<close>), from the tasks that listen for
  proofs and for offers (\<open>tasks.py\<close>, \<open>listener_tasks.py\<close>), from the greenlet that waits for the taker of an
  offer (\<open>wait_for_taker\<close>, over once it has heard one, also if the message turns out to have no sender),
  from timeouts that fire, and from the listener. The poll dispatches a payment once.
\<close>

definition poll_new :: "raiden_event \<Rightarrow> system \<Rightarrow> bool" where
  "poll_new r s =
     (case r of
        PaymentReceivedEvent e \<Rightarrow>
          list_all (\<lambda>x. case x of
             Polled (PaymentReceivedEvent e') \<Rightarrow> identifier_tuple e' \<noteq> identifier_tuple e | _ \<Rightarrow> True) (sy_history s)
      | ChannelStatusRaidenEvent _ \<Rightarrow> True)"

inductive system_step :: "app_config \<Rightarrow> system \<Rightarrow> system \<Rightarrow> bool" for K where
  sy_call: "on_api_call rnd call (sy_node s) = Inr (answer, chs) \<Longrightarrow>
    system_step K s (put_changes chs s)"
| sy_proof: "commitment_proof_transform m = Some h \<Longrightarrow> commitment_proof_process h = Inr ch \<Longrightarrow>
    system_step K s (put_changes [ch] s)"
| sy_offer: "transform_of (cg_crypto K) (OfferListener (cg_market K)) m = Inr (Some (Heard_entry e)) \<Longrightarrow>
    system_step K s (put_changes [OfferPublishedStateChange e] s)"
| sy_taker: "i \<in> set (sy_waiting s) \<Longrightarrow> taker_transform i m = Some h \<Longrightarrow>
    system_step K s (put_changes (case taker_called (cg_crypto K) h of Inl _ \<Rightarrow> [] | Inr ch \<Rightarrow> [ch])
      (s\<lparr>sy_waiting := remove1 i (sy_waiting s)\<rparr>))"
| sy_timeout: "g < next_greenlet (sy_node s) \<Longrightarrow> \<not> g_dead (greenlets (sy_node s) g) \<Longrightarrow>
    system_step K s (put_changes [OfferTimeoutStateChange (g_offer_id (greenlets (sy_node s) g))
        (g_timeout (greenlets (sy_node s) g))] (s\<lparr>sy_node := kill_greenlet g (sy_node s)\<rparr>))"
| sy_change: "sy_node_alive s \<Longrightarrow> sy_changes s \<noteq> [] \<Longrightarrow> system_step K s (consume_change now rnd rnd' s)"
| sy_event: "t \<notin> set (sy_dead s) \<Longrightarrow> queue_of t s = x # rest \<Longrightarrow>
    system_step K s (consume K now posted t x (take_item t s))"
| sy_poll: "poll_new r s \<Longrightarrow> system_step K s (dispatch_items [Polled r] s)"

inductive_cases system_step_E: "system_step K s t"

text \<open>Starting the node announces its channels; the consumers are connected before.\<close>

definition system_start :: system where
  "system_start = dispatch_items [Dispatched (NodeEvent (ChannelFilterEvent (channels start_node)))]
     \<lparr>sy_node = start_node, sy_changes = [], sy_queues = app_consumers,
      sy_listener = \<lparr>event_filters = [], next_filter = 0\<rparr>, sy_waiting = [], sy_outbox = [],
      sy_requests = [], sy_node_alive = True, sy_dead = [], sy_done = [], sy_raised = [], sy_history = [], sy_handled = (\<lambda>_. [])\<rparr>"

lemma put_changes_fields [simp]:
  "sy_changes (put_changes chs s) = sy_changes s @ chs" "sy_raised (put_changes chs s) = sy_raised s @ chs"
  "sy_node (put_changes chs s) = sy_node s" "sy_queues (put_changes chs s) = sy_queues s"
  "sy_listener (put_changes chs s) = sy_listener s" "sy_waiting (put_changes chs s) = sy_waiting s"
  "sy_outbox (put_changes chs s) = sy_outbox s" "sy_requests (put_changes chs s) = sy_requests s"
  "sy_node_alive (put_changes chs s) = sy_node_alive s" "sy_dead (put_changes chs s) = sy_dead s"
  "sy_done (put_changes chs s) = sy_done s" "sy_history (put_changes chs s) = sy_history s"
  "sy_handled (put_changes chs s) = sy_handled s" "queue_of t (put_changes chs s) = queue_of t s"
  by (simp_all add: put_changes_def queue_of_def)

section \<open>Routing\<close>

definition routed :: "system \<Rightarrow> bool" where
  "routed s \<longleftrightarrow> (\<forall>t. dict_mem t (sy_queues s)) \<and>
     (\<forall>t. sy_handled s t @ queue_of t s = filter (\<lambda>x. item_type x = t) (sy_history s))"

lemma dict_get_map_values:
  "dict_get k (map (\<lambda>(k, v). (k, f k v)) d) = map_option (f k) (dict_get k d)"
  by (induction d) (auto simp: dict_get_def)

lemma queue_dispatch:
  assumes "routed s"
  shows "queue_of t (dispatch_items xs s) = queue_of t s @ filter (\<lambda>x. item_type x = t) xs"
proof -
  obtain q where "dict_get t (sy_queues s) = Some q" using assms by (auto simp: routed_def dict_mem_def)
  then show ?thesis
    using dict_get_map_values [of t "\<lambda>t q. q @ filter (\<lambda>ev. item_type ev = t) xs" "sy_queues s"]
    by (simp add: queue_of_def dispatch_items_def dispatch_to_eq)
qed

lemma routed_dispatch: "routed s \<Longrightarrow> routed (dispatch_items xs s)"
  using queue_dispatch [of s] dict_get_map_values [of _ "\<lambda>t q. q @ filter (\<lambda>ev. item_type ev = t) xs" "sy_queues s"]
  by (simp add: routed_def) (simp add: dispatch_items_def dispatch_to_eq dict_mem_def)

lemma routed_take:
  assumes "routed s" and "queue_of t s = x # rest" shows "routed (take_item t s)"
proof -
  have q: "queue_of u (take_item t s) = (if u = t then rest else queue_of u s)" for u
    using assms(2) by (simp add: queue_of_def take_item_def)
  have "sy_handled (take_item t s) u @ queue_of u (take_item t s) = sy_handled s u @ queue_of u s" for u
    unfolding q using assms(2) by (simp add: take_item_def)
  then show ?thesis using assms(1) by (simp add: routed_def) (simp add: take_item_def dict_mem_def)
qed

section \<open>What may be in the queues\<close>

text \<open>Commitments, cancellations, reports and deposits go to the service; nothing is broadcast unsigned.\<close>

fun event_fits :: "app_config \<Rightarrow> app_event \<Rightarrow> bool" where
  "event_fits K (CommitmentMsgEvent a r n) \<longleftrightarrow> a = cc_service (cg_service K) \<and> n = cc_amount (cg_service K)"
| "event_fits K (CancellationMsgEvent a i) \<longleftrightarrow> a = cc_service (cg_service K)"
| "event_fits K (SendExecutedEvent a i ts) \<longleftrightarrow> a = cc_service (cg_service K)"
| "event_fits K (BroadcastEvent m) \<longleftrightarrow> False"
| "event_fits K (TransferEvent token target n i) \<longleftrightarrow>
     token = fee_address \<and> target = cc_service (cg_service K) \<and> n = cc_amount (cg_service K)"
| "event_fits K (NodeEvent e) \<longleftrightarrow> True"

definition items_fit :: "app_config \<Rightarrow> app_item list \<Rightarrow> bool" where
  "items_fit K xs \<longleftrightarrow> (\<forall>ev. Dispatched ev \<in> set xs \<longrightarrow> event_fits K ev)"

lemma items_fit_append [simp]: "items_fit K (xs @ ys) \<longleftrightarrow> items_fit K xs \<and> items_fit K ys"
  by (auto simp: items_fit_def)

lemma items_fit_node [simp]: "items_fit K (map (\<lambda>ev. Dispatched (NodeEvent ev)) evs)"
  by (auto simp: items_fit_def)

lemma items_fit_polled [simp]: "items_fit K [Polled r]"
  by (simp add: items_fit_def)

text \<open>Deposits that were ordered, and offers that were to be committed.\<close>

fun is_deposit :: "app_item \<Rightarrow> bool" where
  "is_deposit (Dispatched (TransferEvent _ _ _ _)) = True"
| "is_deposit _ = False"

fun is_commit :: "app_item \<Rightarrow> bool" where
  "is_commit (Dispatched (NodeEvent (CommitEvent _))) = True"
| "is_commit _ = False"

definition deposits_ordered :: "system \<Rightarrow> nat" where
  "deposits_ordered s = length (filter is_deposit (sy_history s))"

definition commits_taken :: "system \<Rightarrow> nat" where
  "commits_taken s = length (filter is_commit (sy_handled s CommitmentServiceEvent))"

lemma no_deposit_node [simp]: "filter is_deposit (map (\<lambda>ev. Dispatched (NodeEvent ev)) evs) = []"
  by (induction evs) simp_all

lemma service_events:
  assumes "cs_handle_event c now objs e = Inr (evs, ws)" and "c = cg_service K"
  shows "items_fit K (map Dispatched evs)"
    "length (filter is_deposit (map Dispatched evs)) = (if is_commit (Dispatched (NodeEvent e)) then 1 else 0)"
  using assms
  by (cases e; auto simp: cs_handle_event_def commit_def received_inbound_from_swap_def bind_res_Inr_iff
        request_cancellation_def transfer_commitment_event_def items_fit_def)+

definition sent_by :: "app_config \<Rightarrow> topic \<times> message \<Rightarrow> bool" where
  "sent_by K x \<longleftrightarrow> (\<exists>ev objs. event_fits K ev \<and> event_type ev = TransportEvent \<and>
     transport_handle_event (cg_crypto K) (cg_key K) (cg_market K) objs ev = Inr (Some x))"

definition system_ok :: "app_config \<Rightarrow> system \<Rightarrow> bool" where
  "system_ok K s \<longleftrightarrow> routed s \<and> items_fit K (sy_history s) \<and> (\<forall>x \<in> set (sy_outbox s). sent_by K x) \<and>
     deposits_ordered s = commits_taken s"

lemmas system_ok_defs = system_ok_def deposits_ordered_def commits_taken_def

text \<open>The fields the invariant reads.\<close>

lemma system_ok_fields [simp]:
  "system_ok K (s\<lparr>sy_changes := a\<rparr>) = system_ok K s" "system_ok K (s\<lparr>sy_node := n\<rparr>) = system_ok K s"
  "system_ok K (s\<lparr>sy_listener := l\<rparr>) = system_ok K s" "system_ok K (s\<lparr>sy_waiting := w\<rparr>) = system_ok K s"
  "system_ok K (s\<lparr>sy_requests := q\<rparr>) = system_ok K s" "system_ok K (s\<lparr>sy_node_alive := b\<rparr>) = system_ok K s"
  "system_ok K (die t s) = system_ok K s" "system_ok K (s\<lparr>sy_done := chs\<rparr>) = system_ok K s"
  "system_ok K (put_changes chs s) = system_ok K s"
  by (simp_all add: system_ok_defs routed_def queue_of_def die_def)

lemma system_ok_dispatch:
  "system_ok K s \<Longrightarrow> items_fit K xs \<Longrightarrow> filter is_deposit xs = [] \<Longrightarrow> system_ok K (dispatch_items xs s)"
  using routed_dispatch [of s xs] by (simp add: system_ok_defs) (simp add: dispatch_items_def)

section \<open>Steps keep the invariant\<close>

lemma taken_in_history:
  assumes "routed s" and "queue_of t s = x # rest"
  shows "x \<in> set (sy_history s)" "item_type x = t"
proof -
  have "x \<in> set (filter (\<lambda>x. item_type x = t) (sy_history s))"
    using assms by (metis routed_def in_set_conv_decomp)
  then show "x \<in> set (sy_history s)" "item_type x = t" by simp_all
qed

lemma taken_fits:
  assumes "system_ok K s" and "queue_of t s = Dispatched ev # rest"
  shows "event_fits K ev" "event_type ev = t"
  using taken_in_history [of s t "Dispatched ev" rest] assms by (auto simp: system_ok_def items_fit_def)

text \<open>A consumer that takes an item: only the consumer of the service's client moves the counts.\<close>

lemma taken_counts:
  "sy_history (take_item t s) = sy_history s" "sy_outbox (take_item t s) = sy_outbox s"
  "deposits_ordered (take_item t s) = deposits_ordered s"
  "queue_of t s = x # rest \<Longrightarrow> commits_taken (take_item t s) =
     commits_taken s + (if t = CommitmentServiceEvent \<and> is_commit x then 1 else 0)"
  by (simp_all add: take_item_def deposits_ordered_def commits_taken_def)

lemma system_ok_take:
  assumes "system_ok K s" and "queue_of t s = x # rest" and "t = CommitmentServiceEvent \<Longrightarrow> \<not> is_commit x"
  shows "system_ok K (take_item t s)"
  using assms routed_take [of s t x rest] taken_counts [of t s]
  by (auto simp: system_ok_def)

lemma system_ok_post:
  "system_ok K s \<Longrightarrow> sent_by K x \<Longrightarrow> system_ok K (s\<lparr>sy_outbox := sy_outbox s @ [x]\<rparr>)"
  by (auto simp: system_ok_defs routed_def queue_of_def)

lemma system_ok_trader: "system_ok K s \<Longrightarrow> system_ok K (consume_trader K posted ev s)"
  by (auto simp: consume_trader_def split: sum.split option.split trader_request.split)

lemma system_ok_listener: "system_ok K s \<Longrightarrow> system_ok K (consume_listener x s)"
proof -
  assume "system_ok K s"
  then have "system_ok K (put_changes chs (s\<lparr>sy_listener := l\<rparr>))" for l chs by simp
  then show ?thesis using \<open>system_ok K s\<close>
    by (auto simp: consume_listener_def split: option.split sum.split)
qed

lemma system_ok_transport:
  assumes "system_ok K s" and "event_fits K ev" and "event_type ev = TransportEvent"
  shows "system_ok K (consume_transport K posted ev s)"
proof -
  have "sent_by K x"
    if "transport_handle_event (cg_crypto K) (cg_key K) (cg_market K) (offer_objs (sy_node s)) ev = Inr (Some x)" for x
    using that assms(2,3) unfolding sent_by_def by blast
  then show ?thesis using assms(1) system_ok_post
    by (auto simp: consume_transport_def split: sum.split option.split)
qed

text \<open>The client of the service orders one deposit for each offer that is to be committed.\<close>

lemma system_ok_service:
  assumes "system_ok K s" and "queue_of CommitmentServiceEvent s = Dispatched ev # rest"
  shows "system_ok K (consume_service K now ev (take_item CommitmentServiceEvent s))"
proof -
  let ?s = "take_item CommitmentServiceEvent s"
  have type: "event_type ev = CommitmentServiceEvent" using taken_fits [OF assms] by simp
  then obtain e where e: "ev = NodeEvent e" by (cases ev) (auto simp: event_type_def)
  show ?thesis
  proof (cases "cs_handle_event (cg_service K) now (offer_objs (sy_node ?s)) e")
    case (Inl er)
    then have "\<not> is_commit (Dispatched ev)"
      by (cases e) (auto simp: e cs_handle_event_def)
    then show ?thesis using Inl system_ok_take [OF assms] by (simp add: consume_service_def e)
  next
    case (Inr r)
    obtain evs ws where r: "r = (evs, ws)" by (cases r)
    note out = service_events [OF Inr [unfolded r] refl]
    let ?u = "?s\<lparr>sy_waiting := sy_waiting ?s @ ws\<rparr>"
    have "routed ?u" using routed_take [OF _ assms(2)] assms(1) by (simp add: system_ok_def routed_def queue_of_def)
    then have "routed (dispatch_items (map Dispatched evs) ?u)" by (rule routed_dispatch)
    then have "system_ok K (dispatch_items (map Dispatched evs) ?u)"
      using assms(1) out taken_counts [of CommitmentServiceEvent s] taken_counts(4) [OF assms(2)] e
      by (simp add: system_ok_defs) (simp add: dispatch_items_def)
    then show ?thesis using Inr by (simp add: consume_service_def e r)
  qed
qed

lemma system_ok_consume:
  assumes "system_ok K s" and q: "queue_of t s = x # rest"
  shows "system_ok K (consume K now posted t x (take_item t s))"
proof (cases "t = CommitmentServiceEvent \<and> (\<exists>ev. x = Dispatched ev)")
  case True
  then show ?thesis using system_ok_service [OF assms(1)] q by (auto simp: consume_def)
next
  case False
  then have "t = CommitmentServiceEvent \<Longrightarrow> \<not> is_commit x" by (cases x) auto
  then have ok: "system_ok K (take_item t s)" by (rule system_ok_take [OF assms])
  show ?thesis
  proof (cases x)
    case (Polled r)
    then show ?thesis using ok system_ok_listener by (cases t) (simp_all add: consume_def)
  next
    case (Dispatched ev)
    with taken_fits [OF assms(1), of t ev rest] q have "event_fits K ev" "event_type ev = t" by simp_all
    then show ?thesis
      using ok False Dispatched system_ok_listener system_ok_trader system_ok_transport
      by (cases t) (simp_all add: consume_def)
  qed
qed

lemma filter_node_items: "filter is_deposit (map (\<lambda>ev. Dispatched (NodeEvent ev)) evs) = []"
  by simp

lemma system_ok_change: "system_ok K s \<Longrightarrow> system_ok K (consume_change now rnd rnd' s)"
  by (auto simp: consume_change_def split: prod.split intro!: system_ok_dispatch)

lemma system_ok_step: "system_step K s t \<Longrightarrow> system_ok K s \<Longrightarrow> system_ok K t"
  by (elim system_step_E) (auto intro: system_ok_change system_ok_consume system_ok_dispatch)

lemma start_consumers [simp]: "dict_get t app_consumers = Some []"
  by (cases t) (simp_all add: app_consumers_def connect_consumer_def dict_get_def)

lemma system_ok_start: "system_ok K system_start"
  unfolding system_start_def
  by (rule system_ok_dispatch)
    (simp_all add: system_ok_defs routed_def queue_of_def dict_mem_def items_fit_def)

interpretation app: step_system system_start "system_step K" "system_ok K" for K
  by unfold_locales (auto intro: system_ok_start system_ok_step)

section \<open>The node of an application\<close>

lemma handler_node:
  "sy_node (consume_trader K posted ev s) = sy_node s" "sy_node (consume_transport K posted ev s) = sy_node s"
  "sy_node (consume_listener x s) = sy_node s"
  by (auto simp: consume_trader_def consume_transport_def consume_listener_def die_def
      split: option.split sum.split trader_request.split)

lemma service_node: "sy_node (consume_service K now ev s) = sy_node s"
  by (cases ev) (auto simp: consume_service_def dispatch_items_def die_def split: sum.split)

lemma consume_node [simp]: "sy_node (consume K now posted t x s) = sy_node s"
  by (cases t; cases x) (simp_all add: consume_def handler_node service_node)

lemma node_fields [simp]:
  "sy_node (take_item t s) = sy_node s" "sy_node (dispatch_items xs s) = sy_node s"
  by (simp_all add: take_item_def dispatch_items_def)

lemma consume_change_node:
  "sy_node (consume_change now rnd rnd' s) = snd (handle_state_change now rnd rnd' (hd (sy_changes s)) (sy_node s))"
  by (simp add: consume_change_def split: prod.split)

lemma node_steps:
  "system_step K s t \<Longrightarrow> sy_node t = sy_node s \<or> node_step (sy_node s) (sy_node t)"
  by (elim system_step_E) (auto simp: consume_change_node intro: node_step.intros)

lemma node_runs:
  "reachable_from (system_step K) s t \<Longrightarrow> reachable_from node_step (sy_node s) (sy_node t)"
proof (induction rule: reachable_from.induct)
  case (reach_step t u)
  then show ?case using node_steps [of K t u] by (metis reachable_from.reach_step)
qed (rule reach_start)

text \<open>What the node has dispatched, and the events that nothing but the node dispatches.\<close>

definition node_items :: "node_event list \<Rightarrow> app_item list" where
  "node_items evs = map (\<lambda>ev. Dispatched (NodeEvent ev)) evs"

lemma node_items_simps [simp]:
  "node_items [] = []" "node_items (ev # evs) = Dispatched (NodeEvent ev) # node_items evs"
  "node_items (evs @ evs') = node_items evs @ node_items evs'"
  by (simp_all add: node_items_def)











section \<open>Properties\<close>

text \<open>C24: the application loses no event: in every run, what a consumer has taken and what waits in
  its queue are, in the order of their dispatch, exactly the events of its type that were ever dispatched,
  whatever the loops of the consumers, the poll and the timers do in between.\<close>

theorem app_routes:
  assumes "reachable_from (system_step K) system_start s"
  shows "sy_handled s t @ queue_of t s = filter (\<lambda>x. item_type x = t) (sy_history s)"
  using app.inv_reachable [OF assms] by (simp add: system_ok_def routed_def)


text \<open>C17: everything an application posts is its own: with keys that belong to the address, every
  message in the outbox names the node as its sender, and commitments (over the amount the client of the
  service commits), cancellations and reports of a swap go to the commitment service and to nobody
  else.\<close>

theorem app_messages_signed:
  assumes "reachable_from (system_step K) system_start s" and "(t, m) \<in> set (sy_outbox s)"
    and "recovers (cg_crypto K) (cg_key K) addr"
  shows "sender (cg_crypto K) m = Inr addr \<and>
    (class_of m \<in> {C_Commitment, C_Cancellation, C_SwapExecution} \<longrightarrow> t = Address (cc_service (cg_service K))) \<and>
    (class_of m = C_Commitment \<longrightarrow> m_amount m = cc_amount (cg_service K))"
proof -
  obtain ev objs where ev: "event_fits K ev" "event_type ev = TransportEvent"
      "transport_handle_event (cg_crypto K) (cg_key K) (cg_market K) objs ev = Inr (Some (t, m))"
    using app.inv_reachable [OF assms(1)] assms(2) by (auto simp: system_ok_def sent_by_def)
  then have "is_sign_event ev"
    by (cases ev) (auto simp: event_type_def split: node_event.splits)
  from signed_event [OF ev(3) this assms(3)]
  obtain u sg where u: "event_message (cg_crypto K) (cg_market K) objs ev = Inr (Some (t, u))"
      "m = with_signature u sg" "sender (cg_crypto K) m = Inr addr" by blast
  then show ?thesis using ev(1)
    by (cases ev) (auto simp: event_message_def commitment_msg_def proven_offer_msg_def bind_res_Inr_iff
      split: node_event.splits)
qed

text \<open>C18: one deposit for each commitment: in every run, the client of the commitment service has ordered
  as many deposits as it was asked for commitments, and each pays the amount of the commitment
  to the service, in the token of the fee.\<close>

theorem app_deposit_per_commit:
  assumes "reachable_from (system_step K) system_start s"
  shows "deposits_ordered s = commits_taken s \<and>
    (\<forall>token target n i. Dispatched (TransferEvent token target n i) \<in> set (sy_history s) \<longrightarrow>
      token = fee_address \<and> target = cc_service (cg_service K) \<and> n = cc_amount (cg_service K))"
  using app.inv_reachable [OF assms] by (auto simp: system_ok_def items_fit_def)

section \<open>A run\<close>

definition demo_app :: app_config where
  "demo_app = \<lparr>cg_crypto = example_crypto, cg_key = demo_key, cg_market = demo_pair,
     cg_service = mk_cs_client [8],
     cg_encoders = \<lparr>encode_address = (\<lambda>_. ''0x''), encode_token = (\<lambda>x. x), encode_hex = (\<lambda>_. ''0x'')\<rparr>\<rparr>"

definition posted_data :: order_data where
  "posted_data = \<lparr>od_order_id = Some 1, od_type = Some ''BUY'', od_amount = Some 10, od_price = Some (PInt 2),
     od_lifetime = None\<rparr>"

definition demo_ordered :: node where
  "demo_ordered = snd (process_order 0 5 demo_limit start_node)"

lemma demo_order_run:
  "handle_state_change 0 1 5 (NewLimitOrderStateChange posted_data) start_node = (Inr (), demo_ordered)"
  "dispatched demo_ordered = [CommitEvent 0]" "o_id (offer_objs demo_ordered 0) = 5" "0 < next_offer demo_ordered"
    "manager_offers demo_ordered = dict_set 5 0 []" "f_state (offer_objs demo_ordered 0) = Unproved" "matches demo_ordered = []"
proof -
  have "order_from_dict 1 posted_data = Inr demo_limit"
    by (simp add: order_from_dict_def posted_data_def demo_limit_def required_def default_offer_lifetime_def)
  then show "handle_state_change 0 1 5 (NewLimitOrderStateChange posted_data) start_node = (Inr (), demo_ordered)"
    using demo_run by (simp add: handle_state_change_def handle_new_limit_order_def lift_res_def seq_def
        demo_ordered_def return_def)
  show "dispatched demo_ordered = [CommitEvent 0]" "o_id (offer_objs demo_ordered 0) = 5" "0 < next_offer demo_ordered"
    "manager_offers demo_ordered = dict_set 5 0 []" "f_state (offer_objs demo_ordered 0) = Unproved" "matches demo_ordered = []"
    unfolding demo_ordered_def
    by (simp_all add: process_order_def demo_limit_def seq_Inr [OF modify_apply] seq_Inr [OF get_state_apply]
      match_new_order_def num_value_def demo_match start_node_def prog_simps make_rest_def create_make_offer_def
      demo_mul create_offer_def demo_time new_offer_def manager_add_offer_def the_offer_def create_new_timeout_def
      has_greenlet_def clean_up_timeout_def future_timeout_def demo_lifetime order_add_offer_def upd_order_def
      fire_offer_eq offer_dest_def on_enter_def on_enter_unproved_def dispatch_events_def upd_offer_def)
qed

text \<open>The queues after each step of the run.\<close>

lemma start_queue: "queue_of t system_start =
    (if t = RaidenListenerEvent then [Dispatched (NodeEvent (ChannelFilterEvent []))] else [])"
  by (cases t) (simp_all add: queue_of_def system_start_def dispatch_items_def dispatch_to_eq app_consumers_def
      connect_consumer_def event_type_def dict_get_def start_node_def)

lemma routed_start: "routed system_start"
  using system_ok_start by (simp add: system_ok_def)

definition demo_s1 :: system where
  "demo_s1 = consume_change 0 1 5 (put_changes [NewLimitOrderStateChange posted_data] system_start)"

lemma demo_s1_eq: "demo_s1 = dispatch_items [Dispatched (NodeEvent (CommitEvent 0))]
    (system_start\<lparr>sy_node := demo_ordered, sy_done := [NewLimitOrderStateChange posted_data],
       sy_raised := [NewLimitOrderStateChange posted_data]\<rparr>)"
  using demo_order_run
  by (simp add: demo_s1_def consume_change_def put_changes_def) (simp add: system_start_def dispatch_items_def start_node_def ok_result_def)

lemma demo_s1_run: "reachable_from (system_step demo_app) system_start demo_s1"
proof -
  have "system_step demo_app system_start (put_changes [NewLimitOrderStateChange posted_data] system_start)"
    using sy_call [of 1 "NewLimitOrder posted_data" system_start "Some 1" "[NewLimitOrderStateChange posted_data]" demo_app]
    by (simp add: on_api_call_def posted_data_def)
  moreover have "system_step demo_app (put_changes [NewLimitOrderStateChange posted_data] system_start) demo_s1"
    unfolding demo_s1_def by (rule sy_change) (simp_all add: system_start_def dispatch_items_def)
  ultimately show ?thesis by (metis reachable_from.intros)
qed

lemma demo_run_to_post:
  "\<exists>s m. reachable_from (system_step demo_app) system_start s \<and> (Address [8], m) \<in> set (sy_outbox s) \<and>
     class_of m = C_Commitment \<and> commits_taken s = 1 \<and> sy_node s = demo_ordered \<and>
     Dispatched (TransferEvent fee_address [8] commitment_amount 5) \<in> set (sy_history s)"
proof -
  let ?K = demo_app and ?c = "NodeEvent (CommitEvent 0)" and ?objs = "offer_objs demo_ordered"
  have ok1: "system_ok ?K demo_s1" using app.inv_reachable [OF demo_s1_run] .
  have "routed (system_start\<lparr>sy_node := demo_ordered, sy_done := [NewLimitOrderStateChange posted_data],
      sy_raised := [NewLimitOrderStateChange posted_data]\<rparr>)"
    using routed_start by (simp add: routed_def queue_of_def)
  then have q1: "queue_of t demo_s1 = queue_of t system_start @ filter (\<lambda>x. item_type x = t) [Dispatched ?c]" for t
    unfolding demo_s1_eq by (subst queue_dispatch) (simp_all add: queue_of_def)
  have q1c: "queue_of CommitmentServiceEvent demo_s1 = Dispatched ?c # []"
    by (simp add: q1 start_queue event_type_def)
  define s2 where "s2 = consume ?K 0 True CommitmentServiceEvent (Dispatched ?c) (take_item CommitmentServiceEvent demo_s1)"
  let ?take = "take_item CommitmentServiceEvent demo_s1"
  let ?m = "CommitmentMsgEvent [8] 0 commitment_amount"
  let ?evs = "[?m, TransferEvent fee_address [8] commitment_amount 5]"
  have s1: "sy_node demo_s1 = demo_ordered" "sy_dead demo_s1 = []"
      "sy_handled demo_s1 = (\<lambda>_. [])"
    by (simp_all add: demo_s1_eq system_start_def) (simp_all add: dispatch_items_def)
  have s2: "s2 = dispatch_items (map Dispatched ?evs) (?take\<lparr>sy_waiting := sy_waiting ?take\<rparr>)"
    using demo_order_run(3)
    by (simp add: s2_def consume_def consume_service_def cs_handle_event_def commit_def s1 demo_app_def
        mk_cs_client_def transfer_commitment_event_def)
  have r2: "reachable_from (system_step ?K) system_start s2"
    unfolding s2_def using demo_s1_run
    by (rule reach_step) (rule sy_event [OF _ q1c], simp add: s1)
  have "routed ?take" using routed_take [OF _ q1c] ok1 by (simp add: system_ok_def)
  moreover have "queue_of TransportEvent ?take = []"
    using q1 [of TransportEvent] by (simp add: start_queue event_type_def) (simp add: queue_of_def take_item_def)
  ultimately have q2: "queue_of TransportEvent s2 = Dispatched ?m # []"
    unfolding s2 by (subst queue_dispatch) (simp_all add: event_type_def)
  have n2: "sy_node s2 = demo_ordered" "sy_dead s2 = []" "sy_handled s2 CommitmentServiceEvent = [Dispatched ?c]"
      "Dispatched (TransferEvent fee_address [8] commitment_amount 5) \<in> set (sy_history s2)"
    unfolding s2 using s1 q1c by (simp_all add: dispatch_items_def take_item_def)
  obtain h where "msg_hash example_crypto (create_offer_msg (basic_offer.truncate (?objs 0)) demo_pair) = Inr h"
    using demo_hash by blast
  then obtain u where u: "event_message example_crypto demo_pair ?objs ?m = Inr (Some (Address [8], u))"
      "is_instance u Signed" "class_of u = C_Commitment"
    by (simp add: event_message_def commitment_msg_def is_instance_def)
  then obtain x where x: "transport_handle_event example_crypto demo_key demo_pair ?objs ?m = Inr (Some (Address [8], x))"
    using demo_transport [OF u(1) _ u(2)] by auto
  have cls: "class_of x = C_Commitment"
    using signed_event [OF x _ demo_recovers] u(1,3) by (cases u) auto
  define s3 where "s3 = consume ?K 0 True TransportEvent (Dispatched ?m) (take_item TransportEvent s2)"
  have s3: "s3 = (take_item TransportEvent s2)\<lparr>sy_outbox := sy_outbox (take_item TransportEvent s2) @ [(Address [8], x)]\<rparr>"
    using x n2(1) by (simp add: s3_def consume_def consume_transport_def demo_app_def)
  have r3: "reachable_from (system_step ?K) system_start s3"
    unfolding s3_def using r2 by (rule reach_step) (rule sy_event [OF _ q2], simp add: n2)
  have "commits_taken s3 = 1" "sy_node s3 = demo_ordered" "(Address [8], x) \<in> set (sy_outbox s3)"
      "Dispatched (TransferEvent fee_address [8] commitment_amount 5) \<in> set (sy_history s3)"
    unfolding s3 commits_taken_def using n2 by (simp_all add: take_item_def)
  then show ?thesis using r3 cls by blast
qed

theorem app_routes_witness:
  "\<exists>(s :: system). commits_taken s = 1 \<and> sy_handled s CommitmentServiceEvent @ queue_of CommitmentServiceEvent s =
     filter (\<lambda>x. item_type x = CommitmentServiceEvent) (sy_history s)"
  using demo_run_to_post app_routes [of demo_app _ CommitmentServiceEvent] by blast


theorem app_messages_signed_witness:
  "\<exists>(s :: system) m. (Address [8], m) \<in> set (sy_outbox s) \<and> class_of m = C_Commitment \<and>
     sender example_crypto m = Inr demo_key \<and> m_amount m = commitment_amount"
proof -
  obtain s m where s: "reachable_from (system_step demo_app) system_start s"
      "(Address [8], m) \<in> set (sy_outbox s)" "class_of m = C_Commitment"
    using demo_run_to_post by blast
  have K: "recovers (cg_crypto demo_app) (cg_key demo_app) demo_key" "cg_crypto demo_app = example_crypto"
      "cc_amount (cg_service demo_app) = commitment_amount"
    using demo_recovers by (simp_all add: demo_app_def mk_cs_client_def)
  then have "sender example_crypto m = Inr demo_key \<and> m_amount m = commitment_amount"
    using app_messages_signed [OF s(1,2) K(1)] s(3) by simp
  then show ?thesis using s(2,3) by blast
qed

theorem app_deposit_per_commit_witness:
  "\<exists>(s :: system). deposits_ordered s = 1 \<and> Dispatched (TransferEvent fee_address [8] commitment_amount 5) \<in> set (sy_history s)"
  using demo_run_to_post app_deposit_per_commit [of demo_app] by metis

end
