(* ===== verification/App_Run.thy ===== *)
theory App_Run
  imports Application Full_Trade
begin

text \<open>
  Runs of an application, step by step: what each step of \<open>system_step\<close> needs and does, over the parts of the
  state a trade goes through, and a run in which an order is placed, committed, published, taken and paid.
\<close>

section \<open>Steps\<close>

text \<open>
  An application that has run from \<open>s0\<close> and has not died: its node, the state changes that wait, the offers it waits for
  takers of, its listener, and the queues of the listener and of the client of the service; \<open>P\<close> holds the
  payments its poll has heard.
\<close>

definition app_at :: "app_config \<Rightarrow> system \<Rightarrow> node \<Rightarrow> state_change list \<Rightarrow> int list \<Rightarrow> listener \<Rightarrow> app_item list \<Rightarrow>
    app_item list \<Rightarrow> payment set \<Rightarrow> system \<Rightarrow> bool" where
  "app_at K s0 n chs ws l ql qc P s \<longleftrightarrow> reachable_from (system_step K) s0 s \<and> system_ok K s \<and> sy_node s = n \<and>
     sy_changes s = chs \<and> sy_waiting s = ws \<and> sy_listener s = l \<and> queue_of RaidenListenerEvent s = ql \<and>
     queue_of CommitmentServiceEvent s = qc \<and> sy_node_alive s \<and> sy_dead s = [] \<and>
     (\<forall>e. Polled (PaymentReceivedEvent e) \<in> set (sy_history s) \<longrightarrow> e \<in> P)"

lemma app_at_routed: "app_at K s0 n chs ws l ql qc P s \<Longrightarrow> routed s"
  by (simp add: app_at_def system_ok_def)

lemma queue_fields [simp]:
  "queue_of t (s\<lparr>sy_node := n\<rparr>) = queue_of t s" "queue_of t (s\<lparr>sy_changes := chs\<rparr>) = queue_of t s"
  "queue_of t (s\<lparr>sy_waiting := ws\<rparr>) = queue_of t s" "queue_of t (s\<lparr>sy_listener := l\<rparr>) = queue_of t s"
  "queue_of t (s\<lparr>sy_done := chs\<rparr>) = queue_of t s" "queue_of t (s\<lparr>sy_node_alive := b\<rparr>) = queue_of t s"
  "queue_of t (s\<lparr>sy_raised := chs\<rparr>) = queue_of t s"
  by (simp_all add: queue_of_def)

lemma routed_fields [simp]:
  "routed (s\<lparr>sy_node := n\<rparr>) = routed s" "routed (s\<lparr>sy_changes := chs\<rparr>) = routed s"
  "routed (s\<lparr>sy_waiting := ws\<rparr>) = routed s" "routed (s\<lparr>sy_done := chs\<rparr>) = routed s"
  "routed (s\<lparr>sy_node_alive := b\<rparr>) = routed s" "routed (s\<lparr>sy_raised := chs\<rparr>) = routed s"
  by (simp_all add: routed_def)

lemma queue_take: "queue_of u (take_item t s) = (if u = t then tl (queue_of t s) else queue_of u s)"
  by (simp add: queue_of_def take_item_def)

lemma step_at:
  "app_at K s0 n chs ws l ql qc P s \<Longrightarrow> system_step K s t \<Longrightarrow>
    reachable_from (system_step K) s0 t \<and> system_ok K t"
  unfolding app_at_def using system_ok_step by (blast intro: reach_step)

text \<open>State changes from outside.\<close>

lemma at_proof:
  assumes "app_at K s0 n chs ws l ql qc P s" and "commitment_proof_transform m = Some h"
    and "commitment_proof_process h = Inr ch"
  obtains t where "app_at K s0 n (chs @ [ch]) ws l ql qc P t"
proof
  show "app_at K s0 n (chs @ [ch]) ws l ql qc P (put_changes [ch] s)"
    using step_at [OF assms(1) sy_proof [OF assms(2,3)]] assms(1) by (simp add: app_at_def)
qed

lemma at_offer:
  assumes "app_at K s0 n chs ws l ql qc P s"
    and "transform_of (cg_crypto K) (OfferListener (cg_market K)) m = Inr (Some (Heard_entry e))"
  obtains t where "app_at K s0 n (chs @ [OfferPublishedStateChange e]) ws l ql qc P t"
proof
  show "app_at K s0 n (chs @ [OfferPublishedStateChange e]) ws l ql qc P
      (put_changes [OfferPublishedStateChange e] s)"
    using step_at [OF assms(1) sy_offer [OF assms(2)]] assms(1) by (simp add: app_at_def)
qed

lemma at_taker:
  assumes "app_at K s0 n chs (i # ws) l ql qc P s" and "taker_transform i m = Some h"
    and "taker_called (cg_crypto K) h = Inr ch"
  obtains t where "app_at K s0 n (chs @ [ch]) ws l ql qc P t"
proof
  let ?t = "put_changes (case taker_called (cg_crypto K) h of Inl _ \<Rightarrow> [] | Inr ch \<Rightarrow> [ch])
    (s\<lparr>sy_waiting := remove1 i (sy_waiting s)\<rparr>)"
  have "i \<in> set (sy_waiting s)" using assms(1) by (simp add: app_at_def)
  then show "app_at K s0 n (chs @ [ch]) ws l ql qc P ?t"
    using step_at [OF assms(1) sy_taker [OF _ assms(2)]] assms(1,3) by (simp add: app_at_def)
qed

lemma at_poll:
  assumes "app_at K s0 n chs ws l ql qc P s" and "\<forall>e' \<in> P. identifier_tuple e' \<noteq> identifier_tuple e"
  obtains t where "app_at K s0 n chs ws l (ql @ [Polled (PaymentReceivedEvent e)]) qc (insert e P) t"
proof
  let ?r = "PaymentReceivedEvent e"
  have "poll_new ?r s" using assms by (auto simp: app_at_def poll_new_def list_all_iff split: app_item.split raiden_event.split)
  then have "reachable_from (system_step K) s0 (dispatch_items [Polled ?r] s) \<and> system_ok K (dispatch_items [Polled ?r] s)"
    using step_at [OF assms(1)] sy_poll by blast
  then show "app_at K s0 n chs ws l (ql @ [Polled ?r]) qc (insert e P) (dispatch_items [Polled ?r] s)"
    using assms(1) queue_dispatch [OF app_at_routed [OF assms(1)]]
    by (simp add: app_at_def) (auto simp: dispatch_items_def)
qed

text \<open>The node takes a state change; its events go to the queues.\<close>

definition sent_to :: "event_type \<Rightarrow> app_event list \<Rightarrow> app_item list" where
  "sent_to t evs = map Dispatched (filter (\<lambda>ev. event_type ev = t) evs)"

lemma sent_items: "filter (\<lambda>x. item_type x = t) (map Dispatched evs) = sent_to t evs"
  by (simp add: sent_to_def filter_map o_def)

lemma at_change:
  assumes "app_at K s0 n (ch # chs) ws l ql qc P s"
    and "handle_state_change 0 0 0 ch n = (Inr (), n')" and "dispatched n' = dispatched n @ evs"
  obtains t where "app_at K s0 n' chs ws l (ql @ sent_to RaidenListenerEvent (map NodeEvent evs))
    (qc @ sent_to CommitmentServiceEvent (map NodeEvent evs)) P t"
proof
  let ?s = "s\<lparr>sy_node := n', sy_changes := chs, sy_done := sy_done s @ [ch], sy_node_alive := True\<rparr>"
  let ?t = "dispatch_items (map Dispatched (map NodeEvent evs)) ?s"
  have "consume_change 0 0 0 s = ?t"
    using assms by (simp add: app_at_def consume_change_def ok_result_def comp_def)
  moreover have "system_step K s (consume_change 0 0 0 s)"
    using assms(1) by (intro sy_change) (simp_all add: app_at_def)
  ultimately have "reachable_from (system_step K) s0 ?t \<and> system_ok K ?t" using step_at [OF assms(1)] by simp
  moreover have "routed ?s" using app_at_routed [OF assms(1)] by simp
  note queue_dispatch [OF this, of _ "map Dispatched (map NodeEvent evs)", unfolded sent_items]
  ultimately show "app_at K s0 n' chs ws l (ql @ sent_to RaidenListenerEvent (map NodeEvent evs))
      (qc @ sent_to CommitmentServiceEvent (map NodeEvent evs)) P ?t"
    using assms(1) by (simp add: app_at_def) (auto simp: dispatch_items_def)
qed

text \<open>The listener and the client of the service take their next item.\<close>

lemma at_listen:
  assumes "app_at K s0 n chs ws l (x # ql) qc P s"
    and "listen_item x = Some ev" and "handle_listener_event ev l = Inr (chs', l')"
  obtains t where "app_at K s0 n (chs @ chs') ws l' ql qc P t"
proof
  let ?s = "take_item RaidenListenerEvent s"
  let ?t = "put_changes chs' (?s\<lparr>sy_listener := l'\<rparr>)"
  have q: "queue_of RaidenListenerEvent s = x # ql" using assms(1) by (simp add: app_at_def)
  have "consume K 0 True RaidenListenerEvent x ?s = ?t"
    using assms by (simp add: consume_def consume_listener_def app_at_def take_item_def)
  moreover have "system_step K s (consume K 0 True RaidenListenerEvent x ?s)"
    using assms(1) by (intro sy_event [OF _ q]) (simp add: app_at_def)
  ultimately have "reachable_from (system_step K) s0 ?t \<and> system_ok K ?t" by (metis step_at [OF assms(1)])
  then show "app_at K s0 n (chs @ chs') ws l' ql qc P ?t"
    using assms(1) queue_take [of _ RaidenListenerEvent s] by (simp add: app_at_def) (simp add: take_item_def)
qed

lemma at_service:
  assumes "app_at K s0 n chs ws l ql (Dispatched (NodeEvent e) # qc) P s"
    and "cs_handle_event (cg_service K) 0 (offer_objs n) e = Inr (evs, ws')"
  obtains t where "app_at K s0 n chs (ws @ ws') l (ql @ sent_to RaidenListenerEvent evs)
    (qc @ sent_to CommitmentServiceEvent evs) P t"
proof
  let ?c = CommitmentServiceEvent and ?x = "Dispatched (NodeEvent e)"
  let ?s = "(take_item ?c s)\<lparr>sy_waiting := ws @ ws'\<rparr>"
  let ?t = "dispatch_items (map Dispatched evs) ?s"
  have q: "queue_of ?c s = ?x # qc" using assms(1) by (simp add: app_at_def)
  have "consume K 0 True ?c ?x (take_item ?c s) = ?t"
    using assms by (simp add: consume_def consume_service_def app_at_def) (simp add: take_item_def)
  moreover have "system_step K s (consume K 0 True ?c ?x (take_item ?c s))"
    using assms(1) by (intro sy_event [OF _ q]) (simp add: app_at_def)
  ultimately have "reachable_from (system_step K) s0 ?t \<and> system_ok K ?t" using step_at [OF assms(1)] by simp
  moreover have "routed ?s" using routed_take [OF app_at_routed [OF assms(1)] q] by simp
  note queue_dispatch [OF this, of _ "map Dispatched evs", unfolded sent_items]
  ultimately show "app_at K s0 n chs (ws @ ws') l (ql @ sent_to RaidenListenerEvent evs)
      (qc @ sent_to CommitmentServiceEvent evs) P ?t"
    using assms(1) queue_take [of _ ?c s] by (simp add: app_at_def) (auto simp: dispatch_items_def take_item_def)
qed

text \<open>A payment that is expected once becomes one state change.\<close>

lemma at_payment:
  assumes "app_at K s0 n chs ws l [] qc P s" and "\<forall>e' \<in> P. identifier_tuple e' \<noteq> identifier_tuple e"
    and "filters_ok l" and "waiting (pay_initiator e) (pay_identifier e) l = 1"
  obtains t l' where "app_at K s0 n (chs @ [TransferReceivedStateChange e]) ws l' [] qc (insert e P) t" "filters_ok l'"
    "\<And>who i. (who, i) \<noteq> identifier_tuple e \<Longrightarrow> waiting who i l' = waiting who i l"
proof -
  obtain s1 where s1: "app_at K s0 n chs ws l [Polled (PaymentReceivedEvent e)] qc (insert e P) s1"
    using at_poll [OF assms(1,2)] by auto
  let ?r = "PaymentReceivedEvent e"
  obtain l' where l': "handle_listener_event (RaidenEvent ?r) l =
      Inr (map (\<lambda>_. TransferReceivedStateChange e) (filter (\<lambda>f. filter_accepts (snd f) ?r) (event_filters l)), l')" "filters_ok l'"
    using new_raiden_event_eq [OF assms(3), of ?r] filters_ok_new [OF assms(3), of ?r]
    by (simp add: handle_listener_event_def del: filter_accepts.simps)
  have "length (filter (\<lambda>f. filter_accepts (snd f) ?r) (event_filters l)) = 1"
    using assms(4) by (simp only: accepts_payment waiting_def)
  then have one: "handle_listener_event (RaidenEvent ?r) l = Inr ([TransferReceivedStateChange e], l')"
    using l'(1) by (auto simp: length_Suc_conv simp del: filter_accepts.simps)
  obtain t where "app_at K s0 n (chs @ [TransferReceivedStateChange e]) ws l' [] qc (insert e P) t"
    using at_listen [OF s1 _ one] by (auto simp: listen_item_def)
  moreover have "waiting who i l' = waiting who i l" if "(who, i) \<noteq> identifier_tuple e" for who i
  proof -
    have "reports who i [TransferReceivedStateChange e] = 0" using that by (auto simp: reports_def)
    then show ?thesis using handle_listener_count [OF assms(3) one, of who i] by simp
  qed
  ultimately show ?thesis using that l'(2) by blast
qed

section \<open>A trade of the maker\<close>

text \<open>An application with nothing to do.\<close>

definition quiet :: "system \<Rightarrow> bool" where
  "quiet s \<longleftrightarrow> sy_changes s = [] \<and> sy_waiting s = [] \<and> queue_of RaidenListenerEvent s = [] \<and>
     queue_of CommitmentServiceEvent s = [] \<and> sy_node_alive s \<and> sy_dead s = []"

lemma time_now_0: "time_now 0 = Inr 0"
  using dt_to_ms_whole [of 0] by (simp add: time_now_def)

lemma waiting_add: "waiting who i (add_event_filter f l) = waiting who i l + (if f = TransferReceivedFilter who i then 1 else 0)"
  by (simp add: waiting_def add_event_filter_def)

lemma at_expect:
  assumes "app_at K s0 n chs ws l (Dispatched (NodeEvent (ExpectInboundEvent who i)) # ql) qc P s"
  obtains t where "app_at K s0 n chs ws (add_event_filter (TransferReceivedFilter who i) l) ql qc P t"
  using at_listen [OF assms, of "ExpectInbound who i" "[]"] that
  by (simp add: listen_item_def handle_listener_event_def) blast

lemmas sent_simps = sent_to_def event_type_def

text \<open>
  The run: the proof of the commitment, the entry of the offer, and the answer of the taker arrive, then the
  payment of the taker and that of the service; in between the consumers do what follows from them.
\<close>

lemma maker_trade:
  assumes start: "app_at K s0 n [] [] l [] [] P s"
    and offer: "committed i r n" "dict_get i (matches n) = None"
    and proof_msg: "commitment_proof_transform pm = Some (Heard_message pm)" "class_of pm = C_CommitmentProof" "m_offer_id pm = i"
    and entry: "transform_of (cg_crypto K) (OfferListener (cg_market K)) om = Inr (Some (Heard_entry e))" "e_id e = i"
    and answer: "taker_transform i tm = Some h" "taker_called (cg_crypto K) h = Inr (TakerCallStateChange i taker cp)"
    and service: "svc = cc_service (cg_service K)" "taker \<noteq> svc"
    and fresh: "\<forall>x \<in> P. identifier_tuple x \<noteq> (taker, i) \<and> identifier_tuple x \<noteq> (svc, i)"
    and filters: "filters_ok l" "waiting taker i l = 0" "waiting svc i l = 0"
    and payments: "identifier_tuple e1 = (taker, i)" "identifier_tuple e2 = (svc, i)"
  shows "\<exists>t. reachable_from (system_step K) s0 t \<and> f_state (offer_objs (sy_node t) r) = Completed \<and>
    \<not> has_greenlet i (sy_node t) \<and> next_offer (sy_node t) = next_offer n \<and> o_id (offer_objs (sy_node t) r) = i"
proof -
  define n1 where "n1 = emit [SendProvenOfferEvent r None] (proven r pm n)"
  define n2 where "n2 = emit [CommitmentProvedEvent r] (enter_state Published r n1)"
  define n3 where "n3 = emit [SwapInitEvent (maker_match (Some r) taker cp), ExpectInboundEvent taker i]
    (enter_state Exchanging r (n2\<lparr>matches := dict_set i (maker_match (Some r) taker cp) (matches n2)\<rparr>))"
  define n4 where "n4 = emit [ReceivedInboundEvent r e1] (enter_state Wait_for_refund r n3)"
  define n5 where "n5 = snd (clean_up_timeout i (enter_state Completed r n4))"
  have get: "get_offer i n = Some r" "o_id (offer_objs n r) = i" using offer(1) by (simp_all add: committed_def)
  have 1: "handle_state_change 0 0 0 (CommitmentProofStateChange (m_commitment_sig pm) pm) n = (Inr (), n1)"
    using proof_change [OF offer(1) proof_msg(3) offer(2)] by (simp add: n1_def)
  have 2: "handle_state_change 0 0 0 (OfferPublishedStateChange e) n1 = (Inr (), n2)"
    unfolding n2_def by (rule published_change) (simp_all add: n1_def get entry(2))
  have 3: "handle_state_change 0 0 0 (TakerCallStateChange i taker cp) n2 = (Inr (), n3)"
    using taker_call_change [of i n2 r 0 taker cp] get by (simp add: n3_def n2_def n1_def)
  have m: "dict_get i (matches n3) = Some (maker_match (Some r) taker cp)" "dict_get i (matches n4) = Some (maker_match (Some r) taker cp)"
      "f_state (offer_objs n3 r) = Exchanging" "f_state (offer_objs n4 r) = Wait_for_refund"
      "mt_offer (maker_match (Some r) taker cp) = Some r"
    by (simp_all add: n3_def n4_def maker_match_def)
  have 4: "handle_state_change 0 0 0 (TransferReceivedStateChange e1) n3 = (Inr (), n4)"
    using transfer_eq [of e1 n3] m payments(1) by (simp add: handle_state_change_def n4_def)
  have 5: "handle_state_change 0 0 0 (TransferReceivedStateChange e2) n4 = (Inr (), n5)"
    using transfer_eq [of e2 n4] m payments(2) by (simp add: handle_state_change_def n5_def prod_eq_iff)
  have ids: "o_id (offer_objs n2 r) = i" "o_id (offer_objs n4 r) = i"
    using get by (simp_all add: n4_def n3_def n2_def n1_def)
  have out: "dispatched n1 = dispatched n @ [SendProvenOfferEvent r None]" "dispatched n2 = dispatched n1 @ [CommitmentProvedEvent r]"
      "dispatched n3 = dispatched n2 @ [SwapInitEvent (maker_match (Some r) taker cp), ExpectInboundEvent taker i]"
      "dispatched n4 = dispatched n3 @ [ReceivedInboundEvent r e1]" "dispatched n5 = dispatched n4 @ []"
    by (simp_all add: n5_def) (simp_all add: n1_def n2_def n3_def n4_def emit_def enter_state_def proven_def upd_offer_def)
  have proc: "commitment_proof_process (Heard_message pm) = Inr (CommitmentProofStateChange (m_commitment_sig pm) pm)"
    using proof_msg(2) by (simp add: commitment_proof_process_def is_instance_def)
  have kept: "next_offer n5 = next_offer n" "o_id (offer_objs n5 r) = i"
    using ids(2) by (simp_all add: n5_def) (simp add: n1_def n2_def n3_def n4_def emit_def enter_state_def proven_def upd_offer_def)
  obtain a1 where "app_at K s0 n [CommitmentProofStateChange (m_commitment_sig pm) pm] [] l [] [] P a1"
    using at_proof [OF start proof_msg(1) proc] by auto
  from at_change [OF this 1 out(1)] obtain a2 where "app_at K s0 n1 [] [] l [] [] P a2" by (auto simp: sent_simps)
  from at_offer [OF this entry(1)] obtain a3 where "app_at K s0 n1 [OfferPublishedStateChange e] [] l [] [] P a3" by auto
  from at_change [OF this 2 out(2)] obtain a4 where
    "app_at K s0 n2 [] [] l [] [Dispatched (NodeEvent (CommitmentProvedEvent r))] P a4" by (auto simp: sent_simps)
  from at_service [OF this, of "[]" "[i]"] obtain a5 where "app_at K s0 n2 [] [i] l [] [] P a5"
    by (auto simp: sent_simps cs_handle_event_def ids)
  from at_taker [OF this answer] obtain a6 where "app_at K s0 n2 [TakerCallStateChange i taker cp] [] l [] [] P a6" by auto
  from at_change [OF this 3 out(3)] obtain a7 where
    a7: "app_at K s0 n3 [] [] l [Dispatched (NodeEvent (ExpectInboundEvent taker i))] [] P a7" by (auto simp: sent_simps)
  let ?l = "add_event_filter (TransferReceivedFilter taker i) l"
  from at_expect [OF a7] obtain a8 where a8: "app_at K s0 n3 [] [] ?l [] [] P a8" by blast
  have ready: "\<forall>x \<in> P. identifier_tuple x \<noteq> identifier_tuple e1" "filters_ok ?l"
      "waiting (pay_initiator e1) (pay_identifier e1) ?l = 1"
    using fresh payments(1) filters filters_ok_add [OF filters(1)] by (auto simp: waiting_add)
  obtain a9 l1 where a9: "app_at K s0 n3 ([] @ [TransferReceivedStateChange e1]) [] l1 [] [] (insert e1 P) a9"
      "filters_ok l1" "\<And>who j. (who, j) \<noteq> identifier_tuple e1 \<Longrightarrow> waiting who j l1 = waiting who j ?l"
    by (rule at_payment [OF a8 ready]) blast
  have svc: "waiting svc i l1 = 0" using a9(3) [of svc i] payments(1) service(2) filters(3) by (simp add: waiting_add)
  from at_change [OF a9(1) [unfolded append_Nil] 4 out(4)] obtain a10 where
    "app_at K s0 n4 [] [] l1 [] [Dispatched (NodeEvent (ReceivedInboundEvent r e1))] (insert e1 P) a10" by (auto simp: sent_simps)
  from at_service [OF this, of "[SendExecutedEvent svc i 0, NodeEvent (ExpectInboundEvent svc i)]" "[]"] obtain a11 where
    "app_at K s0 n4 [] [] l1 [Dispatched (NodeEvent (ExpectInboundEvent svc i))] [] (insert e1 P) a11"
    using service(1) by (auto simp: sent_simps cs_handle_event_def received_inbound_from_swap_def ids time_now_0)
  from at_expect [OF this] obtain a12 where
    "app_at K s0 n4 [] [] (add_event_filter (TransferReceivedFilter svc i) l1) [] [] (insert e1 P) a12" by blast
  note a12 = this
  let ?k = "add_event_filter (TransferReceivedFilter svc i) l1"
  have ready: "\<forall>x \<in> insert e1 P. identifier_tuple x \<noteq> identifier_tuple e2" "filters_ok ?k"
      "waiting (pay_initiator e2) (pay_identifier e2) ?k = 1"
    using fresh payments service(2) svc filters_ok_add [OF a9(2)] by (auto simp: waiting_add)
  obtain a13 l2 where "app_at K s0 n4 ([] @ [TransferReceivedStateChange e2]) [] l2 [] [] (insert e2 (insert e1 P)) a13"
    by (rule at_payment [OF a12 ready]) blast
  note a13 = this [unfolded append_Nil]
  from at_change [OF a13 5 out(5)] obtain t where "app_at K s0 n5 [] [] l2 [] [] (insert e2 (insert e1 P)) t"
    by (auto simp: sent_simps)
  then have "reachable_from (system_step K) s0 t" "sy_node t = n5" by (simp_all add: app_at_def)
  moreover have "f_state (offer_objs n5 r) = Completed" "\<not> has_greenlet i n5" by (simp_all add: n5_def)
  ultimately show ?thesis using kept by blast
qed

end
