(* ===== verification/App_Payments.thy ===== *)
theory App_Payments
  imports App_Run
begin

text \<open>
  The payments of a running application: what the poll hears, what the listener reports of it, and
  what the node makes of the reports. No offer is completed that has not been paid twice.
\<close>

section \<open>The invariant\<close>

text \<open>What the listener has handled, and the payments it was told to expect.\<close>

definition listener_handled :: "system \<Rightarrow> listener_event list" where
  "listener_handled s = List.map_filter listen_item (sy_handled s RaidenListenerEvent)"

lemma listened_raiden: "listen_item x = Some (RaidenEvent r) \<Longrightarrow> x = Polled r"
proof (cases x)
  case (Dispatched ev)
  moreover have "listener_event_of e \<noteq> Some (RaidenEvent r)" for e by (cases e) simp_all
  moreover assume "listen_item x = Some (RaidenEvent r)"
  ultimately show ?thesis by (cases ev) (simp_all add: listen_item_def)
qed (simp add: listen_item_def)

lemma listened_expect:
  "listen_item x = Some (ExpectInbound who i) \<Longrightarrow> x = Dispatched (NodeEvent (ExpectInboundEvent who i))"
proof (cases x)
  case (Dispatched ev)
  moreover have "listener_event_of e = Some (ExpectInbound who i) \<Longrightarrow> e = ExpectInboundEvent who i" for e
    by (cases e) simp_all
  moreover assume "listen_item x = Some (ExpectInbound who i)"
  ultimately show ?thesis by (cases ev) (simp_all add: listen_item_def)
qed (simp add: listen_item_def)

lemma map_filter_snoc: "List.map_filter f (xs @ [x]) = List.map_filter f xs @ (case f x of None \<Rightarrow> [] | Some y \<Rightarrow> [y])"
  by (simp add: List.map_filter_def split: option.split)

definition polled :: "payment \<Rightarrow> system \<Rightarrow> bool" where
  "polled e s \<longleftrightarrow> Polled (PaymentReceivedEvent e) \<in> set (sy_history s)"

definition pay_ok :: "system \<Rightarrow> bool" where
  "pay_ok s \<longleftrightarrow> node_ok (sy_node s) \<and> paid_within (\<lambda>i. payments_under i (sy_done s)) (sy_node s) \<and>
     filters_ok (sy_listener s) \<and>
     (\<forall>who i. reports who i (sy_done s @ sy_changes s) + waiting who i (sy_listener s) =
        expected who i (listener_handled s)) \<and>
     (\<forall>e. TransferReceivedStateChange e \<in> set (sy_done s @ sy_changes s) \<longrightarrow> polled e s)"

lemma pay_okI:
  assumes "pay_ok s" and "sy_node t = sy_node s" and "sy_done t = sy_done s" and "sy_listener t = sy_listener s"
    and "sy_changes t = sy_changes s @ chs" and "\<And>e. TransferReceivedStateChange e \<notin> set chs"
    and "listener_handled t = listener_handled s" and "set (sy_history s) \<subseteq> set (sy_history t)"
  shows "pay_ok t"
proof -
  have "reports who i chs = 0" for who i
    using assms(6) by (auto simp: reports_def filter_empty_conv split: state_change.split)
  then show ?thesis
    using assms by (simp add: pay_ok_def reports_append polled_def) blast
qed

section \<open>Where state changes come from\<close>

lemma call_no_payment: "on_api_call rnd call n = Inr (answer, chs) \<Longrightarrow> TransferReceivedStateChange e \<notin> set chs"
  by (auto simp: on_api_call_def bind_res_Inr_iff split: api_call.splits option.splits if_splits)

lemma proof_no_payment: "commitment_proof_process h = Inr ch \<Longrightarrow> ch \<noteq> TransferReceivedStateChange e"
  by (auto simp: commitment_proof_process_def split: heard.splits if_splits)

lemma taker_no_payment: "taker_called C h = Inr ch \<Longrightarrow> ch \<noteq> TransferReceivedStateChange e"
  by (auto simp: taker_called_def bind_res_Inr_iff split: heard.splits)

section \<open>Steps keep the invariant\<close>

lemma reports_split: "reports who i (xs @ ch # ys) = reports who i ((xs @ [ch]) @ ys)"
  by simp

lemma pay_ok_change:
  assumes ok: "pay_ok s" and "sy_changes s \<noteq> []"
  shows "pay_ok (consume_change now rnd rnd' s)"
proof -
  obtain ch chs where chs: "sy_changes s = ch # chs" using assms(2) by (cases "sy_changes s") auto
  let ?t = "consume_change now rnd rnd' s"
  have t: "sy_done ?t = sy_done s @ [ch]" "sy_changes ?t = chs" "sy_listener ?t = sy_listener s"
      "sy_node ?t = snd (handle_state_change now rnd rnd' ch (sy_node s))"
      "sy_handled ?t = sy_handled s" "set (sy_history s) \<subseteq> set (sy_history ?t)"
    by (auto simp: consume_change_def chs dispatch_items_def split: prod.split)
  have "node_step (sy_node s) (sy_node ?t)" unfolding t(4) by (rule ns_handle)
  then have "node_ok (sy_node ?t)" using node_system.inv_step ok by (simp add: pay_ok_def)
  moreover have "paid_within (\<lambda>i. payments_under i (sy_done ?t)) (sy_node ?t)"
    unfolding t(1,4) using ok by (intro paid_change) (simp_all add: pay_ok_def)
  ultimately show ?thesis
    using ok t(6) unfolding pay_ok_def t(1-3) by (auto simp: chs listener_handled_def t(5) polled_def)
qed

lemma pay_ok_listen:
  assumes ok: "pay_ok s" and "routed s" and q: "queue_of RaidenListenerEvent s = x # rest"
  shows "pay_ok (consume_listener x (take_item RaidenListenerEvent s))"
proof -
  let ?s = "take_item RaidenListenerEvent s"
  have same: "sy_node ?s = sy_node s" "sy_done ?s = sy_done s" "sy_listener ?s = sy_listener s"
      "sy_changes ?s = sy_changes s" "sy_history ?s = sy_history s"
      "sy_handled ?s RaidenListenerEvent = sy_handled s RaidenListenerEvent @ [x]"
    using q by (simp_all add: take_item_def)
  have x: "x \<in> set (sy_history s)" using taken_in_history(1) [OF assms(2) q] .
  show ?thesis
  proof (cases "listen_item x")
    case None
    have "listener_handled ?s = listener_handled s"
      by (simp add: listener_handled_def same map_filter_snoc None)
    then show ?thesis
      using None ok by (simp add: consume_listener_def) (rule pay_okI [OF ok, where chs = "[]"]; simp add: same)
  next
    case (Some ev)
    have fl: "filters_ok (sy_listener s)" using ok by (simp add: pay_ok_def)
    obtain chs l where out: "handle_listener_event ev (sy_listener s) = Inr (chs, l)" "filters_ok l"
      using handle_listener_ok [OF fl] by blast
    define t where "t = put_changes chs (?s\<lparr>sy_listener := l\<rparr>)"
    have run: "consume_listener x ?s = t"
      using Some out by (simp add: consume_listener_def same t_def)
    have heard: "listener_handled t = listener_handled s @ [ev]"
      by (simp add: t_def listener_handled_def same map_filter_snoc Some)
    have counts: "reports who i (sy_done t @ sy_changes t) + waiting who i (sy_listener t) =
        expected who i (listener_handled t)" for who i
    proof -
      have "reports who i (sy_done s @ sy_changes s) + waiting who i (sy_listener s) = expected who i (listener_handled s)"
        using ok by (simp add: pay_ok_def)
      moreover have "expected who i (listener_handled t) =
          expected who i (listener_handled s) + (if ev = ExpectInbound who i then 1 else 0)"
        unfolding heard by (simp add: expected_def)
      ultimately show ?thesis
        using handle_listener_count [OF fl out(1), of who i] by (simp add: t_def same reports_append)
    qed
    have "polled e t" if e: "TransferReceivedStateChange e \<in> set chs" for e
    proof -
      obtain r where r: "ev = RaidenEvent r"
        using out(1) e by (cases ev) (auto simp: handle_listener_event_def)
      then have "TransferReceivedStateChange e = change_of r"
        using out(1) e by (auto simp: handle_listener_event_def new_raiden_event_eq [OF fl])
      then have "r = PaymentReceivedEvent e" by (cases r) simp_all
      moreover have "x = Polled r" using Some unfolding r by (rule listened_raiden)
      ultimately show ?thesis using x by (simp add: polled_def t_def same)
    qed
    moreover have "polled e t" if "polled e s" for e using that by (simp add: polled_def t_def same)
    ultimately have "pay_ok t"
      using ok counts out(2) unfolding pay_ok_def by (auto simp: t_def same)
    then show ?thesis using run by simp
  qed
qed

lemma consume_other:
  assumes "t \<noteq> RaidenListenerEvent"
  shows "sy_done (consume K now posted t x s) = sy_done s" "sy_changes (consume K now posted t x s) = sy_changes s"
    "sy_listener (consume K now posted t x s) = sy_listener s" "sy_handled (consume K now posted t x s) = sy_handled s"
    "set (sy_history s) \<subseteq> set (sy_history (consume K now posted t x s))"
  using assms
  by (cases t; cases x; auto simp: consume_def consume_trader_def consume_transport_def consume_service_def die_def
      dispatch_items_def split: option.split sum.split trader_request.split app_event.split)+

lemma pay_ok_consume:
  assumes ok: "pay_ok s" and "routed s" and q: "queue_of t s = x # rest"
  shows "pay_ok (consume K now posted t x (take_item t s))"
proof (cases "t = RaidenListenerEvent")
  case True
  then show ?thesis using pay_ok_listen [OF ok assms(2)] q by (simp add: consume_def)
next
  case False
  have "set (sy_history s) \<subseteq> set (sy_history (consume K now posted t x (take_item t s)))"
    using consume_other(5) [OF False, of "take_item t s"] by (simp add: take_item_def)
  moreover have "sy_handled (take_item t s) RaidenListenerEvent = sy_handled s RaidenListenerEvent"
    using False by (simp add: take_item_def)
  ultimately show ?thesis
    using consume_other(1-4) [OF False, of K now posted x "take_item t s"]
    by (intro pay_okI [OF ok, where chs = "[]"]) (simp_all add: listener_handled_def, simp_all add: take_item_def)
qed

lemma pay_ok_timeout:
  assumes ok: "pay_ok s" and "g < next_greenlet (sy_node s)" "\<not> g_dead (greenlets (sy_node s) g)"
  shows "pay_ok (put_changes [OfferTimeoutStateChange i n] (s\<lparr>sy_node := kill_greenlet g (sy_node s)\<rparr>))"
proof -
  have "node_ok (kill_greenlet g (sy_node s))"
    using node_system.inv_step [OF ns_timeout [OF assms(2,3)]] ok by (simp add: pay_ok_def)
  then have "pay_ok (s\<lparr>sy_node := kill_greenlet g (sy_node s)\<rparr>)"
    using ok by (simp add: pay_ok_def listener_handled_def polled_def)
  then show ?thesis
    by (rule pay_okI [where chs = "[OfferTimeoutStateChange i n]"]) (simp_all add: listener_handled_def)
qed

lemma pay_ok_step:
  assumes "system_step K s t" and "pay_ok s" and "system_ok K s"
  shows "pay_ok t"
proof -
  have new: "pay_ok (put_changes chs (s\<lparr>sy_waiting := w\<rparr>))"
    if "\<And>e. TransferReceivedStateChange e \<notin> set chs" for w chs
    by (rule pay_okI [OF assms(2), where chs = chs]) (use that in \<open>simp_all add: listener_handled_def\<close>)
  have new': "pay_ok (put_changes chs s)" if "\<And>e. TransferReceivedStateChange e \<notin> set chs" for chs
    using new [OF that, where w = "sy_waiting s"] by simp
  show ?thesis
    using assms(1)
  proof (cases rule: system_step.cases)
    case (sy_taker i m h)
    show ?thesis
    proof (cases "taker_called (cg_crypto K) h")
      case (Inl err)
      then show ?thesis using sy_taker new [of "[]"] by simp
    next
      case (Inr ch)
      then have "TransferReceivedStateChange e \<notin> set [ch]" for e using taker_no_payment by fastforce
      then show ?thesis using sy_taker Inr new [of "[ch]"] by simp
    qed
  next
    case (sy_poll r)
    have "pay_ok (dispatch_items [Polled r] s)"
      by (rule pay_okI [OF assms(2), where chs = "[]"]) (auto simp: listener_handled_def dispatch_items_def)
    then show ?thesis using sy_poll by simp
  next
    case (sy_event u x rest now posted)
    then show ?thesis using pay_ok_consume assms(2,3) by (simp add: system_ok_def)
  next
    case (sy_call rnd call answer chs)
    then show ?thesis using call_no_payment new' by metis
  next
    case (sy_proof m h ch)
    then show ?thesis using proof_no_payment new' [of "[ch]"] by auto
  qed (use assms(2) pay_ok_change pay_ok_timeout new' in auto)
qed

lemma pay_ok_start: "pay_ok system_start"
proof -
  have "next_offer start_node = 0" by (simp add: start_node_def)
  then show ?thesis
    using node_ok_start
    by (simp add: pay_ok_def system_start_def dispatch_items_def listener_handled_def paid_within_def filters_ok_def
        reports_def waiting_def expected_def List.map_filter_def)
qed

interpretation app_paid: step_system system_start "system_step K" "\<lambda>s. system_ok K s \<and> pay_ok s" for K
  by unfold_locales (auto intro: system_ok_start system_ok_step pay_ok_start pay_ok_step)

section \<open>What the listener was told to expect\<close>

definition expectations :: "bytes \<Rightarrow> int \<Rightarrow> app_item list \<Rightarrow> nat" where
  "expectations who i xs = length (filter (\<lambda>x. x = Dispatched (NodeEvent (ExpectInboundEvent who i))) xs)"

lemma expected_items:
  "expected who i (List.map_filter listen_item xs) \<le> expectations who i xs"
proof (induction xs rule: rev_induct)
  case (snoc x xs)
  have "expected who i (List.map_filter listen_item (xs @ [x])) =
      expected who i (List.map_filter listen_item xs) + (if listen_item x = Some (ExpectInbound who i) then 1 else 0)"
    by (simp add: map_filter_snoc expected_def split: option.split)
  moreover have "expectations who i (xs @ [x]) =
      expectations who i xs + (if x = Dispatched (NodeEvent (ExpectInboundEvent who i)) then 1 else 0)"
    by (simp add: expectations_def)
  moreover have "(if listen_item x = Some (ExpectInbound who i) then 1 else 0 :: nat)
      \<le> (if x = Dispatched (NodeEvent (ExpectInboundEvent who i)) then 1 else 0)"
    using listened_expect [of x who i] by (simp del: not_None_eq)
  ultimately show ?case using snoc by linarith
qed (simp add: expected_def expectations_def List.map_filter_def)

lemma length_filter_mono: "(\<And>x. P x \<Longrightarrow> Q x) \<Longrightarrow> length (filter P xs) \<le> length (filter Q xs)"
  by (induction xs) auto

lemma handled_expected:
  assumes "routed s"
  shows "expected who i (listener_handled s) \<le> expectations who i (sy_history s)"
proof -
  let ?P = "\<lambda>x. x = Dispatched (NodeEvent (ExpectInboundEvent who i))"
  have "expectations who i (sy_handled s RaidenListenerEvent)
      \<le> expectations who i (sy_handled s RaidenListenerEvent @ queue_of RaidenListenerEvent s)"
    by (simp add: expectations_def)
  also have "\<dots> = length (filter ?P (filter (\<lambda>x. item_type x = RaidenListenerEvent) (sy_history s)))"
    using assms by (simp add: routed_def expectations_def)
  also have "\<dots> \<le> expectations who i (sy_history s)"
    by (simp add: expectations_def conj_commute) (rule length_filter_mono; simp)
  finally show ?thesis using expected_items [of who i "sy_handled s RaidenListenerEvent"]
    by (simp add: listener_handled_def)
qed

section \<open>A trade can complete\<close>

lemma trade_can_complete:
  assumes run: "reachable_from (system_step K) system_start s" "quiet s"
    and offer: "committed i r (sy_node s)" "dict_get i (matches (sy_node s)) = None"
    and commitment: "commitment_proof_transform pm = Some (Heard_message pm)" "class_of pm = C_CommitmentProof"
      "m_offer_id pm = i"
    and entry: "transform_of (cg_crypto K) (OfferListener (cg_market K)) om = Inr (Some (Heard_entry e))" "e_id e = i"
    and answer: "taker_transform i tm = Some h" "taker_called (cg_crypto K) h = Inr (TakerCallStateChange i taker cp)"
    and parties: "taker \<noteq> cc_service (cg_service K)"
    and fresh: "\<And>x. x \<in> {taker, cc_service (cg_service K)} \<Longrightarrow> waiting x i (sy_listener s) = 0 \<and>
      (\<forall>p. Polled (PaymentReceivedEvent p) \<in> set (sy_history s) \<longrightarrow> identifier_tuple p \<noteq> (x, i))"
  shows "\<exists>t. reachable_from (system_step K) s t \<and> f_state (offer_objs (sy_node t) r) = Completed \<and>
    \<not> has_greenlet i (sy_node t) \<and> next_offer (sy_node t) = next_offer (sy_node s) \<and>
    o_id (offer_objs (sy_node t) r) = i"
proof -
  let ?svc = "cc_service (cg_service K)"
  let ?P = "{p. Polled (PaymentReceivedEvent p) \<in> set (sy_history s)}"
  have ok: "system_ok K s" "filters_ok (sy_listener s)"
    using app_paid.inv_reachable [OF run(1)] by (simp_all add: pay_ok_def)
  have start: "app_at K s (sy_node s) [] [] (sy_listener s) [] [] ?P s"
    using ok(1) run(2) by (simp add: app_at_def quiet_def reach_start)
  have new: "\<forall>p \<in> ?P. identifier_tuple p \<noteq> (taker, i) \<and> identifier_tuple p \<noteq> (?svc, i)"
    using fresh [of taker] fresh [of ?svc] by blast
  have idle: "waiting taker i (sy_listener s) = 0" "waiting ?svc i (sy_listener s) = 0"
    using fresh [of taker] fresh [of ?svc] by simp_all
  define pay where "pay who = \<lparr>pay_initiator = who, pay_amount = 1, pay_identifier = i\<rparr>" for who
  have pay: "identifier_tuple (pay who) = (who, i)" for who by (simp add: pay_def)
  from maker_trade [OF start offer commitment entry answer refl parties new ok(2) idle pay [of taker] pay [of ?svc]]
  show ?thesis .
qed

section \<open>A run with a trade\<close>

text \<open>The order of the demonstration is committed, and there is nothing left to do.\<close>

lemma demo_quiet:
  "\<exists>(s :: system). reachable_from (system_step demo_app) system_start s \<and> quiet s \<and> sy_node s = demo_ordered \<and>
     (\<forall>who i. waiting who i (sy_listener s) = 0) \<and> (\<forall>p. Polled (PaymentReceivedEvent p) \<notin> set (sy_history s))"
proof -
  let ?c = "NodeEvent (CommitEvent 0)" and ?f = "Dispatched (NodeEvent (ChannelFilterEvent []))"
  let ?l = "\<lparr>event_filters = [], next_filter = 0\<rparr>"
  have "routed (system_start\<lparr>sy_node := demo_ordered, sy_done := [NewLimitOrderStateChange posted_data],
      sy_raised := [NewLimitOrderStateChange posted_data]\<rparr>)"
    using routed_start by simp
  then have q1: "queue_of t demo_s1 = queue_of t system_start @ filter (\<lambda>x. item_type x = t) [Dispatched ?c]" for t
    unfolding demo_s1_eq by (subst queue_dispatch) simp_all
  have "system_ok demo_app demo_s1" using app.inv_reachable [OF demo_s1_run] .
  moreover have "sy_node demo_s1 = demo_ordered" "sy_changes demo_s1 = []" "sy_waiting demo_s1 = []" "sy_listener demo_s1 = ?l"
      "sy_node_alive demo_s1" "sy_dead demo_s1 = []" "\<forall>p. Polled (PaymentReceivedEvent p) \<notin> set (sy_history demo_s1)"
    by (simp_all add: demo_s1_eq system_start_def) (simp_all add: dispatch_items_def start_node_def)
  ultimately have "app_at demo_app system_start demo_ordered [] [] ?l [?f] [Dispatched ?c] {} demo_s1"
    using demo_s1_run by (simp add: app_at_def q1 start_queue event_type_def)
  from at_listen [OF this, of "NewChannelFilter []" "[]"] obtain s2 where
    "app_at demo_app system_start demo_ordered [] [] (add_event_filter (ChannelFilter []) ?l) [] [Dispatched ?c] {} s2"
    by (auto simp: listen_item_def handle_listener_event_def)
  from at_service [OF this, unfolded cs_handle_event_def node_event.case, OF refl] obtain s3 where
    s3: "app_at demo_app system_start demo_ordered [] [] (add_event_filter (ChannelFilter []) ?l) [] [] {} s3"
    by (auto simp: commit_def transfer_commitment_event_def sent_simps)
  have "waiting who i (sy_listener s3) = 0" for who i
    using s3 by (simp add: app_at_def waiting_add) (simp add: waiting_def)
  then show ?thesis using s3 by (auto simp: app_at_def quiet_def)
qed

text \<open>All that the trade needs.\<close>

definition demo_traded :: basic_offer where
  "demo_traded = \<lparr>o_id = 5, o_type = BUY, o_base = 10, o_quote = 20, o_timeout = 60000\<rparr>"

definition demo_message :: "bytes \<Rightarrow> message" where
  "demo_message key = ProvenOffer (create_offer_msg demo_traded demo_pair) None (Some key)"

definition demo_commitment :: message where
  "demo_commitment = CommitmentProof None [3] [] 5 None"

lemma demo_trade:
  "commitment_proof_transform demo_commitment = Some (Heard_message demo_commitment)"
  "class_of demo_commitment = C_CommitmentProof" "m_offer_id demo_commitment = 5"
  "transform_of (cg_crypto demo_app) (OfferListener (cg_market demo_app)) (demo_message demo_key) =
     Inr (Some (Heard_entry \<lparr>e_offer = demo_traded, e_initiator = demo_key, e_commitment_proof = None\<rparr>))"
  "e_id \<lparr>e_offer = demo_traded, e_initiator = demo_key, e_commitment_proof = None\<rparr> = 5"
  "taker_transform 5 (demo_message taker_key) = Some (Heard_message (demo_message taker_key))"
  "taker_called (cg_crypto demo_app) (Heard_message (demo_message taker_key)) = Inr (TakerCallStateChange 5 taker_key None)"
  "taker_key \<noteq> cc_service (cg_service demo_app)"
  "committed 5 0 demo_ordered" "dict_get 5 (matches demo_ordered) = None"
proof -
  have K: "cg_crypto demo_app = example_crypto" "cg_market demo_app = demo_pair" "cc_service (cg_service demo_app) = [8]"
    by (simp_all add: demo_app_def mk_cs_client_def)
  have sent: "sender example_crypto (demo_message k) = Inr k" if "length k = 32" for k
    using that by (auto simp: demo_message_def sender_def hash_without_signature_def example_crypto_def)
  show "commitment_proof_transform demo_commitment = Some (Heard_message demo_commitment)"
    "class_of demo_commitment = C_CommitmentProof" "m_offer_id demo_commitment = 5"
    by (simp_all add: demo_commitment_def commitment_proof_transform_def is_instance_def)
  have "tp_base demo_pair \<noteq> tp_quote demo_pair" by (simp add: demo_pair_def)
  from offer_roundtrip [OF this demo_message_def sent [OF demo_key_length]]
  show "transform_of (cg_crypto demo_app) (OfferListener (cg_market demo_app)) (demo_message demo_key) =
     Inr (Some (Heard_entry \<lparr>e_offer = demo_traded, e_initiator = demo_key, e_commitment_proof = None\<rparr>))"
    by (simp add: K transform_of_def)
  show "e_id \<lparr>e_offer = demo_traded, e_initiator = demo_key, e_commitment_proof = None\<rparr> = 5"
    by (simp add: e_id_def demo_traded_def)
  show "taker_transform 5 (demo_message taker_key) = Some (Heard_message (demo_message taker_key))"
    by (simp add: taker_transform_def demo_message_def is_instance_def create_offer_msg_def demo_traded_def)
  show "taker_called (cg_crypto demo_app) (Heard_message (demo_message taker_key)) = Inr (TakerCallStateChange 5 taker_key None)"
    using sent [OF taker_key_facts(1)]
    by (simp add: K taker_called_def) (simp add: demo_message_def create_offer_msg_def demo_traded_def)
  have "length taker_key \<noteq> length (cc_service (cg_service demo_app))" using taker_key_facts(1) K(3) by simp
  then show "taker_key \<noteq> cc_service (cg_service demo_app)" by metis
  show "committed 5 0 demo_ordered" "dict_get 5 (matches demo_ordered) = None"
    using demo_order_run(3,5,6,7) by (simp_all add: committed_def get_offer_def dict_mem_def)
qed

lemma demo_completed:
  "\<exists>(t :: system). reachable_from (system_step demo_app) system_start t \<and> 0 < next_offer (sy_node t) \<and>
     f_state (offer_objs (sy_node t) 0) = Completed \<and> o_id (offer_objs (sy_node t) 0) = 5"
proof -
  obtain s where s: "reachable_from (system_step demo_app) system_start s" "quiet s" "sy_node s = demo_ordered"
      "\<forall>who i. waiting who i (sy_listener s) = 0" "\<forall>p. Polled (PaymentReceivedEvent p) \<notin> set (sy_history s)"
    using demo_quiet by blast
  have fresh: "waiting x 5 (sy_listener s) = 0 \<and>
      (\<forall>p. Polled (PaymentReceivedEvent p) \<in> set (sy_history s) \<longrightarrow> identifier_tuple p \<noteq> (x, 5))"
    if "x \<in> {taker_key, cc_service (cg_service demo_app)}" for x
    using s(4,5) by simp
  obtain t where t: "reachable_from (system_step demo_app) s t" "f_state (offer_objs (sy_node t) 0) = Completed"
      "next_offer (sy_node t) = next_offer (sy_node s)" "o_id (offer_objs (sy_node t) 0) = 5"
    using trade_can_complete [OF s(1,2) demo_trade(9,10) [folded s(3)] demo_trade(1-8) fresh] by blast
  have "reachable_from (system_step demo_app) system_start t" using s(1) t(1) by (rule reachable_from_trans)
  moreover have "0 < next_offer (sy_node t)" using t(3) s(3) demo_order_run(4) by simp
  ultimately show ?thesis using t(2,4) by blast
qed

section \<open>Properties\<close>

text \<open>C5: nothing is completed unpaid: in every run of an application, whatever its greenlets, its peers
  and its users do, an offer has come as far as wait_for_refund or completed only by one or two payments
  under its own id that the node has handled; each of them was read from the payment node, and the node
  has handled no more payments of an initiator under an id than it had told its listener to expect.\<close>

theorem app_completed_paid:
  assumes "reachable_from (system_step K) system_start s" and "r < next_offer (sy_node s)"
  shows "payments_in (f_state (offer_objs (sy_node s) r)) \<le> payments_under (o_id (offer_objs (sy_node s) r)) (sy_done s) \<and>
    (\<forall>e. TransferReceivedStateChange e \<in> set (sy_done s) \<longrightarrow> Polled (PaymentReceivedEvent e) \<in> set (sy_history s)) \<and>
    (\<forall>who i. reports who i (sy_done s) \<le> expectations who i (sy_history s))"
proof -
  have ok: "system_ok K s" "pay_ok s" using app_paid.inv_reachable [OF assms(1)] by simp_all
  have "reports who i (sy_done s) \<le> expected who i (listener_handled s)" for who i
  proof -
    have "reports who i (sy_done s) + reports who i (sy_changes s) + waiting who i (sy_listener s) =
        expected who i (listener_handled s)"
      using ok(2) by (simp add: pay_ok_def reports_append)
    then show ?thesis by simp
  qed
  moreover have "expected who i (listener_handled s) \<le> expectations who i (sy_history s)" for who i
    using ok(1) by (intro handled_expected) (simp add: system_ok_def)
  ultimately have "reports who i (sy_done s) \<le> expectations who i (sy_history s)" for who i
    using order_trans by blast
  then show ?thesis using ok(2) assms(2) by (auto simp: pay_ok_def paid_within_def polled_def)
qed

theorem app_completed_paid_witness:
  "\<exists>(s :: system). f_state (offer_objs (sy_node s) 0) = Completed \<and> 2 \<le> payments_under 5 (sy_done s) \<and>
     (\<forall>e. TransferReceivedStateChange e \<in> set (sy_done s) \<longrightarrow> Polled (PaymentReceivedEvent e) \<in> set (sy_history s))"
proof -
  obtain t :: system where t: "reachable_from (system_step demo_app) system_start t" "0 < next_offer (sy_node t)"
      "f_state (offer_objs (sy_node t) 0) = Completed" "o_id (offer_objs (sy_node t) 0) = 5"
    using demo_completed by blast
  from app_completed_paid [OF t(1,2)] t(3,4)
  have "2 \<le> payments_under 5 (sy_done t) \<and>
      (\<forall>e. TransferReceivedStateChange e \<in> set (sy_done t) \<longrightarrow> Polled (PaymentReceivedEvent e) \<in> set (sy_history t))"
    by simp
  then show ?thesis using t(3) by blast
qed

text \<open>C4: a trade can complete in a running application. Take any reachable state in which the application has
  nothing left to do, none of its consumers has died, one of its offers waits for the proof of its commitment and has no
  match yet, and no payment of the taker or of the service under the id of the offer has been read or is waited
  for; the taker is not the service. Then a proof of the service, the entry of its offer on the market, and the answer
  of the taker, with a payment of the taker and one of the service, lead through steps of its own to the completed offer,
  without a timeout left.\<close>

theorem app_trade_completes:
  assumes run: "reachable_from (system_step K) system_start s" "quiet s"
    and offer: "committed i r (sy_node s)" "dict_get i (matches (sy_node s)) = None"
    and commitment: "commitment_proof_transform pm = Some (Heard_message pm)" "class_of pm = C_CommitmentProof"
      "m_offer_id pm = i"
    and entry: "transform_of (cg_crypto K) (OfferListener (cg_market K)) om = Inr (Some (Heard_entry e))" "e_id e = i"
    and answer: "taker_transform i tm = Some h" "taker_called (cg_crypto K) h = Inr (TakerCallStateChange i taker cp)"
    and parties: "taker \<noteq> cc_service (cg_service K)"
    and fresh: "\<And>x. x \<in> {taker, cc_service (cg_service K)} \<Longrightarrow> waiting x i (sy_listener s) = 0 \<and>
      (\<forall>p. Polled (PaymentReceivedEvent p) \<in> set (sy_history s) \<longrightarrow> identifier_tuple p \<noteq> (x, i))"
  shows "\<exists>t. reachable_from (system_step K) s t \<and> f_state (offer_objs (sy_node t) r) = Completed \<and>
    \<not> has_greenlet i (sy_node t)"
  using trade_can_complete [OF assms] by blast

theorem app_trade_completes_witness:
  "\<exists>(s :: system) t. sy_node s = demo_ordered \<and> reachable_from (system_step demo_app) s t \<and>
     f_state (offer_objs (sy_node t) 0) = Completed"
proof -
  obtain s where s: "reachable_from (system_step demo_app) system_start s" "quiet s" "sy_node s = demo_ordered"
      "\<forall>who i. waiting who i (sy_listener s) = 0" "\<forall>p. Polled (PaymentReceivedEvent p) \<notin> set (sy_history s)"
    using demo_quiet by blast
  have fresh: "waiting x 5 (sy_listener s) = 0 \<and>
      (\<forall>p. Polled (PaymentReceivedEvent p) \<in> set (sy_history s) \<longrightarrow> identifier_tuple p \<noteq> (x, 5))"
    if "x \<in> {taker_key, cc_service (cg_service demo_app)}" for x
    using s(4,5) by simp
  obtain t where "reachable_from (system_step demo_app) s t" "f_state (offer_objs (sy_node t) 0) = Completed"
    using app_trade_completes [OF s(1,2) demo_trade(9,10) [folded s(3)] demo_trade(1-8) fresh] by blast
  then show ?thesis using s(3) by blast
qed

end
