(* ===== verification/Spec2Isabelle.thy ===== *)
theory Spec2Isabelle
  imports Deadlines Node_Properties Order_Flow Exchange Offer_Grouping Trader_Mock Topic_Invariant Rest
    Client_Mock Listener_Objects Comparisons Command_Line Full_Trade App_Payments
begin

text \<open>
  A model of raidex, a decentralised exchange over payment channels (\<open>src/raidex\<close>).

  The program. Nodes place limit orders on one market (a pair of tokens). An order takes the
  offers of the book that match its price and makes an offer of what is left. An offer is backed by a
  deposit at the commitment service: a maker and a taker each commit to it, the service sends proofs
  signed by itself, the parties pay each other through a payment network, report the execution,
  and get their deposits back; a timeout or a cancellation ends the swap otherwise. Messages go over a
  broker with topics. A node is a set of queues: one consumer takes state changes and may dispatch
  events, others send messages, payments and expectations.

  How the model is built. A Python exception is a value of \<open>py_error\<close>; stateful code is a function
  from a state to a result or an exception and the new state, so that a mutation made before an
  exception is kept (\<open>Prelude\<close>). Objects that several parts share live in a store, a function from
  numbers to records (\<open>swap_objs\<close>, \<open>offer_objs\<close>), and are passed as numbers. Greenlets are step
  relations: every interleaving of their loop bodies. Floats are rationals rounded to binary64
  (\<open>Py_Float\<close>), decimals are rationals rounded to 28 digits, Python ints are \<open>int\<close>. The package
  \<open>transitions\<close> is the theory \<open>Fsm\<close>: the first transition in the order of the table whose source
  and conditions fit, then the callbacks; \<open>MachineError\<close> if none does. The package
  \<open>sortedcontainers\<close> is the contract of \<open>Sorted_Dict\<close> and the sorted list that satisfies it.

  The theories, and what they model.
  \<^item> \<open>Prelude\<close>, \<open>Py_Float\<close>, \<open>Fsm\<close>, \<open>Sorted_Dict\<close>, \<open>Timestamps\<close> (\<open>utils/timestamp.py\<close>): what all share.
  \<^item> \<open>Messages\<close> (\<open>messages.py\<close>, \<open>signing.py\<close>): the message classes, their hash, signing and sender.
  \<^item> The commitment service (\<open>commitment_service/\<close>): \<open>Swap\<close> (\<open>swap.py\<close>, \<open>swap_state_machine.py\<close>:
    the swap, its table of transitions and its callbacks), \<open>Refunds\<close> (\<open>refund.py\<close>: fees, the queue by
    priority, transfers in flight), \<open>Commitment_Service\<close> (\<open>tasks.py\<close>, \<open>node.py\<close>: the tasks and the
    service as their interleaving). \<open>Swap_Effects\<close> and \<open>Swap_Steps\<close> compute what each trigger does in
    each state; \<open>Swap_Invariant\<close> (shape of a swap in each state), \<open>Deposits\<close> (where each deposit is) and
    \<open>Outbox\<close> (what is queued for sending) are invariants; \<open>Service_Properties\<close> states the properties,
    among them the refinement of an abstract deal, and the one deposit that can be lost, and \<open>Deadlines\<close> shows how swaps come to an end: few
    changes, and a timer for each running swap. \<open>Service_Mock\<close> and \<open>Client_Mock\<close>
    (\<open>raidex_node/commitment_service/mock.py\<close>) are the mock of the service and of its client.
  \<^item> The order book: \<open>Offers\<close> (\<open>order/offer.py\<close>, \<open>market.py\<close>, offers on the wire), \<open>Offer_Book\<close>
    (\<open>offer_book.py\<close>, refined by a map from ids to entries), \<open>Matching\<close> (\<open>matching/\<close>), \<open>Trades\<close>
    (\<open>trades.py\<close>, \<open>listener_tasks.py\<close>, market price), \<open>Offer_Grouping\<close> (\<open>offer_grouping.py\<close>, the queries
    of \<open>raidex_node.py\<close>).
  \<^item> The node: \<open>Offer_Fsm\<close> (\<open>order/__init__.py\<close>, \<open>order/events.py\<close>: the nested machine of an offer),
    \<open>Node\<close> (\<open>data_manager.py\<close>, \<open>handle_state_change.py\<close>, \<open>handle_api_call.py\<close>, \<open>offer_manager.py\<close>,
    \<open>limit_order.py\<close>, \<open>match.py\<close>, \<open>greenlet_helper.py\<close>), \<open>Node_Contract\<close> (a locale: what keeps an invariant
    on every operation of the node), \<open>Node_Invariant\<close> (offers, orders, matches and timeouts fit together),
    \<open>Offer_History\<close> (a locale for laws of the machine, and how an offer may change over a run),
    \<open>Node_Properties\<close> (the outcome of each handler), \<open>Node_Payments\<close> (only payments move an offer on to its
    completion), \<open>Node_Trace\<close> (the node as what a list of state changes makes of it), \<open>Reached_Book\<close> (what holds of
    every book a node reaches, stale entries included, and what a match then takes), \<open>Order_Flow\<close> (what an order
    becomes), \<open>Raidex_Node\<close> (\<open>raidex_node.py\<close>: the node as an object,
    its queries and statistics).
  \<^item> \<open>Bots\<close> (\<open>bots.py\<close>): what the three bots plan and place, with the node they are given; \<open>Command_Line\<close>
    (\<open>__main__.py\<close> of node and service): what is built and started from the arguments.
  \<^item> The surroundings: \<open>Raiden_Listener\<close> (\<open>trader/listener/\<close>, \<open>architecture/filter.py\<close>), \<open>Broker\<close>
    (\<open>message_broker/\<close>), \<open>Clients\<close> (\<open>commitment_service/client.py\<close>, \<open>transport/\<close>, \<open>trader/\<close>,
    \<open>architecture/event_architecture.py\<close>), \<open>Exchange\<close> (properties that span node, broker, service and payment
    listener), \<open>Application\<close> (\<open>app.py\<close>, the consumers of \<open>event_architecture.py\<close>: the node with its queues and
    consumers as the interleaving of their loops), \<open>App_Run\<close> (what each of its steps
    needs and does, and the run of a trade), \<open>App_Payments\<close> (nothing is completed unpaid, and a trade can complete), \<open>Service_Trade\<close> and \<open>Full_Trade\<close> (an honest trade from the
    commitments to the refunds, at the service and at both nodes), \<open>Trader_Mock\<close> (\<open>trader_mock/trader.py\<close>), \<open>Trader_Client\<close> (\<open>trader/client.py\<close>: payments over
    HTTP and the poll by which the service hears of deposits).
  \<^item> The wire: \<open>Wire\<close> (the envelope of \<open>messages.py\<close> with its base64 lines, \<open>encode\<close> and \<open>decode\<close> of
    \<open>transport/client.py\<close>), \<open>Topic_Client\<close> (\<open>message_broker/server.py\<close>, a stream per request, and
    \<open>transport/client.py\<close>, a streaming task per topic), \<open>Topic_Invariant\<close> (what holds of a client after any
    sequence of calls and lines).
  \<^item> Shared: \<open>Listener_Objects\<close> (the life of the objects that listen, at the broker and at the mock network),
    \<open>Comparisons\<close> (equality, hash and order of messages, groups and bins, \<open>message_abstrations.py\<close>).
  \<^item> The edges: \<open>Rest\<close> (\<open>api/v0_1/resources.py\<close>: queries, and orders from a JSON body to the state change
    they dispatch), \<open>Accounts\<close> (\<open>account.py\<close>), \<open>Setup\<close> (\<open>signing.py\<close>, \<open>app.py\<close>,
    \<open>commitment_service/node.py\<close>, \<open>utils/\<close>: signers, and how a node and a service are built).

  Interfaces. \<open>dictionary\<close> and \<open>sorted_dict\<close> (what a client of a dictionary relies on; interpreted on the
  association lists of the model), \<open>step_system\<close> (an invariant of a transition system; interpreted on
  the service, the refunds, the node and the application), \<open>ranked_system\<close> (a view that only climbs changes boundedly often;
  interpreted on swaps and on offers), \<open>weak_order\<close> (the order of refunds, messages, groups and bins), \<open>hub\<close>
  (what an object that listens relies on; interpreted on the broker and on the trader of the mock network), \<open>transitions_contract\<close> (the machines), \<open>node_code\<close> and \<open>offer_law\<close> (laws kept by
  every operation of the node, for a chosen set of triggers; interpreted on the machine of offers, on the
  books a node reaches and on what it dispatches). Properties rest on the
  facts of these interpretations.

  What is shown. Deposits are conserved by the service: each receipt that is handed to a swap is held by exactly one
  swap, queued for refund, in flight, refunded or kept, and refunded once at most; but for a single one, which
  an offer with an unsigned commitment can cost, and which ends the task that hears deposits. A swap follows the
  abstract deal, changes four times at most, and has a timer that ends it as long as the task that hears
  commitments is alive; only signed messages of the right addressee leave. A message crosses the wire
  unchanged and reaches each listener once, up to the first that refuses it with an exception. An honest trade
  completes at the service and at both nodes, under one secret. A running application loses no event, orders one deposit for
  each commitment, posts only messages signed by itself, and hands its node every state change once and in order; it completes no offer without two payments under its id, read
  from the payment node and expected, and from a quiet state it can complete an offer it has committed, unless earlier matches or payments use its id. A listener that has stopped hears nothing more. An order is accounted for to
  the last unit by the offers it takes and makes, on every book a node reaches. An offer follows its table of transitions in every run
  of the node, a final state is final, and at most one live timeout exists per offer. Matching takes
  exactly the best prefix of the offers at the price. Payments expected are reported once. The price
  chart tiles time, grouping loses no amount. Error paths are stated as they are: where the code
  raises, or where a check is missing, a theorem says so.

  Bounds. Properties that involve floats hold without a bound where rounding is monotone, and for
  integers up to 2 to the 53 (or stated smaller bounds) where exactness matters; decimal arithmetic is
  exact below 28 digits, the theorems ask for 10 to the 26. No definition uses fuel: every recursion is
  over a list or a number, but for the loop that draws a secret, which is a partial function.

  Parameters. Hashing, the signature scheme and RLP (the record \<open>crypto\<close>), the JSON text form and the
  RLP decoder (\<open>wire\<close>), key stores and keys (\<open>key_tools\<close>), the encoders and checks of \<open>eth_utils\<close>, the
  answers of the payment node, the clock reading, random secrets and ids, the hash of strings in the
  trader mock.

  Not modelled. Orders over fractional amounts beyond their dispatch by \<open>Rest\<close> (the node here counts in whole
  amounts), and the token of a payment, which the code does not read. HTTP itself (flask, requests), the parsing of command lines, the web client, log output. Some
  modules cannot be loaded: \<open>trader_mock/server.py\<close> (flask rejects one of its routes), \<open>utils/mock.py\<close> (it
  hashes a text as if it were bytes) and \<open>utils/mockrestapi.py\<close> that imports it, \<open>ui/server.py\<close> (not Python 3),
  and \<open>service.py\<close>, which imports a package that is not in the repository.
\<close>

end
